theory Spec2Isabelle
  imports Complex_Main "HOL-Library.Word"
begin

unbundle bit_operations_syntax

section \<open>JavaScript number operators used by the simulation\<close>

text \<open>
  The simulation works on integer-valued JavaScript numbers. They are modelled as
  \<open>int\<close>; every operator that converts through a 32-bit integer is written out as
  the conversion it performs.
\<close>

text \<open>\<^verbatim>\<open>v | 0\<close>: ToInt32.\<close>
definition toInt32 :: "int \<Rightarrow> int" where
  "toInt32 v = sint (word_of_int v :: 32 word)"

text \<open>\<^verbatim>\<open>v >>> 0\<close>: ToUint32.\<close>
definition toUint32 :: "int \<Rightarrow> int" where
  "toUint32 v = uint (word_of_int v :: 32 word)"

text \<open>\<^verbatim>\<open>a ^ b\<close>: both operands through ToInt32, the result is a signed 32-bit integer.\<close>
definition bxor :: "int \<Rightarrow> int \<Rightarrow> int" where
  "bxor a b = sint ((word_of_int a :: 32 word) XOR word_of_int b)"

text \<open>\<^verbatim>\<open>Math.imul(a, b)\<close>: 32-bit multiplication, signed result.\<close>
definition imul :: "int \<Rightarrow> int \<Rightarrow> int" where
  "imul a b = sint ((word_of_int a :: 32 word) * word_of_int b)"

text \<open>\<^verbatim>\<open>f & 0xffff\<close>: the low 16 bits, also of a negative integer.\<close>
definition and_ffff :: "int \<Rightarrow> nat" where
  "and_ffff f = nat (f AND 65535)"

text \<open>
  \<^verbatim>\<open>FP.from(n)\<close> is \<^verbatim>\<open>(n * (1 << 16)) | 0\<close>: the product is truncated towards zero
  and reduced to a signed 32-bit integer. Non-integer numbers are modelled as exact
  rationals; the rounding of doubles is not modelled.
\<close>
definition js_trunc :: "rat \<Rightarrow> int" where
  "js_trunc r = (if 0 \<le> r then \<lfloor>r\<rfloor> else \<lceil>r\<rceil>)"

definition FP_from :: "rat \<Rightarrow> int" where
  "FP_from n = toInt32 (js_trunc (n * 65536))"

section \<open>JavaScript strings\<close>

text \<open>
  A JavaScript string is a sequence of 16-bit code units. \<open>lit\<close> is the string
  whose code units are the given ASCII characters.
\<close>
type_synonym jsstring = "16 word list"

definition lit :: "string \<Rightarrow> jsstring" where
  "lit cs = map (\<lambda>c. word_of_nat (of_char c)) cs"

section \<open>State (rollback.ts)\<close>

text \<open>
  \<open>Fighter\<close> and \<open>State\<close> of the current revision of rollback.ts (the one with
  collision boxes and the two activity flags). A flag that is absent from a seed object
  is falsy in every test the code makes and is modelled as \<open>False\<close>.
\<close>

record CollisionBox =
  x :: rat
  y :: rat
  width :: rat
  height :: rat

record Fighter =
  x :: int
  vx :: int
  hp :: int
  anim :: int
  hitboxActive :: bool
  hurtboxActive :: bool

record State =
  frame :: nat
  p1 :: Fighter
  p2 :: Fighter

text \<open>The seed state of \<open>makeRollback\<close> in main.ts.\<close>
definition seed0 :: State where
  "seed0 =
    \<lparr>frame = 0,
     p1 = \<lparr>Fighter.x = - 65536, vx = 0, hp = 100, anim = 0,
           hitboxActive = False, hurtboxActive = False\<rparr>,
     p2 = \<lparr>Fighter.x = 65536, vx = 0, hp = 100, anim = 0,
           hitboxActive = False, hurtboxActive = False\<rparr>\<rparr>"

section \<open>State hash\<close>

definition hash32 :: "int \<Rightarrow> int \<Rightarrow> int" where
  "hash32 h v =
    (let h1 = bxor h (toUint32 v);
         h2 = toUint32 (imul h1 16777619)
     in toUint32 h2)"

text \<open>The body of the loop \<^verbatim>\<open>for (const f of [s.p1, s.p2])\<close> of \<open>hashState\<close>.\<close>
definition hashFighter :: "int \<Rightarrow> Fighter \<Rightarrow> int" where
  "hashFighter h0 f =
    (let h = hash32 h0 (Fighter.x f);
         h = hash32 h (vx f);
         h = hash32 h (toInt32 (hp f));
         h = hash32 h (toInt32 (anim f));
         h = hash32 h (if hitboxActive f then 1 else 0);
         h = hash32 h (if hurtboxActive f then 1 else 0)
     in h)"

definition hashState :: "State \<Rightarrow> int" where
  "hashState s =
    (let h = toUint32 2166136261;
         h = hash32 h (int (frame s));
         h = foldl hashFighter h [p1 s, p2 s]
     in toUint32 h)"

text \<open>
  The earlier revision of rollback.ts (first in the source file) hashed four words per
  fighter and had no flags.
\<close>
definition hashFighter_v1 :: "int \<Rightarrow> Fighter \<Rightarrow> int" where
  "hashFighter_v1 h0 f =
    (let h = hash32 h0 (Fighter.x f);
         h = hash32 h (vx f);
         h = hash32 h (toInt32 (hp f));
         h = hash32 h (toInt32 (anim f))
     in h)"

definition hashState_v1 :: "State \<Rightarrow> int" where
  "hashState_v1 s =
    (let h = toUint32 2166136261;
         h = hash32 h (int (frame s));
         h = foldl hashFighter_v1 h [p1 s, p2 s]
     in toUint32 h)"

subsection \<open>The hash as the specification words it\<close>

text \<open>
  The specification's description: seed \<open>0x811C9DC5\<close>, and per 32-bit word \<open>v\<close> the
  step \<open>h = (h XOR v) * 0x01000193\<close> with unsigned 32-bit wrap.
\<close>

definition fnv_seed :: nat where
  "fnv_seed = 0x811C9DC5"

definition fnv_step :: "nat \<Rightarrow> nat \<Rightarrow> nat" where
  "fnv_step h v = ((h XOR v) * 0x01000193) mod 2 ^ 32"

text \<open>The low 32 bits of an integer, as an unsigned word.\<close>
definition u32 :: "int \<Rightarrow> nat" where
  "u32 v = nat (v mod 2 ^ 32)"

definition flag_word :: "bool \<Rightarrow> nat" where
  "flag_word b = (if b then 1 else 0)"

text \<open>The nine words the specification enumerates.\<close>
definition spec_words9 :: "State \<Rightarrow> nat list" where
  "spec_words9 s =
    [u32 (int (frame s)),
     u32 (Fighter.x (p1 s)), u32 (vx (p1 s)), u32 (hp (p1 s)), u32 (anim (p1 s)),
     u32 (Fighter.x (p2 s)), u32 (vx (p2 s)), u32 (hp (p2 s)), u32 (anim (p2 s))]"

definition spec_hash9 :: "State \<Rightarrow> nat" where
  "spec_hash9 s = foldl fnv_step fnv_seed (spec_words9 s)"

text \<open>The thirteen words the current \<open>hashState\<close> consumes.\<close>
definition code_words13 :: "State \<Rightarrow> nat list" where
  "code_words13 s =
    [u32 (int (frame s)),
     u32 (Fighter.x (p1 s)), u32 (vx (p1 s)), u32 (hp (p1 s)), u32 (anim (p1 s)),
     flag_word (hitboxActive (p1 s)), flag_word (hurtboxActive (p1 s)),
     u32 (Fighter.x (p2 s)), u32 (vx (p2 s)), u32 (hp (p2 s)), u32 (anim (p2 s)),
     flag_word (hitboxActive (p2 s)), flag_word (hurtboxActive (p2 s))]"

section \<open>The script VM (vm_rhai.ts) as seen by the engine\<close>

text \<open>
  \<open>Cmd\<close> is the command type the step interprets; a command with any other tag is
  ignored by every test of the step and is \<open>OtherCmd\<close>.
\<close>
datatype Cmd = Move int | Anim jsstring | Hitbox bool | Hurtbox bool | OtherCmd

text \<open>
  The Rhai interpreter is a WebAssembly module that is not part of the TypeScript
  sources. \<open>RhaiVM.tick\<close> is therefore a parameter of the model: given the scope a VM
  has accumulated, the frame and the input mask, it returns the commands and the scope
  after the tick.
\<close>
type_synonym 'v tick = "'v \<Rightarrow> nat \<Rightarrow> nat \<Rightarrow> Cmd list \<times> 'v"

section \<open>Simulation step (rollback.ts)\<close>

text \<open>\<open>hashStr\<close>: \<^verbatim>\<open>h = ((h << 5) - h + str.charCodeAt(i)) | 0\<close> over the code units.\<close>
definition shl5 :: "int \<Rightarrow> int" where
  "shl5 h = sint (push_bit 5 (word_of_int h :: 32 word))"

definition hashStr :: "jsstring \<Rightarrow> int" where
  "hashStr str = toInt32 (foldl (\<lambda>h c. toInt32 (shl5 h - h + uint c)) 0 str)"

record AnimBoxes =
  hitboxes :: "CollisionBox list"
  hurtboxes :: "CollisionBox list"

type_synonym CollisionData = "int \<rightharpoonup> AnimBoxes"

definition calculateOverlapX :: "CollisionBox \<Rightarrow> CollisionBox \<Rightarrow> rat" where
  "calculateOverlapX box1 box2 =
    (let halfW1 = width box1 / 2;
         halfW2 = width box2 / 2;
         left1 = CollisionBox.x box1 - halfW1;
         right1 = CollisionBox.x box1 + halfW1;
         left2 = CollisionBox.x box2 - halfW2;
         right2 = CollisionBox.x box2 + halfW2
     in if right1 < left2 \<or> left1 > right2 then 0
        else min (right1 - left2) (right2 - left1))"

definition checkCollision :: "CollisionBox \<Rightarrow> CollisionBox \<Rightarrow> bool" where
  "checkCollision box1 box2 =
    (let halfW1 = width box1 / 2;
         halfH1 = height box1 / 2;
         halfW2 = width box2 / 2;
         halfH2 = height box2 / 2;
         left1 = CollisionBox.x box1 - halfW1;
         right1 = CollisionBox.x box1 + halfW1;
         top1 = y box1 - halfH1;
         bottom1 = y box1 + halfH1;
         left2 = CollisionBox.x box2 - halfW2;
         right2 = CollisionBox.x box2 + halfW2;
         top2 = y box2 - halfH2;
         bottom2 = y box2 + halfH2
     in \<not> (right1 < left2 \<or> left1 > right2 \<or> bottom1 < top2 \<or> top1 > bottom2))"

text \<open>\<^verbatim>\<open>boxes[0]\<close>: the first box, or undefined.\<close>
definition first_box :: "CollisionBox list \<Rightarrow> CollisionBox option" where
  "first_box bs = (case bs of [] \<Rightarrow> None | b # _ \<Rightarrow> Some b)"

text \<open>A box moved to world space: mirrored when the fighter faces left.\<close>
definition worldBox :: "rat \<Rightarrow> bool \<Rightarrow> CollisionBox \<Rightarrow> CollisionBox" where
  "worldBox worldX facingLeft b =
    \<lparr>CollisionBox.x = worldX + (if facingLeft then - CollisionBox.x b else CollisionBox.x b),
     y = y b, width = width b, height = height b\<rparr>"

text \<open>\<^verbatim>\<open>(s.p.x / (1 << 16)) * 16\<close>.\<close>
definition worldX :: "int \<Rightarrow> rat" where
  "worldX fx = (of_int fx / 65536) * 16"

definition walk :: int where
  "walk = FP_from (1 / 4)"

text \<open>
  One pass of the loop over a player's commands. The running velocity is a local
  variable of the step; the other commands write the fighter.
\<close>
fun applyCmd :: "int \<times> Fighter \<Rightarrow> Cmd \<Rightarrow> int \<times> Fighter" where
  "applyCmd (v, f) (Move dx) = ((if dx > 0 then walk else if dx < 0 then - walk else 0), f)"
| "applyCmd (v, f) (Anim name) = (v, f\<lparr>anim := hashStr name\<rparr>)"
| "applyCmd (v, f) (Hitbox active) = (v, f\<lparr>hitboxActive := active\<rparr>)"
| "applyCmd (v, f) (Hurtbox active) = (v, f\<lparr>hurtboxActive := active\<rparr>)"
| "applyCmd (v, f) OtherCmd = (v, f)"

text \<open>A player's part of the step: the commands, then \<^verbatim>\<open>vx = v; x = (x + v) | 0\<close>.\<close>
definition movePlayer :: "Cmd list \<Rightarrow> Fighter \<Rightarrow> Fighter" where
  "movePlayer cmds f =
    (case foldl applyCmd (vx f, f) cmds of
      (v, f') \<Rightarrow> f'\<lparr>vx := v, x := toInt32 (Fighter.x f' + v)\<rparr>)"

text \<open>The pushback block: keeps the two fighters from overlapping.\<close>
definition pushback :: "CollisionData \<Rightarrow> bool \<Rightarrow> bool \<Rightarrow> State \<Rightarrow> State" where
  "pushback cd p1FacingLeft p2FacingLeft s =
    (case (cd (anim (p1 s)), cd (anim (p2 s))) of
      (Some p1Data, Some p2Data) \<Rightarrow>
        (let p1WorldX = worldX (Fighter.x (p1 s));
             p2WorldX = worldX (Fighter.x (p2 s));
             boxes1 =
               map (worldBox p1WorldX p1FacingLeft)
                 (List.map_filter first_box [hitboxes p1Data, hurtboxes p1Data]);
             boxes2 =
               map (worldBox p2WorldX p2FacingLeft)
                 (List.map_filter first_box [hitboxes p2Data, hurtboxes p2Data]);
             maxOverlap =
               foldl (\<lambda>m box1. foldl (\<lambda>m box2. max m (calculateOverlapX box1 box2)) m boxes2)
                 0 boxes1
         in if maxOverlap > 0 then
              (let pushbackPerPlayer = maxOverlap / 2;
                   pushbackFixed = FP_from (pushbackPerPlayer / 16)
               in if Fighter.x (p1 s) < Fighter.x (p2 s) then
                    s\<lparr>p1 := (p1 s)\<lparr>x := toInt32 (Fighter.x (p1 s) - pushbackFixed)\<rparr>,
                      p2 := (p2 s)\<lparr>x := toInt32 (Fighter.x (p2 s) + pushbackFixed)\<rparr>\<rparr>
                  else
                    s\<lparr>p1 := (p1 s)\<lparr>x := toInt32 (Fighter.x (p1 s) + pushbackFixed)\<rparr>,
                      p2 := (p2 s)\<lparr>x := toInt32 (Fighter.x (p2 s) - pushbackFixed)\<rparr>\<rparr>)
            else s)
    | _ \<Rightarrow> s)"

text \<open>Whether the first hitbox of the attacker meets the first hurtbox of the defender.\<close>
definition boxesHit ::
  "CollisionBox list \<Rightarrow> CollisionBox list \<Rightarrow> rat \<Rightarrow> bool \<Rightarrow> rat \<Rightarrow> bool \<Rightarrow> bool" where
  "boxesHit bs1 bs2 w1 facing1 w2 facing2 =
    (case (first_box bs1, first_box bs2) of
      (Some b1, Some b2) \<Rightarrow> checkCollision (worldBox w1 facing1 b1) (worldBox w2 facing2 b2)
    | _ \<Rightarrow> False)"

text \<open>P1's hitbox against P2's hurtbox.\<close>
definition hitP1onP2 :: "CollisionData \<Rightarrow> bool \<Rightarrow> bool \<Rightarrow> State \<Rightarrow> State" where
  "hitP1onP2 cd p1FacingLeft p2FacingLeft s =
    (if hitboxActive (p1 s) \<and> hurtboxActive (p2 s) then
       (case (cd (anim (p1 s)), cd (anim (p2 s))) of
         (Some p1Data, Some p2Data) \<Rightarrow>
           if boxesHit (hitboxes p1Data) (hurtboxes p2Data)
                (worldX (Fighter.x (p1 s))) p1FacingLeft
                (worldX (Fighter.x (p2 s))) p2FacingLeft
           then s\<lparr>p2 := (p2 s)\<lparr>hp := max 0 (hp (p2 s) - 1)\<rparr>\<rparr>
           else s
       | _ \<Rightarrow> s)
     else s)"

text \<open>P2's hitbox against P1's hurtbox.\<close>
definition hitP2onP1 :: "CollisionData \<Rightarrow> bool \<Rightarrow> bool \<Rightarrow> State \<Rightarrow> State" where
  "hitP2onP1 cd p1FacingLeft p2FacingLeft s =
    (if hitboxActive (p2 s) \<and> hurtboxActive (p1 s) then
       (case (cd (anim (p1 s)), cd (anim (p2 s))) of
         (Some p1Data, Some p2Data) \<Rightarrow>
           if boxesHit (hurtboxes p1Data) (hitboxes p2Data)
                (worldX (Fighter.x (p1 s))) p1FacingLeft
                (worldX (Fighter.x (p2 s))) p2FacingLeft
           then s\<lparr>p1 := (p1 s)\<lparr>hp := max 0 (hp (p1 s) - 1)\<rparr>\<rparr>
           else s
       | _ \<Rightarrow> s)
     else s)"

text \<open>
  \<open>step\<close> mutates the state and ticks both VMs; the model returns the new state and
  the two VM scopes. P1 is advanced first, then P2.
\<close>
definition step ::
  "'v tick \<Rightarrow> CollisionData \<Rightarrow> State \<Rightarrow> nat \<Rightarrow> nat \<Rightarrow> 'v \<Rightarrow> 'v \<Rightarrow> State \<times> 'v \<times> 'v" where
  "step tk cd s in1 in2 vm1 vm2 =
    (let p1FacingLeft = Fighter.x (p1 s) > Fighter.x (p2 s);
         p2FacingLeft = Fighter.x (p1 s) < Fighter.x (p2 s);
         nextFrame = frame s + 1;
         (cmds1, vm1') = tk vm1 nextFrame in1;
         s = s\<lparr>p1 := movePlayer cmds1 (p1 s)\<rparr>;
         (cmds2, vm2') = tk vm2 nextFrame in2;
         s = s\<lparr>p2 := movePlayer cmds2 (p2 s)\<rparr>;
         s = pushback cd p1FacingLeft p2FacingLeft s;
         s = hitP1onP2 cd p1FacingLeft p2FacingLeft s;
         s = hitP2onP1 cd p1FacingLeft p2FacingLeft s;
         s = s\<lparr>frame := and_ffff (int (frame s) + 1)\<rparr>
     in (s, vm1', vm2'))"

subsection \<open>The earlier revision of the step\<close>

text \<open>
  The first revision of rollback.ts in the source file: a walk speed of 2.5, only the
  \<open>move\<close> and \<open>anim\<close> commands, a fallback to the input mask when the VM returns no
  command, and no collision handling.
\<close>
definition walk_v1 :: int where
  "walk_v1 = FP_from (5 / 2)"

fun applyCmd_v1 :: "int \<times> Fighter \<Rightarrow> Cmd \<Rightarrow> int \<times> Fighter" where
  "applyCmd_v1 (v, f) (Move dx) =
    ((if dx > 0 then walk_v1 else if dx < 0 then - walk_v1 else 0), f)"
| "applyCmd_v1 (v, f) (Anim name) = (v, f\<lparr>anim := hashStr name\<rparr>)"
| "applyCmd_v1 (v, f) c = (v, f)"

definition movePlayer_v1 :: "Cmd list \<Rightarrow> nat \<Rightarrow> Fighter \<Rightarrow> Fighter" where
  "movePlayer_v1 cmds inp f =
    (case foldl applyCmd_v1 (vx f, f) cmds of
      (v, f') \<Rightarrow>
        (let v = (if length cmds = 0
                  then (if inp AND 4 \<noteq> 0 then - walk_v1
                        else if inp AND 8 \<noteq> 0 then walk_v1
                        else 0)
                  else v)
         in f'\<lparr>vx := v, x := toInt32 (Fighter.x f' + v)\<rparr>))"

definition step_v1 ::
  "'v tick \<Rightarrow> State \<Rightarrow> nat \<Rightarrow> nat \<Rightarrow> 'v \<Rightarrow> 'v \<Rightarrow> State \<times> 'v \<times> 'v" where
  "step_v1 tk s in1 in2 vm1 vm2 =
    (let nextFrame = frame s + 1;
         (cmds1, vm1') = tk vm1 nextFrame in1;
         s = s\<lparr>p1 := movePlayer_v1 cmds1 in1 (p1 s)\<rparr>;
         (cmds2, vm2') = tk vm2 nextFrame in2;
         s = s\<lparr>p2 := movePlayer_v1 cmds2 in2 (p2 s)\<rparr>;
         s = s\<lparr>frame := and_ffff (int (frame s) + 1)\<rparr>
     in (s, vm1', vm2'))"

text \<open>A VM whose script returns no command, and the script of the mirror-walk scenario.\<close>
definition silentTick :: "unit tick" where
  "silentTick v f m = ([], v)"

definition mirrorTick :: "unit tick" where
  "mirrorTick v f m =
    ([Move (if m AND 8 \<noteq> 0 then 1 else if m AND 4 \<noteq> 0 then - 1 else 0)], v)"

section \<open>Rollback engine (rollback.ts)\<close>

text \<open>
  A \<open>Uint16Array(65536)\<close>: every slot holds a number from its creation (zero), a read
  inside the range yields that number, a read outside yields undefined, and a write
  stores the value modulo \<open>2^16\<close>.
\<close>
type_synonym u16array = "nat \<Rightarrow> nat"

definition u16_new :: u16array where
  "u16_new = (\<lambda>_. 0)"

definition u16_get :: "u16array \<Rightarrow> nat \<Rightarrow> nat option" where
  "u16_get a i = (if i < 65536 then Some (a i) else None)"

definition u16_set :: "u16array \<Rightarrow> nat \<Rightarrow> nat \<Rightarrow> u16array" where
  "u16_set a i m = (if i < 65536 then a(i := m mod 65536) else a)"

text \<open>\<^verbatim>\<open>v ?? d\<close>: the left operand unless it is undefined.\<close>
definition nullish :: "'a option \<Rightarrow> 'a \<Rightarrow> 'a" where
  "nullish v d = (case v of Some n \<Rightarrow> n | None \<Rightarrow> d)"

datatype PlayerNumber = Player1 | Player2

datatype error = TypeError | RangeError | SyntaxError

text \<open>
  The engine. \<open>hist\<close> is \<^verbatim>\<open>new Array(64)\<close>: a slot is empty until it is written, and
  every index the code uses is a frame modulo 64. The record is generic in what a slot
  holds. Every state that enters or leaves the history passes through
  \<open>structuredClone\<close>, so the history shares no object with a working state; the engine
  is therefore modelled with the states themselves in the slots (\<open>'v Rollback\<close>).
  Where a claim is about the copies, the slots hold references into an object store
  (\<open>'v RollbackRef\<close>, further below).
\<close>
record ('v, 's) RollbackOf =
  hist :: "nat \<rightharpoonup> 's"
  in1 :: u16array
  in2 :: u16array
  latest :: nat
  vm1 :: 'v
  vm2 :: 'v
  localPlayerNumber :: PlayerNumber
  collisionData :: CollisionData

type_synonym 'v Rollback = "('v, State) RollbackOf"

definition histLen :: nat where
  "histLen = 64"

text \<open>
  The constructor. \<open>vmFactory\<close> is called twice and loads the same script into each
  VM; \<open>fresh\<close> is the scope of a VM it returns.
\<close>
definition Rollback_new :: "State \<Rightarrow> 'v \<Rightarrow> PlayerNumber \<Rightarrow> 'v Rollback" where
  "Rollback_new seedState fresh lpn =
    \<lparr>hist = [frame seedState mod histLen \<mapsto> seedState],
     in1 = u16_new, in2 = u16_new,
     latest = frame seedState,
     vm1 = fresh, vm2 = fresh,
     localPlayerNumber = lpn,
     collisionData = Map.empty\<rparr>"

definition setLocalInput :: "'v Rollback \<Rightarrow> nat \<Rightarrow> nat \<Rightarrow> 'v Rollback" where
  "setLocalInput rb f m =
    (if localPlayerNumber rb = Player1
     then rb\<lparr>in1 := u16_set (in1 rb) (and_ffff (int f)) m\<rparr>
     else rb\<lparr>in2 := u16_set (in2 rb) (and_ffff (int f)) m\<rparr>)"

definition setRemoteInput :: "'v Rollback \<Rightarrow> nat \<Rightarrow> nat \<Rightarrow> 'v Rollback" where
  "setRemoteInput rb f m =
    (if localPlayerNumber rb = Player1
     then rb\<lparr>in2 := u16_set (in2 rb) (and_ffff (int f)) m\<rparr>
     else rb\<lparr>in1 := u16_set (in1 rb) (and_ffff (int f)) m\<rparr>)"

text \<open>
  \<open>getLatest\<close> clones the slot of the latest frame; the callers read a field of the
  result, which throws a TypeError when the slot is empty.
\<close>
definition getLatest :: "'v Rollback \<Rightarrow> error + State" where
  "getLatest rb =
    (case hist rb (latest rb mod histLen) of None \<Rightarrow> Inl TypeError | Some s \<Rightarrow> Inr s)"

text \<open>The two input reads at the head of both loops.\<close>
definition input1 :: "('v, 's) RollbackOf \<Rightarrow> nat \<Rightarrow> nat" where
  "input1 rb next = nullish (u16_get (in1 rb) next) 0"

definition input2 :: "('v, 's) RollbackOf \<Rightarrow> nat \<Rightarrow> nat" where
  "input2 rb next =
    nullish (u16_get (in2 rb) next)
      (nullish (u16_get (in2 rb) (and_ffff (int next - 1))) 0)"

text \<open>The body of the loop of \<open>simulateTo\<close>: one step, committed as the latest frame.\<close>
definition simulateBody :: "'v tick \<Rightarrow> State \<Rightarrow> 'v Rollback \<Rightarrow> State \<times> 'v Rollback" where
  "simulateBody tk s rb =
    (let next = and_ffff (int (frame s) + 1);
         i1 = input1 rb next;
         i2 = input2 rb next;
         (s', vm1', vm2') = step tk (collisionData rb) s i1 i2 (vm1 rb) (vm2 rb);
         rb = rb\<lparr>vm1 := vm1', vm2 := vm2'\<rparr>;
         rb = rb\<lparr>latest := frame s'\<rparr>;
         rb = rb\<lparr>hist := (hist rb)(frame s' mod histLen \<mapsto> s')\<rparr>
     in (s', rb))"

text \<open>The body of the loop of \<open>rollbackFrom\<close>: the same, but \<open>latest\<close> is not written.\<close>
definition rollbackBody :: "'v tick \<Rightarrow> State \<Rightarrow> 'v Rollback \<Rightarrow> State \<times> 'v Rollback" where
  "rollbackBody tk s rb =
    (let next = and_ffff (int (frame s) + 1);
         i1 = input1 rb next;
         i2 = input2 rb next;
         (s', vm1', vm2') = step tk (collisionData rb) s i1 i2 (vm1 rb) (vm2 rb);
         rb = rb\<lparr>vm1 := vm1', vm2 := vm2'\<rparr>;
         rb = rb\<lparr>hist := (hist rb)(frame s' mod histLen \<mapsto> s')\<rparr>
     in (s', rb))"

text \<open>
  \<^verbatim>\<open>while (s.frame < target)\<close>. The frame of a stepped state is below \<open>2^16\<close>, so
  the loop does not end for a target above 65535: not returning is \<open>None\<close>.
\<close>
partial_function (option) simulateLoop ::
  "'v tick \<Rightarrow> nat \<Rightarrow> State \<Rightarrow> 'v Rollback \<Rightarrow> (State \<times> 'v Rollback) option" where
  "simulateLoop tk target s rb =
    (if frame s < target
     then (case simulateBody tk s rb of (s', rb') \<Rightarrow> simulateLoop tk target s' rb')
     else Some (s, rb))"

partial_function (option) rollbackLoop ::
  "'v tick \<Rightarrow> nat \<Rightarrow> State \<Rightarrow> 'v Rollback \<Rightarrow> (State \<times> 'v Rollback) option" where
  "rollbackLoop tk tgt s rb =
    (if frame s < tgt
     then (case rollbackBody tk s rb of (s', rb') \<Rightarrow> rollbackLoop tk tgt s' rb')
     else Some (s, rb))"

text \<open>
  \<open>simulateTo\<close> returns the working state; the engine after the call is the second
  component. An empty slot makes \<^verbatim>\<open>s.frame\<close> throw.
\<close>
definition simulateTo ::
  "'v tick \<Rightarrow> 'v Rollback \<Rightarrow> nat \<Rightarrow> (error + State \<times> 'v Rollback) option" where
  "simulateTo tk rb target =
    (case hist rb (latest rb mod histLen) of
      None \<Rightarrow> Some (Inl TypeError)
    | Some s \<Rightarrow> map_option Inr (simulateLoop tk target s rb))"

definition rollbackFrom ::
  "'v tick \<Rightarrow> 'v Rollback \<Rightarrow> nat \<Rightarrow> (error + 'v Rollback) option" where
  "rollbackFrom tk rb fr =
    (let resume = and_ffff (int fr - 1) in
     case hist rb (resume mod histLen) of
       None \<Rightarrow> Some (Inl TypeError)
     | Some s \<Rightarrow> map_option (\<lambda>(s', rb'). Inr rb') (rollbackLoop tk (latest rb) s rb))"

subsection \<open>Iterated loop bodies\<close>

text \<open>
  \<open>n\<close> passes of a loop body, the states they commit in order, and the history after
  committing a list of states. The loops are characterised by these below.
\<close>
primrec iterBody :: "(State \<Rightarrow> 'r \<Rightarrow> State \<times> 'r) \<Rightarrow> nat \<Rightarrow> State \<Rightarrow> 'r \<Rightarrow> State \<times> 'r" where
  "iterBody body 0 s rb = (s, rb)"
| "iterBody body (Suc n) s rb = (case body s rb of (s', rb') \<Rightarrow> iterBody body n s' rb')"

primrec trajStates :: "(State \<Rightarrow> 'r \<Rightarrow> State \<times> 'r) \<Rightarrow> nat \<Rightarrow> State \<Rightarrow> 'r \<Rightarrow> State list" where
  "trajStates body 0 s rb = []"
| "trajStates body (Suc n) s rb =
    (case body s rb of (s', rb') \<Rightarrow> s' # trajStates body n s' rb')"

definition commit :: "(nat \<rightharpoonup> State) \<Rightarrow> State \<Rightarrow> (nat \<rightharpoonup> State)" where
  "commit h s = h(frame s mod histLen \<mapsto> s)"

text \<open>A script whose commands are a function of the frame and the input mask alone.\<close>
definition scopeFree :: "'v tick \<Rightarrow> bool" where
  "scopeFree tk = (\<forall>v v' fr m. fst (tk v fr m) = fst (tk v' fr m))"

subsection \<open>The engine over a store of objects\<close>

text \<open>
  A \<open>State\<close> is an object that refers to two \<open>Fighter\<close> objects, and every other field
  is a number, a boolean or a string. To speak of copies and of mutation the objects are
  placed in a store: a state object is its frame and the addresses of its two fighters.
  New objects are allocated at \<open>nextFree\<close>.
\<close>
type_synonym addr = nat

record Heap =
  stateObjs :: "addr \<Rightarrow> nat \<times> addr \<times> addr"
  fighterObjs :: "addr \<Rightarrow> Fighter"
  nextFree :: addr

text \<open>An engine whose history slots hold references to state objects.\<close>
type_synonym 'v RollbackRef = "('v, addr) RollbackOf"

text \<open>The value of the state object at an address.\<close>
definition deref :: "Heap \<Rightarrow> addr \<Rightarrow> State" where
  "deref h a =
    (case stateObjs h a of
      (fr, r1, r2) \<Rightarrow> \<lparr>frame = fr, p1 = fighterObjs h r1, p2 = fighterObjs h r2\<rparr>)"

text \<open>
  \<open>structuredClone(s)\<close>: new objects with the contents of the old ones. The copy has
  the shape of the original: one fighter object where the original refers to the same
  fighter twice, two otherwise.
\<close>
definition structuredClone :: "Heap \<Rightarrow> addr \<Rightarrow> addr \<times> Heap" where
  "structuredClone h a =
    (case stateObjs h a of
      (fr, r1, r2) \<Rightarrow>
        (let a1 = nextFree h;
             a2 = (if r2 = r1 then a1 else nextFree h + 1);
             a3 = nextFree h + 2
         in (a3, h\<lparr>fighterObjs := (fighterObjs h)(a1 := fighterObjs h r1, a2 := fighterObjs h r2),
                   stateObjs := (stateObjs h)(a3 := (fr, a1, a2)),
                   nextFree := nextFree h + 3\<rparr>)))"

text \<open>
  Assignments to the fields of the state object at an address and to the fields of its
  two fighters, after which it has the value \<open>s\<close>; the references are kept.
\<close>
definition mutate :: "Heap \<Rightarrow> addr \<Rightarrow> State \<Rightarrow> Heap" where
  "mutate h a s =
    (case stateObjs h a of
      (fr, r1, r2) \<Rightarrow>
        h\<lparr>fighterObjs := (fighterObjs h)(r1 := p1 s, r2 := p2 s),
          stateObjs := (stateObjs h)(a := (frame s, r1, r2))\<rparr>)"

text \<open>
  \<open>step\<close> writes its result into the state object it is given; this is \<open>step\<close> on
  values for a state object with two distinct fighters.
\<close>
definition stepRef ::
  "'v tick \<Rightarrow> CollisionData \<Rightarrow> Heap \<Rightarrow> addr \<Rightarrow> nat \<Rightarrow> nat \<Rightarrow> 'v \<Rightarrow> 'v \<Rightarrow> Heap \<times> 'v \<times> 'v" where
  "stepRef tk cd h sa i1 i2 v1 v2 =
    (case step tk cd (deref h sa) i1 i2 v1 v2 of
      (s', v1', v2') \<Rightarrow> (mutate h sa s', v1', v2'))"

text \<open>The constructor stores a copy of the seed.\<close>
definition RollbackRef_new :: "Heap \<Rightarrow> addr \<Rightarrow> 'v \<Rightarrow> PlayerNumber \<Rightarrow> Heap \<times> 'v RollbackRef" where
  "RollbackRef_new h seedState fresh lpn =
    (case structuredClone h seedState of
      (c, h') \<Rightarrow>
        (h', \<lparr>hist = [frame (deref h seedState) mod histLen \<mapsto> c],
              in1 = u16_new, in2 = u16_new,
              latest = frame (deref h seedState),
              vm1 = fresh, vm2 = fresh,
              localPlayerNumber = lpn,
              collisionData = Map.empty\<rparr>))"

text \<open>The body of the loop of \<open>simulateTo\<close>: the slot receives a copy of the working state.\<close>
definition simulateBodyRef ::
  "'v tick \<Rightarrow> addr \<Rightarrow> Heap \<Rightarrow> 'v RollbackRef \<Rightarrow> Heap \<times> 'v RollbackRef" where
  "simulateBodyRef tk sa h er =
    (let next = and_ffff (int (frame (deref h sa)) + 1);
         i1 = input1 er next;
         i2 = input2 er next;
         (h, vm1', vm2') = stepRef tk (collisionData er) h sa i1 i2 (vm1 er) (vm2 er);
         er = er\<lparr>vm1 := vm1', vm2 := vm2'\<rparr>;
         er = er\<lparr>latest := frame (deref h sa)\<rparr>;
         slot = frame (deref h sa) mod histLen;
         (c, h) = structuredClone h sa;
         er = er\<lparr>hist := (hist er)(slot \<mapsto> c)\<rparr>
     in (h, er))"

partial_function (option) simulateLoopRef ::
  "'v tick \<Rightarrow> nat \<Rightarrow> addr \<Rightarrow> Heap \<Rightarrow> 'v RollbackRef \<Rightarrow> (Heap \<times> 'v RollbackRef) option" where
  "simulateLoopRef tk target sa h er =
    (if frame (deref h sa) < target
     then (case simulateBodyRef tk sa h er of (h', er') \<Rightarrow> simulateLoopRef tk target sa h' er')
     else Some (h, er))"

text \<open>
  \<open>simulateTo\<close>: the working state is a copy of the slot of the latest frame, and the
  reference to it is what is returned.
\<close>
definition simulateToRef ::
  "'v tick \<Rightarrow> Heap \<Rightarrow> 'v RollbackRef \<Rightarrow> nat \<Rightarrow> (error + addr \<times> Heap \<times> 'v RollbackRef) option" where
  "simulateToRef tk h er target =
    (case hist er (latest er mod histLen) of
      None \<Rightarrow> Some (Inl TypeError)
    | Some a \<Rightarrow>
        (case structuredClone h a of
          (sa, h1) \<Rightarrow>
            map_option (\<lambda>(h', er'). Inr (sa, h', er')) (simulateLoopRef tk target sa h1 er)))"

text \<open>The engine by value that an engine of references stands for.\<close>
definition engineOf :: "Heap \<Rightarrow> 'v RollbackRef \<Rightarrow> 'v Rollback" where
  "engineOf h er =
    \<lparr>hist = (\<lambda>i. map_option (deref h) (hist er i)),
     in1 = in1 er, in2 = in2 er, latest = latest er, vm1 = vm1 er, vm2 = vm2 er,
     localPlayerNumber = localPlayerNumber er, collisionData = collisionData er\<rparr>"

text \<open>Every object of a committed snapshot lies below the allocation pointer.\<close>
definition committedBelow :: "Heap \<Rightarrow> 'v RollbackRef \<Rightarrow> bool" where
  "committedBelow h er =
    (\<forall>i b. hist er i = Some b \<longrightarrow>
       b < nextFree h \<and> fst (snd (stateObjs h b)) < nextFree h \<and>
       snd (snd (stateObjs h b)) < nextFree h)"

text \<open>
  The working state is an allocated object with two fighters of its own, which no
  committed snapshot shares.
\<close>
definition workingApart :: "Heap \<Rightarrow> addr \<Rightarrow> 'v RollbackRef \<Rightarrow> bool" where
  "workingApart h sa er =
    (case stateObjs h sa of
      (fr, r1, r2) \<Rightarrow>
        r1 \<noteq> r2 \<and> sa < nextFree h \<and> r1 < nextFree h \<and> r2 < nextFree h \<and>
        (\<forall>i b. hist er i = Some b \<longrightarrow>
           b \<noteq> sa \<and> fst (snd (stateObjs h b)) \<noteq> r1 \<and> fst (snd (stateObjs h b)) \<noteq> r2 \<and>
           snd (snd (stateObjs h b)) \<noteq> r1 \<and> snd (snd (stateObjs h b)) \<noteq> r2))"

text \<open>A store that holds the seed state at address 2.\<close>
definition seedHeap :: Heap where
  "seedHeap =
    \<lparr>stateObjs = (\<lambda>_. (frame seed0, 0, 1)),
     fighterObjs = (\<lambda>a. if a = 0 then p1 seed0 else p2 seed0),
     nextFree = 3\<rparr>"

section \<open>Wire codecs (protocol.ts)\<close>

text \<open>
  An \<open>ArrayBuffer\<close> is a list of bytes. A \<open>DataView\<close> write stores the value modulo the
  width of the field; a \<open>DataView\<close> read outside the buffer throws a RangeError. All
  multi-byte fields are little-endian.
\<close>
type_synonym byte = "8 word"

definition setUint8 :: "nat \<Rightarrow> byte list" where
  "setUint8 v = [word_of_nat v]"

definition setUint16 :: "nat \<Rightarrow> byte list" where
  "setUint16 v = [word_of_nat v, word_of_nat (v div 256)]"

definition setUint32 :: "nat \<Rightarrow> byte list" where
  "setUint32 v =
    [word_of_nat v, word_of_nat (v div 256), word_of_nat (v div 65536),
     word_of_nat (v div 16777216)]"

definition getUint8 :: "byte list \<Rightarrow> nat \<Rightarrow> error + nat" where
  "getUint8 buf off = (if off + 1 \<le> length buf then Inr (unat (buf ! off)) else Inl RangeError)"

definition getUint16 :: "byte list \<Rightarrow> nat \<Rightarrow> error + nat" where
  "getUint16 buf off =
    (if off + 2 \<le> length buf
     then Inr (unat (buf ! off) + 256 * unat (buf ! (off + 1)))
     else Inl RangeError)"

definition getUint32 :: "byte list \<Rightarrow> nat \<Rightarrow> error + nat" where
  "getUint32 buf off =
    (if off + 4 \<le> length buf
     then Inr (unat (buf ! off) + 256 * unat (buf ! (off + 1)) +
               65536 * unat (buf ! (off + 2)) + 16777216 * unat (buf ! (off + 3)))
     else Inl RangeError)"

text \<open>\<^verbatim>\<open>u.subarray(b, e)\<close>: both ends are clamped to the array.\<close>
definition subarray :: "byte list \<Rightarrow> nat \<Rightarrow> nat \<Rightarrow> byte list" where
  "subarray u b e = take (e - b) (drop b u)"

text \<open>
  \<open>TextEncoder\<close> and \<open>TextDecoder\<close> belong to the platform; they are modelled after
  the Encoding Standard. \<open>new TextEncoder().encode(str)\<close> first reads the string as
  Unicode scalar values: a lead surrogate followed by a trail surrogate is one scalar
  value, and any other surrogate is read as U+FFFD.
\<close>
definition isLeadSurrogate :: "16 word \<Rightarrow> bool" where
  "isLeadSurrogate c = (0xD800 \<le> unat c \<and> unat c \<le> 0xDBFF)"

definition isTrailSurrogate :: "16 word \<Rightarrow> bool" where
  "isTrailSurrogate c = (0xDC00 \<le> unat c \<and> unat c \<le> 0xDFFF)"

definition unitScalar :: "16 word \<Rightarrow> nat" where
  "unitScalar c = (if isLeadSurrogate c \<or> isTrailSurrogate c then 0xFFFD else unat c)"

fun toScalars :: "jsstring \<Rightarrow> nat list" where
  "toScalars [] = []"
| "toScalars [c] = [unitScalar c]"
| "toScalars (c # d # rest) =
    (if isLeadSurrogate c \<and> isTrailSurrogate d
     then (0x10000 + (unat c - 0xD800) * 1024 + (unat d - 0xDC00)) # toScalars rest
     else unitScalar c # toScalars (d # rest))"

text \<open>The byte \<open>v mod 256\<close>.\<close>
definition toByte :: "nat \<Rightarrow> byte" where
  "toByte v = word_of_nat v"

text \<open>The UTF-8 encoder: one to four bytes for a scalar value.\<close>
definition utf8_bytes :: "nat \<Rightarrow> byte list" where
  "utf8_bytes c =
    (if c < 0x80 then [toByte c]
     else if c < 0x800 then [toByte (0xC0 + c div 64), toByte (0x80 + c mod 64)]
     else if c < 0x10000 then
       [toByte (0xE0 + c div 4096), toByte (0x80 + c div 64 mod 64), toByte (0x80 + c mod 64)]
     else
       [toByte (0xF0 + c div 262144), toByte (0x80 + c div 4096 mod 64),
        toByte (0x80 + c div 64 mod 64), toByte (0x80 + c mod 64)])"

definition utf8_encode :: "jsstring \<Rightarrow> byte list" where
  "utf8_encode str = concat (map utf8_bytes (toScalars str))"

text \<open>
  The UTF-8 decoder of the Encoding Standard, with the replacement error mode that
  \<open>new TextDecoder()\<close> has. Between sequences the decoder is \<open>Idle\<close>; inside one it
  holds the code point so far, the bytes needed, the bytes seen and the lower and upper
  boundary for the next byte. \<open>utf8_lead\<close> handles a byte met when no bytes are needed:
  it yields what is emitted and the next state. A byte outside the boundaries ends the
  sequence with U+FFFD and is handled again as a first byte; the end of the input inside
  a sequence yields U+FFFD.
\<close>
datatype Utf8State = Idle | Pending nat nat nat nat nat

definition utf8_lead :: "nat \<Rightarrow> nat list \<times> Utf8State" where
  "utf8_lead v =
    (if v \<le> 0x7F then ([v], Idle)
     else if 0xC2 \<le> v \<and> v \<le> 0xDF then ([], Pending (v mod 32) 1 0 0x80 0xBF)
     else if 0xE0 \<le> v \<and> v \<le> 0xEF then
       ([], Pending (v mod 16) 2 0 (if v = 0xE0 then 0xA0 else 0x80)
              (if v = 0xED then 0x9F else 0xBF))
     else if 0xF0 \<le> v \<and> v \<le> 0xF4 then
       ([], Pending (v mod 8) 3 0 (if v = 0xF0 then 0x90 else 0x80)
              (if v = 0xF4 then 0x8F else 0xBF))
     else ([0xFFFD], Idle))"

fun utf8_run :: "Utf8State \<Rightarrow> byte list \<Rightarrow> nat list" where
  "utf8_run Idle [] = []"
| "utf8_run (Pending cp need seen lo up) [] = [0xFFFD]"
| "utf8_run Idle (b # bs) = (case utf8_lead (unat b) of (out, st) \<Rightarrow> out @ utf8_run st bs)"
| "utf8_run (Pending cp need seen lo up) (b # bs) =
    (let v = unat b
     in if v < lo \<or> up < v
        then 0xFFFD # (case utf8_lead v of (out, st) \<Rightarrow> out @ utf8_run st bs)
        else (let cp = cp * 64 + v mod 64; seen = seen + 1
              in if seen \<noteq> need then utf8_run (Pending cp need seen 0x80 0xBF) bs
                 else cp # utf8_run Idle bs))"

text \<open>\<open>new TextDecoder()\<close> does not ignore the byte-order mark: a leading U+FEFF is dropped.\<close>
definition stripBOM :: "nat list \<Rightarrow> nat list" where
  "stripBOM cs = (case cs of [] \<Rightarrow> [] | c # rest \<Rightarrow> if c = 0xFEFF then rest else cs)"

text \<open>The code units of a code point: itself, or a surrogate pair from U+10000 on.\<close>
definition fromScalar :: "nat \<Rightarrow> jsstring" where
  "fromScalar c =
    (if c < 0x10000 then [word_of_nat c]
     else [word_of_nat (0xD800 + (c - 0x10000) div 1024),
           word_of_nat (0xDC00 + (c - 0x10000) mod 1024)])"

definition utf8_decode :: "byte list \<Rightarrow> jsstring" where
  "utf8_decode bs = concat (map fromScalar (stripBOM (utf8_run Idle bs)))"

text \<open>\<open>str.isWellFormed()\<close>: the string has no surrogate outside a pair.\<close>
fun wellFormed :: "jsstring \<Rightarrow> bool" where
  "wellFormed [] = True"
| "wellFormed [c] = (\<not> isLeadSurrogate c \<and> \<not> isTrailSurrogate c)"
| "wellFormed (c # d # rest) =
    (if isLeadSurrogate c then isTrailSurrogate d \<and> wellFormed rest
     else \<not> isTrailSurrogate c \<and> wellFormed (d # rest))"

text \<open>A Unicode scalar value.\<close>
definition isScalar :: "nat \<Rightarrow> bool" where
  "isScalar c = (c < 0x110000 \<and> \<not> (0xD800 \<le> c \<and> c \<le> 0xDFFF))"

text \<open>
  The opcodes of \<open>MSG\<close>. The revision of protocol.ts in the sources has no
  \<open>GameStart\<close>, which main.ts uses.
\<close>
definition MSG_Manifest :: nat where "MSG_Manifest = 0x01"
definition MSG_NeedChunks :: nat where "MSG_NeedChunks = 0x02"
definition MSG_Chunk :: nat where "MSG_Chunk = 0x03"
definition MSG_ScriptPush :: nat where "MSG_ScriptPush = 0x20"
definition MSG_ScriptAck :: nat where "MSG_ScriptAck = 0x21"
definition MSG_Input :: nat where "MSG_Input = 0x10"
definition MSG_StateHash :: nat where "MSG_StateHash = 0x11"

text \<open>
  Modelled from the spec: the opcode \<open>MSG.GameStart\<close> and \<open>encGameStart\<close> are used by
  main.ts but are missing from the protocol.ts in the sources; the specification gives
  the opcode \<open>0x22\<close> and no payload.
\<close>
definition MSG_GameStart :: nat where "MSG_GameStart = 0x22"

definition encGameStart :: "byte list" where
  "encGameStart = setUint8 MSG_GameStart"

datatype AssetType = Mesh | Sprite











record ScriptPushMsg =
  script_name :: jsstring
  script_bytes :: "byte list"

definition encScriptPush :: "jsstring \<Rightarrow> byte list \<Rightarrow> byte list" where
  "encScriptPush name bytes =
    (let un = utf8_encode name
     in setUint8 MSG_ScriptPush @ setUint8 (length un) @ un @ setUint32 (length bytes) @ bytes)"

definition decScriptPush :: "byte list \<Rightarrow> error + ScriptPushMsg" where
  "decScriptPush buf =
    (case getUint8 buf 1 of
      Inl e \<Rightarrow> Inl e
    | Inr nl \<Rightarrow>
        (case getUint32 buf (2 + nl) of
          Inl e \<Rightarrow> Inl e
        | Inr len \<Rightarrow>
            Inr \<lparr>script_name = utf8_decode (subarray buf 2 (2 + nl)),
                 script_bytes = subarray buf (6 + nl) (6 + nl + len)\<rparr>))"

record InputMsg =
  input_frame :: nat
  input_mask :: nat
  input_ack :: nat

definition encInput :: "nat \<Rightarrow> nat \<Rightarrow> nat \<Rightarrow> byte list" where
  "encInput fr m ack =
    setUint8 MSG_Input @ setUint16 (and_ffff (int fr)) @ setUint16 (and_ffff (int m)) @
    setUint16 (and_ffff (int ack))"

definition decInput :: "byte list \<Rightarrow> error + InputMsg" where
  "decInput buf =
    (case (getUint16 buf 1, getUint16 buf 3, getUint16 buf 5) of
      (Inr f, Inr m, Inr a) \<Rightarrow> Inr \<lparr>input_frame = f, input_mask = m, input_ack = a\<rparr>
    | _ \<Rightarrow> Inl RangeError)"


definition encStateHash :: "nat \<Rightarrow> int \<Rightarrow> byte list" where
  "encStateHash fr h =
    setUint8 MSG_StateHash @ setUint16 (and_ffff (int fr)) @ setUint32 (nat (toUint32 h))"


section \<open>Orchestrator (main.ts)\<close>

text \<open>
  What main.ts needs from the global VM and the VM factory, all provided by the
  WebAssembly module: whether a source compiles (\<open>loadSource\<close>), the error text
  \<open>getLastError\<close> returns after a failed load of a source, the scope of a VM that
  \<open>vmFactory\<close> creates for a source, and the tick.
\<close>
record 'v VMApi =
  loadSource :: "jsstring \<Rightarrow> bool"
  getLastError :: "jsstring \<Rightarrow> jsstring"
  freshVM :: "jsstring \<Rightarrow> 'v"
  vmTick :: "'v tick"

text \<open>
  The text of the status element. The once-a-second pulse formats three numbers
  (frame, mask and \<open>p1.x\<close>); they are kept as numbers.
\<close>
datatype StatusText = Status jsstring | StatusPulse nat nat int

text \<open>
  The module-level variables of main.ts that the script, game-start, live-channel and
  loop code read or write. A data channel is represented by whether it is open and by
  the messages sent on it; the viewer by the last state applied to it. \<open>lastNow\<close> is
  the variable \<open>last\<close>. Times are exact rationals.
\<close>
record 'v Orch =
  vmSrc :: jsstring
  playerRole :: "PlayerNumber option"
  gameStarted :: bool
  hasAssetsLoaded :: bool
  hasScriptLoaded :: bool
  statusText :: StatusText
  rb :: "'v Rollback"
  lastRemoteAck :: nat
  lastSentLocalFrame :: nat
  acc :: rat
  lastNow :: rat
  assetsOpen :: bool
  assetsSent :: "byte list list"
  liveOpen :: bool
  liveSent :: "byte list list"
  viewerApplied :: "(int \<times> int \<times> int \<times> int) option"

definition makeRollback :: "'v VMApi \<Rightarrow> 'v Orch \<Rightarrow> 'v Rollback" where
  "makeRollback api oc =
    Rollback_new seed0 (freshVM api (vmSrc oc))
      (case playerRole oc of None \<Rightarrow> Player1 | Some r \<Rightarrow> r)"

definition resetRollbackWithScript :: "'v VMApi \<Rightarrow> 'v Orch \<Rightarrow> 'v Orch" where
  "resetRollbackWithScript api oc = oc\<lparr>rb := makeRollback api oc\<rparr>"

text \<open>The branch of the assets-channel handler that its first byte selects.\<close>
datatype AssetsBranch =
  ManifestBranch | NeedChunksBranch | ChunkBranch | ScriptPushBranch | GameStartBranch | NoBranch

definition assetsBranch :: "byte list \<Rightarrow> AssetsBranch" where
  "assetsBranch buf =
    (case buf of
      [] \<Rightarrow> NoBranch
    | b # _ \<Rightarrow>
        (let type = unat b
         in if type = MSG_Manifest then ManifestBranch
            else if type = MSG_NeedChunks then NeedChunksBranch
            else if type = MSG_Chunk then ChunkBranch
            else if type = MSG_ScriptPush then ScriptPushBranch
            else if type = MSG_GameStart then GameStartBranch
            else NoBranch))"

text \<open>The \<open>ScriptPush\<close> branch of the assets-channel handler.\<close>
definition assets_onScriptPush :: "'v VMApi \<Rightarrow> byte list \<Rightarrow> 'v Orch \<Rightarrow> error + 'v Orch" where
  "assets_onScriptPush api buf oc =
    (case decScriptPush buf of
      Inl e \<Rightarrow> Inl e
    | Inr msg \<Rightarrow>
        (let name = script_name msg;
             src = utf8_decode (script_bytes msg);
             oc = oc\<lparr>vmSrc := src\<rparr>;
             ok = loadSource api (vmSrc oc);
             oc = resetRollbackWithScript api oc;
             oc = (if ok then oc\<lparr>statusText := Status (lit ''script applied: '' @ name)\<rparr>
                  else (let err = getLastError api (vmSrc oc)
                        in oc\<lparr>statusText :=
                             Status (if err \<noteq> [] then lit ''script compile error: '' @ err
                                     else lit ''script compile error: '' @ name)\<rparr>));
             oc = oc\<lparr>hasScriptLoaded := ok\<rparr>
         in Inr oc))"

text \<open>The \<open>GameStart\<close> branch of the assets-channel handler.\<close>
definition assets_onGameStart :: "'v Orch \<Rightarrow> 'v Orch" where
  "assets_onGameStart oc = oc\<lparr>gameStarted := True, statusText := Status (lit ''game start (remote)'')\<rparr>"

text \<open>\<open>btnRunLocal.onclick\<close>; \<open>txt\<close> is the content of the script text area.\<close>
definition btnRunLocal_onclick :: "'v VMApi \<Rightarrow> jsstring \<Rightarrow> 'v Orch \<Rightarrow> 'v Orch" where
  "btnRunLocal_onclick api txt oc =
    (let oc = oc\<lparr>vmSrc := txt\<rparr>;
         ok = loadSource api (vmSrc oc);
         oc = resetRollbackWithScript api oc;
         oc = (if ok then oc\<lparr>statusText := Status (lit ''script loaded (local)'')\<rparr>
              else (let err = getLastError api (vmSrc oc)
                    in if err \<noteq> []
                       then oc\<lparr>statusText := Status (lit ''script compile error: '' @ err)\<rparr>
                       else oc\<lparr>statusText := Status (lit ''script compile error'')\<rparr>));
         oc = oc\<lparr>hasScriptLoaded := ok\<rparr>
     in oc)"

text \<open>
  \<open>btnGameStart.onclick\<close> from the point where \<open>sendSelectedAsset\<close> has returned true
  (when it returns false the handler returns at once).
\<close>
definition btnGameStart_armed :: "'v VMApi \<Rightarrow> jsstring \<Rightarrow> 'v Orch \<Rightarrow> 'v Orch" where
  "btnGameStart_armed api txt oc =
    (let oc = oc\<lparr>vmSrc := txt\<rparr>;
         okScript = loadSource api (vmSrc oc);
         oc = resetRollbackWithScript api oc;
         oc = oc\<lparr>hasScriptLoaded := okScript\<rparr>;
         u = utf8_encode (vmSrc oc);
         oc = (if assetsOpen oc
              then oc\<lparr>assetsSent :=
                       assetsSent oc @ [encScriptPush (lit ''logic.rhai'') u, encGameStart],
                     statusText := Status (lit ''game start armed'')\<rparr>
              else oc\<lparr>statusText := Status (lit ''game start (local)'')\<rparr>);
         oc = oc\<lparr>gameStarted := True\<rparr>
     in oc)"

text \<open>The handler of the live channel.\<close>
definition live_onmessage :: "'v tick \<Rightarrow> byte list \<Rightarrow> 'v Orch \<Rightarrow> (error + 'v Orch) option" where
  "live_onmessage tk buf oc =
    (case buf of
      [] \<Rightarrow> Some (Inr oc)
    | t # _ \<Rightarrow>
        if unat t = MSG_Input then
          (case decInput buf of
            Inl e \<Rightarrow> Some (Inl e)
          | Inr msg \<Rightarrow>
              (let rb1 = setRemoteInput (rb oc) (input_frame msg) (input_mask msg)
               in case getLatest rb1 of
                    Inl e \<Rightarrow> Some (Inl e)
                  | Inr l \<Rightarrow>
                      if input_frame msg \<le> frame l then
                        (case rollbackFrom tk rb1 (input_frame msg) of
                          None \<Rightarrow> None
                        | Some (Inl e) \<Rightarrow> Some (Inl e)
                        | Some (Inr rb2) \<Rightarrow>
                            Some (Inr (oc\<lparr>rb := rb2, lastRemoteAck := input_ack msg\<rparr>)))
                      else Some (Inr (oc\<lparr>rb := rb1, lastRemoteAck := input_ack msg\<rparr>))))
        else Some (Inr oc))"

definition TICK :: rat where
  "TICK = 1 / 60"

definition sendInput :: "nat \<Rightarrow> nat \<Rightarrow> 'v Orch \<Rightarrow> error + 'v Orch" where
  "sendInput fr m oc =
    (if \<not> liveOpen oc then Inr oc
     else (case getLatest (rb oc) of
             Inl e \<Rightarrow> Inl e
           | Inr l \<Rightarrow>
               (let ack = and_ffff (int (frame l))
                in Inr (oc\<lparr>lastSentLocalFrame := fr,
                          liveSent := liveSent oc @ [encInput fr m ack]\<rparr>))))"

text \<open>The gate at the head of the loop body.\<close>
definition running :: "'v Orch \<Rightarrow> bool" where
  "running oc = (gameStarted oc \<and> hasAssetsLoaded oc \<and> hasScriptLoaded oc)"

text \<open>
  One pass of the body of \<^verbatim>\<open>while (acc >= TICK)\<close> below the gate, up to but not
  including \<^verbatim>\<open>acc -= TICK\<close>; \<open>local\<close> is what \<open>keys.snapshot()\<close> returns.
\<close>
definition loopIter :: "'v tick \<Rightarrow> nat \<Rightarrow> 'v Orch \<Rightarrow> (error + 'v Orch) option" where
  "loopIter tk local oc =
    (case getLatest (rb oc) of
      Inl e \<Rightarrow> Some (Inl e)
    | Inr l \<Rightarrow>
        (let next = and_ffff (int (frame l) + 1);
             oc = oc\<lparr>rb := setLocalInput (rb oc) next local\<rparr>
         in case (if liveOpen oc then sendInput next local oc else Inr oc) of
              Inl e \<Rightarrow> Some (Inl e)
            | Inr oc \<Rightarrow>
                (case simulateTo tk (rb oc) next of
                  None \<Rightarrow> None
                | Some (Inl e) \<Rightarrow> Some (Inl e)
                | Some (Inr (s, rb')) \<Rightarrow>
                    (let oc = oc\<lparr>rb := rb'\<rparr>;
                         oc = oc\<lparr>viewerApplied :=
                                 Some (Fighter.x (p1 s), Fighter.x (p2 s), anim (p1 s), anim (p2 s))\<rparr>;
                         oc = (if frame s AND 63 = 0
                              then oc\<lparr>statusText := StatusPulse (frame s) local (Fighter.x (p1 s))\<rparr>
                              else oc);
                         oc = (if frame s AND 15 = 0 \<and> liveOpen oc
                              then oc\<lparr>liveSent := liveSent oc @ [encStateHash (frame s) (hashState s)]\<rparr>
                              else oc)
                     in Some (Inr oc)))))"

text \<open>\<^verbatim>\<open>while (acc >= TICK)\<close> with the gate: a closed gate resets the accumulator and breaks.\<close>
function loopWhile :: "'v tick \<Rightarrow> nat \<Rightarrow> 'v Orch \<Rightarrow> (error + 'v Orch) option" where
  "loopWhile tk local oc =
    (if acc oc \<ge> TICK then
       (if \<not> running oc then Some (Inr (oc\<lparr>acc := 0\<rparr>))
        else (case loopIter tk local oc of
                None \<Rightarrow> None
              | Some (Inl e) \<Rightarrow> Some (Inl e)
              | Some (Inr oc') \<Rightarrow> loopWhile tk local (oc'\<lparr>acc := acc oc - TICK\<rparr>)))
     else Some (Inr oc))"
  by pat_completeness auto
termination
proof (relation "measure (\<lambda>(tk, local, oc). nat \<lfloor>acc oc * 60\<rfloor>)")
  show "wf (measure (\<lambda>(tk, local, oc). nat \<lfloor>acc oc * 60\<rfloor>))"
    by simp
next
  fix tk :: "'v tick" and local :: nat and oc :: "'v Orch" and x2 x2a and oc' :: "'v Orch"
  assume a: "TICK \<le> acc oc"
  have "\<lfloor>(acc oc - TICK) * 60\<rfloor> = \<lfloor>acc oc * 60\<rfloor> - 1"
    by (simp add: TICK_def algebra_simps)
  moreover have "1 \<le> \<lfloor>acc oc * 60\<rfloor>"
    using a by (simp add: TICK_def le_floor_iff)
  ultimately show "((tk, local, oc'\<lparr>acc := acc oc - TICK\<rparr>), tk, local, oc)
      \<in> measure (\<lambda>(tk, local, oc). nat \<lfloor>acc oc * 60\<rfloor>)"
    by simp
qed

text \<open>\<open>loop(now)\<close>, without the request for the next animation frame.\<close>
definition loop :: "'v tick \<Rightarrow> rat \<Rightarrow> nat \<Rightarrow> 'v Orch \<Rightarrow> (error + 'v Orch) option" where
  "loop tk now local oc =
    (let oc = oc\<lparr>acc := acc oc + (now - lastNow oc) / 1000\<rparr>;
         oc = oc\<lparr>lastNow := now\<rparr>
     in loopWhile tk local oc)"

text \<open>
  The module-level variables as main.ts initialises them; \<open>txt\<close> is the initial content
  of the script text area and \<open>t0\<close> the time of the first \<open>performance.now()\<close>.
\<close>
definition initOrch :: "'v VMApi \<Rightarrow> jsstring \<Rightarrow> rat \<Rightarrow> 'v Orch" where
  "initOrch api txt t0 =
    \<lparr>vmSrc = txt, playerRole = None,
     gameStarted = False, hasAssetsLoaded = False, hasScriptLoaded = False,
     statusText = Status [],
     rb = Rollback_new seed0 (freshVM api txt) Player1,
     lastRemoteAck = 0, lastSentLocalFrame = 0,
     acc = 0, lastNow = t0,
     assetsOpen = False, assetsSent = [],
     liveOpen = False, liveSent = [],
     viewerApplied = None\<rparr>"

text \<open>A VM interface for examples: every source compiles, and the VM has no scope.\<close>
definition mirrorApi :: "unit VMApi" where
  "mirrorApi =
    \<lparr>loadSource = (\<lambda>_. True), getLastError = (\<lambda>_. []), freshVM = (\<lambda>_. ()),
     vmTick = mirrorTick\<rparr>"

text \<open>
  A script with scope: the scope counts the ticks of its VM; the script walks right on
  the first tick and stops on every later one.
\<close>
definition firstTick :: "nat tick" where
  "firstTick n fr m = ([Move (if n = 0 then 1 else 0)], n + 1)"

text \<open>A script with scope that stands still for the first 64 ticks of its VM and then walks right.\<close>
definition lateTick :: "nat tick" where
  "lateTick n fr m = ([Move (if n < 64 then 0 else 1)], n + 1)"

text \<open>A VM interface for examples on which no source compiles.\<close>
definition failApi :: "unit VMApi" where
  "failApi =
    \<lparr>loadSource = (\<lambda>_. False), getLastError = (\<lambda>_. lit ''syntax error''), freshVM = (\<lambda>_. ()),
     vmTick = mirrorTick\<rparr>"

section \<open>Properties of the state hash\<close>

lemma hash32_word:
  "hash32 h v = uint (((word_of_int h :: 32 word) XOR word_of_int v) * 16777619)"
  by (simp add: hash32_def bxor_def imul_def toUint32_def Let_def)

lemma unat_xor32: "unat ((a :: 32 word) XOR b) = unat a XOR unat b"
  by (simp add: unsigned_xor_eq)

lemma unat_word_of_int_u32: "unat (word_of_int v :: 32 word) = u32 v"
  by (simp add: u32_def unat_eq_nat_uint uint_word_of_int)

lemma fnv_step_bound: "fnv_step h v < 4294967296"
  by (simp add: fnv_step_def)

lemma hash32_fnv:
  assumes "h < 4294967296"
  shows "hash32 (int h) v = int (fnv_step h (u32 v))"
proof -
  have a: "unat (word_of_nat h :: 32 word) = h"
    using assms by (simp add: unat_of_nat take_bit_nat_eq_self)
  have "hash32 (int h) v =
      int (unat (((word_of_nat h :: 32 word) XOR word_of_int v) * 16777619))"
    by (simp add: hash32_word)
  also have "\<dots> = int (fnv_step h (u32 v))"
    by (simp add: fnv_step_def unat_word_ariths unat_xor32 a unat_word_of_int_u32)
  finally show ?thesis .
qed

lemma u32_toInt32: "u32 (toInt32 v) = u32 v"
proof -
  have "unat (word_of_int (sint (word_of_int v :: 32 word)) :: 32 word) =
      unat (word_of_int v :: 32 word)"
    by simp
  then show ?thesis
    by (simp only: unat_word_of_int_u32 toInt32_def)
qed

lemma u32_flag: "u32 (if b then 1 else 0) = flag_word b"
  by (simp add: u32_def flag_word_def)

lemma toUint32_small: "h < 4294967296 \<Longrightarrow> toUint32 (int h) = int h"
  by (simp add: toUint32_def unsigned_of_nat take_bit_nat_eq_self)

lemma hashFighter_fnv:
  assumes "h < 4294967296"
  shows "hashFighter (int h) f =
    int (foldl fnv_step h
      [u32 (Fighter.x f), u32 (vx f), u32 (hp f), u32 (anim f),
       flag_word (hitboxActive f), flag_word (hurtboxActive f)])"
  using assms
  by (simp add: hashFighter_def Let_def hash32_fnv fnv_step_bound u32_toInt32 u32_flag)

lemma hashFighter_v1_fnv:
  assumes "h < 4294967296"
  shows "hashFighter_v1 (int h) f =
    int (foldl fnv_step h [u32 (Fighter.x f), u32 (vx f), u32 (hp f), u32 (anim f)])"
  using assms
  by (simp add: hashFighter_v1_def Let_def hash32_fnv fnv_step_bound u32_toInt32)

lemma fnv_seed_bound: "fnv_seed < 4294967296"
  by (simp add: fnv_seed_def)

lemma toUint32_seed: "toUint32 2166136261 = int fnv_seed"
  by (simp add: toUint32_def fnv_seed_def)

text \<open>
  The earlier revision of \<open>hashState\<close> is the nine-word hash of the specification.
\<close>
lemma hashState_v1_nine_words: "hashState_v1 s = int (spec_hash9 s)"
  by (simp add: hashState_v1_def spec_hash9_def spec_words9_def Let_def toUint32_seed
      hash32_fnv fnv_seed_bound hashFighter_v1_fnv fnv_step_bound toUint32_small)

text \<open>
  C3 (as amended). For every state, the current \<open>hashState\<close> is the FNV-1a-style hash
  with seed \<open>0x811C9DC5\<close> and step \<open>h = (h XOR v) * 0x01000193 mod 2^32\<close> over
  thirteen 32-bit words: the frame, and for each fighter \<open>x\<close>, \<open>vx\<close>, \<open>hp\<close> and
  \<open>anim\<close> (each reduced to its low 32 bits) followed by the two flags
  \<open>hitboxActive\<close> and \<open>hurtboxActive\<close> as 0 or 1. These words are every field of the
  state, so the hash depends on nothing else.
\<close>
theorem hashState_thirteen_words:
  "hashState s = int (foldl fnv_step fnv_seed (code_words13 s))"
  by (simp add: hashState_def code_words13_def Let_def toUint32_seed
      hash32_fnv fnv_seed_bound hashFighter_fnv fnv_step_bound toUint32_small)

text \<open>
  C3 as stated fails: at the seed state of main.ts the hash is not the nine-word hash,
  and switching one flag, which leaves all nine words alone, changes the hash.
\<close>
theorem hashState_nine_words_counterexample:
  "hashState seed0 \<noteq> int (spec_hash9 seed0) \<and>
   spec_words9 (seed0\<lparr>p1 := (p1 seed0)\<lparr>hitboxActive := True\<rparr>\<rparr>) = spec_words9 seed0 \<and>
   hashState (seed0\<lparr>p1 := (p1 seed0)\<lparr>hitboxActive := True\<rparr>\<rparr>) \<noteq> hashState seed0"
  by (simp add: hashState_def hashFighter_def hash32_word toUint32_def toInt32_def
      spec_hash9_def spec_words9_def fnv_step_def fnv_seed_def u32_def seed0_def Let_def)

section \<open>Properties of the simulation step\<close>

lemma walk_value: "walk = 16384"
  by (simp add: walk_def FP_from_def js_trunc_def toInt32_def)

lemma walk_v1_value: "walk_v1 = 163840"
  by (simp add: walk_v1_def FP_from_def js_trunc_def toInt32_def)










text \<open>
  The earlier revision had the fallback, with a walk speed of 163840 rather than 16384.
\<close>
lemma step_v1_fallback:
  "vx (p1 (fst (step_v1 silentTick seed0 4 8 () ()))) = - 163840 \<and>
   vx (p2 (fst (step_v1 silentTick seed0 4 8 () ()))) = 163840"
  by (simp add: step_v1_def movePlayer_v1_def silentTick_def seed0_def Let_def walk_v1_value)

section \<open>Properties of the rollback engine\<close>

subsection \<open>Frame arithmetic\<close>

lemma and_ffff_mod: "and_ffff f = nat (f mod 65536)"
proof -
  have "f AND 65535 = take_bit 16 f"
    by (simp add: take_bit_eq_mask mask_eq_exp_minus_1)
  then show ?thesis
    by (simp add: and_ffff_def take_bit_eq_mod)
qed

lemma and_ffff_less: "and_ffff f < 65536"
  by (simp add: and_ffff_mod nat_less_iff)

lemma and_ffff_succ: "n < 65535 \<Longrightarrow> and_ffff (int n + 1) = n + 1"
  by (simp add: and_ffff_mod nat_eq_iff)

lemma and_ffff_pred: "0 < n \<Longrightarrow> n \<le> 65536 \<Longrightarrow> and_ffff (int n - 1) = n - 1"
  by (simp add: and_ffff_mod nat_eq_iff)


subsection \<open>Input reads\<close>

lemma input1_read: "input1 e (and_ffff f) = in1 e (and_ffff f)"
  by (simp add: input1_def u16_get_def nullish_def and_ffff_less)

lemma input2_read: "input2 e (and_ffff f) = in2 e (and_ffff f)"
  by (simp add: input2_def u16_get_def nullish_def and_ffff_less)

subsection \<open>What a step leaves alone\<close>

lemma pushback_frame: "frame (pushback cd a b s) = frame s"
  by (simp add: pushback_def Let_def split: option.splits)

lemma hitP1onP2_frame: "frame (hitP1onP2 cd a b s) = frame s"
  by (simp add: hitP1onP2_def split: option.splits)

lemma hitP2onP1_frame: "frame (hitP2onP1 cd a b s) = frame s"
  by (simp add: hitP2onP1_def split: option.splits)

lemma step_frame: "frame (fst (step tk cd s i1 i2 v1 v2)) = and_ffff (int (frame s) + 1)"
  by (simp add: step_def Let_def split_beta pushback_frame hitP1onP2_frame hitP2onP1_frame)

lemma step_frame_less: "frame (fst (step tk cd s i1 i2 v1 v2)) < 65536"
  by (simp add: step_frame and_ffff_less)

subsection \<open>The loop bodies\<close>

lemma simulateBody_frame:
  "frame (fst (simulateBody tk s e)) = and_ffff (int (frame s) + 1)"
  by (simp add: simulateBody_def Let_def split_beta step_frame)

lemma rollbackBody_frame:
  "frame (fst (rollbackBody tk s e)) = and_ffff (int (frame s) + 1)"
  by (simp add: rollbackBody_def Let_def split_beta step_frame)

lemma simulateBody_rings:
  "in1 (snd (simulateBody tk s e)) = in1 e"
  "in2 (snd (simulateBody tk s e)) = in2 e"
  "localPlayerNumber (snd (simulateBody tk s e)) = localPlayerNumber e"
  "collisionData (snd (simulateBody tk s e)) = collisionData e"
  by (simp_all add: simulateBody_def Let_def split_beta)

lemma rollbackBody_rings:
  "in1 (snd (rollbackBody tk s e)) = in1 e"
  "in2 (snd (rollbackBody tk s e)) = in2 e"
  "localPlayerNumber (snd (rollbackBody tk s e)) = localPlayerNumber e"
  "collisionData (snd (rollbackBody tk s e)) = collisionData e"
  "latest (snd (rollbackBody tk s e)) = latest e"
  by (simp_all add: rollbackBody_def Let_def split_beta)

lemma simulateBody_latest:
  "latest (snd (simulateBody tk s e)) = frame (fst (simulateBody tk s e))"
  by (simp add: simulateBody_def Let_def split_beta)

lemma simulateBody_hist:
  "hist (snd (simulateBody tk s e)) = commit (hist e) (fst (simulateBody tk s e))"
  by (simp add: simulateBody_def Let_def split_beta commit_def)

lemma rollbackBody_hist:
  "hist (snd (rollbackBody tk s e)) = commit (hist e) (fst (rollbackBody tk s e))"
  by (simp add: rollbackBody_def Let_def split_beta commit_def)

subsection \<open>The loops return, and what they return\<close>

lemma simulateLoop_done:
  "\<not> frame s < target \<Longrightarrow> simulateLoop tk target s e = Some (s, e)"
  by (subst simulateLoop.simps) simp

lemma simulateLoop_step:
  "frame s < target \<Longrightarrow>
   simulateLoop tk target s e =
     simulateLoop tk target (fst (simulateBody tk s e)) (snd (simulateBody tk s e))"
  by (subst simulateLoop.simps) (simp add: split_beta)

lemma rollbackLoop_done:
  "\<not> frame s < tgt \<Longrightarrow> rollbackLoop tk tgt s e = Some (s, e)"
  by (subst rollbackLoop.simps) simp

lemma rollbackLoop_step:
  "frame s < tgt \<Longrightarrow>
   rollbackLoop tk tgt s e =
     rollbackLoop tk tgt (fst (rollbackBody tk s e)) (snd (rollbackBody tk s e))"
  by (subst rollbackLoop.simps) (simp add: split_beta)

lemma simulateLoop_iter:
  "frame s + n = target \<Longrightarrow> target \<le> 65535 \<Longrightarrow>
   simulateLoop tk target s e = Some (iterBody (simulateBody tk) n s e)"
proof (induction n arbitrary: s e)
  case 0
  then show ?case by (simp add: simulateLoop_done)
next
  case (Suc n)
  have lt: "frame s < target" using Suc.prems by simp
  have fr: "frame (fst (simulateBody tk s e)) = frame s + 1"
    using Suc.prems by (simp add: simulateBody_frame and_ffff_succ)
  have "simulateLoop tk target (fst (simulateBody tk s e)) (snd (simulateBody tk s e)) =
      Some (iterBody (simulateBody tk) n (fst (simulateBody tk s e)) (snd (simulateBody tk s e)))"
    using Suc.prems fr by (intro Suc.IH) simp_all
  then show ?case
    by (simp add: simulateLoop_step [OF lt] split_beta)
qed

lemma rollbackLoop_iter:
  "frame s + n = tgt \<Longrightarrow> tgt \<le> 65535 \<Longrightarrow>
   rollbackLoop tk tgt s e = Some (iterBody (rollbackBody tk) n s e)"
proof (induction n arbitrary: s e)
  case 0
  then show ?case by (simp add: rollbackLoop_done)
next
  case (Suc n)
  have lt: "frame s < tgt" using Suc.prems by simp
  have fr: "frame (fst (rollbackBody tk s e)) = frame s + 1"
    using Suc.prems by (simp add: rollbackBody_frame and_ffff_succ)
  have "rollbackLoop tk tgt (fst (rollbackBody tk s e)) (snd (rollbackBody tk s e)) =
      Some (iterBody (rollbackBody tk) n (fst (rollbackBody tk s e)) (snd (rollbackBody tk s e)))"
    using Suc.prems fr by (intro Suc.IH) simp_all
  then show ?case
    by (simp add: rollbackLoop_step [OF lt] split_beta)
qed

subsection \<open>A target that is not ahead of the latest frame\<close>

text \<open>
  When the slot of the latest frame holds the state of that frame (as it does after
  the constructor and after every \<open>simulateTo\<close>) and the target is not greater than the
  latest frame, \<open>simulateTo\<close> returns that state and the engine is what it was.
\<close>
lemma simulateTo_not_ahead:
  assumes "hist e (latest e mod histLen) = Some s0"
    and "frame s0 = latest e"
    and "target \<le> latest e"
  shows "simulateTo tk e target = Some (Inr (s0, e))"
  using assms by (simp add: simulateTo_def simulateLoop_done)

lemma simulateTo_not_ahead_example:
  "simulateTo mirrorTick (Rollback_new seed0 () Player1) 0 =
     Some (Inr (seed0, Rollback_new seed0 () Player1))"
  using simulateTo_not_ahead
    [where e = "Rollback_new seed0 () Player1" and ?s0.0 = seed0 and target = 0
       and tk = mirrorTick]
  by (simp add: Rollback_new_def seed0_def)

subsection \<open>The input used for a frame\<close>

lemma simulateBody_inputs:
  "simulateBody tk s e =
    (let next = and_ffff (int (frame s) + 1);
         (s', vm1', vm2') =
           step tk (collisionData e) s (in1 e next) (in2 e next) (vm1 e) (vm2 e);
         e = e\<lparr>vm1 := vm1', vm2 := vm2'\<rparr>;
         e = e\<lparr>latest := frame s'\<rparr>;
         e = e\<lparr>hist := (hist e)(frame s' mod histLen \<mapsto> s')\<rparr>
     in (s', e))"
  by (simp add: simulateBody_def Let_def input1_read input2_read)

lemma rollbackBody_inputs:
  "rollbackBody tk s e =
    (let next = and_ffff (int (frame s) + 1);
         (s', vm1', vm2') =
           step tk (collisionData e) s (in1 e next) (in2 e next) (vm1 e) (vm2 e);
         e = e\<lparr>vm1 := vm1', vm2 := vm2'\<rparr>;
         e = e\<lparr>hist := (hist e)(frame s' mod histLen \<mapsto> s')\<rparr>
     in (s', e))"
  by (simp add: rollbackBody_def Let_def input1_read input2_read)

lemma simulateTo_iter:
  assumes "hist e (latest e mod histLen) = Some s"
    and "frame s + n = target" and "target \<le> 65535"
  shows "simulateTo tk e target = Some (Inr (iterBody (simulateBody tk) n s e))"
  using assms by (simp add: simulateTo_def simulateLoop_iter)

lemma rollbackFrom_iter:
  assumes "hist e (and_ffff (int fr - 1) mod histLen) = Some s"
    and "frame s + n = latest e" and "latest e \<le> 65535"
  shows "rollbackFrom tk e fr = Some (Inr (snd (iterBody (rollbackBody tk) n s e)))"
  using assms by (simp add: rollbackFrom_def rollbackLoop_iter split_beta)

subsection \<open>Evaluating the engine on concrete runs\<close>

lemma step_empty_cd:
  "step tk Map.empty s i1 i2 v1 v2 =
    (let (cmds1, vm1') = tk v1 (frame s + 1) i1;
         (cmds2, vm2') = tk v2 (frame s + 1) i2
     in (s\<lparr>p1 := movePlayer cmds1 (p1 s), p2 := movePlayer cmds2 (p2 s),
           frame := and_ffff (int (frame s) + 1)\<rparr>, vm1', vm2'))"
  by (simp add: step_def Let_def split_beta pushback_def hitP1onP2_def hitP2onP1_def)

lemma toInt32_small: "- 2147483648 \<le> v \<Longrightarrow> v < 2147483648 \<Longrightarrow> toInt32 v = v"
  by (simp add: toInt32_def signed_take_bit_int_eq_self sint_sbintrunc')

lemma iterBody_1: "iterBody body 1 s e = body s e"
  by simp

lemma iterBody_2: "iterBody body 2 s e = (case body s e of (s', e') \<Rightarrow> body s' e')"
  by (simp add: numeral_2_eq_2 split_beta)

lemma mirrorTick_masks:
  "mirrorTick v f 8 = ([Move 1], v)"
  "mirrorTick v f 0 = ([Move 0], v)"
  "mirrorTick v f 4 = ([Move (- 1)], v)"
  by (simp_all add: mirrorTick_def)

lemmas run_simps =
  simulateBody_inputs rollbackBody_inputs step_empty_cd Let_def split_beta
  setRemoteInput_def setLocalInput_def Rollback_new_def seed0_def u16_set_def u16_new_def
  and_ffff_mod movePlayer_def walk_value toInt32_small histLen_def

text \<open>
  C2, evaluated on the code. A fresh engine (local player 1) receives the remote mask
  Right for frame 1 and nothing for frame 2, and is advanced to frame 2 under the
  mirror-walk script. The read for frame 2 yields 0, not the mask of frame 1: P2 walks
  in frame 1 and stands still in frame 2.
\<close>
theorem remote_input_not_predicted:
  "input2 (setRemoteInput (Rollback_new seed0 () Player1) 1 8) 1 = 8 \<and>
   input2 (setRemoteInput (Rollback_new seed0 () Player1) 1 8) 2 = 0 \<and>
   (\<exists>s e'. simulateTo mirrorTick (setRemoteInput (Rollback_new seed0 () Player1) 1 8) 2 =
        Some (Inr (s, e')) \<and>
      map_option (\<lambda>t. vx (p2 t)) (hist e' 1) = Some 16384 \<and>
      frame s = 2 \<and> vx (p2 s) = 0)"
proof -
  let ?e = "setRemoteInput (Rollback_new seed0 () Player1) 1 8"
  have i1: "input2 ?e 1 = 8" and i2: "input2 ?e 2 = 0"
    by (simp_all add: input2_def setRemoteInput_def Rollback_new_def u16_get_def u16_set_def
        u16_new_def nullish_def and_ffff_mod)
  have h: "hist ?e (latest ?e mod histLen) = Some seed0"
    by (simp add: setRemoteInput_def Rollback_new_def seed0_def)
  have l: "simulateTo mirrorTick ?e 2 = Some (Inr (iterBody (simulateBody mirrorTick) 2 seed0 ?e))"
    by (rule simulateTo_iter [OF h]) (simp_all add: seed0_def)
  define r where "r = iterBody (simulateBody mirrorTick) 2 seed0 ?e"
  have r1: "map_option (\<lambda>t. vx (p2 t)) (hist (snd r) 1) = Some 16384"
    unfolding r_def by (simp add: iterBody_2 run_simps mirrorTick_masks)
  have r2: "frame (fst r) = 2"
    unfolding r_def by (simp add: iterBody_2 run_simps mirrorTick_masks)
  have r3: "vx (p2 (fst r)) = 0"
    unfolding r_def by (simp add: iterBody_2 run_simps mirrorTick_masks)
  have "simulateTo mirrorTick ?e 2 = Some (Inr (fst r, snd r))"
    using l by (simp add: r_def)
  with r1 r2 r3 i1 i2 show ?thesis by blast
qed

section \<open>Properties of the orchestrator\<close>

lemma setLocalInput_keeps:
  "hist (setLocalInput e f m) = hist e"
  "latest (setLocalInput e f m) = latest e"
  "vm1 (setLocalInput e f m) = vm1 e"
  "vm2 (setLocalInput e f m) = vm2 e"
  "collisionData (setLocalInput e f m) = collisionData e"
  "localPlayerNumber (setLocalInput e f m) = localPlayerNumber e"
  by (simp_all add: setLocalInput_def)

lemma setRemoteInput_keeps:
  "hist (setRemoteInput e f m) = hist e"
  "latest (setRemoteInput e f m) = latest e"
  "vm1 (setRemoteInput e f m) = vm1 e"
  "vm2 (setRemoteInput e f m) = vm2 e"
  "collisionData (setRemoteInput e f m) = collisionData e"
  "localPlayerNumber (setRemoteInput e f m) = localPlayerNumber e"
  by (simp_all add: setRemoteInput_def)

lemma getLatest_slot:
  "hist e (latest e mod histLen) = Some s \<Longrightarrow> getLatest e = Inr s"
  by (simp add: getLatest_def)

text \<open>A pass of the loop body, in terms of the call of \<open>simulateTo\<close> it makes.\<close>
lemma loopIter_result:
  assumes "hist (rb oc) (latest (rb oc) mod histLen) = Some l"
    and "simulateTo tk (setLocalInput (rb oc) (and_ffff (int (frame l) + 1)) local)
           (and_ffff (int (frame l) + 1)) = Some (Inr (s, e'))"
  shows "\<exists>oc'. loopIter tk local oc = Some (Inr oc') \<and> rb oc' = e' \<and>
     viewerApplied oc' = Some (Fighter.x (p1 s), Fighter.x (p2 s), anim (p1 s), anim (p2 s)) \<and>
     running oc' = running oc \<and> acc oc' = acc oc \<and> lastNow oc' = lastNow oc"
proof (cases "liveOpen oc")
  case True
  then show ?thesis
    using assms
    by (simp add: loopIter_def sendInput_def getLatest_def setLocalInput_keeps Let_def
        running_def)
next
  case False
  then show ?thesis
    using assms
    by (simp add: loopIter_def getLatest_def Let_def running_def)
qed

subsection \<open>The frame counter at the wrap\<close>

text \<open>
  C5, evaluated on the code. When the latest committed frame is 65535, a pass of the
  loop body asks for target frame 0; \<open>simulateTo\<close> compares \<open>65535 < 0\<close>, runs no step
  and commits nothing: the history, the latest frame and both VMs are what they were,
  and the viewer is handed the state of frame 65535 again. The conclusion restores the
  hypotheses, so every later pass stalls in the same way.
\<close>
theorem loop_stalls_at_wrap:
  assumes "hist (rb oc) (latest (rb oc) mod histLen) = Some s0"
    and "frame s0 = 65535"
    and "latest (rb oc) = 65535"
  shows "\<exists>oc'. loopIter tk local oc = Some (Inr oc') \<and>
     hist (rb oc') = hist (rb oc) \<and> latest (rb oc') = 65535 \<and>
     vm1 (rb oc') = vm1 (rb oc) \<and> vm2 (rb oc') = vm2 (rb oc) \<and>
     getLatest (rb oc') = Inr s0 \<and>
     viewerApplied oc' =
       Some (Fighter.x (p1 s0), Fighter.x (p2 s0), anim (p1 s0), anim (p2 s0))"
proof -
  have nx: "and_ffff (int (frame s0) + 1) = 0"
    using assms by (simp add: and_ffff_mod)
  define e1 where "e1 = setLocalInput (rb oc) 0 local"
  have h1: "hist e1 (latest e1 mod histLen) = Some s0"
    using assms by (simp add: e1_def setLocalInput_keeps)
  have sim: "simulateTo tk e1 0 = Some (Inr (s0, e1))"
    using h1 by (simp add: simulateTo_def simulateLoop_done)
  obtain oc' where "loopIter tk local oc = Some (Inr oc')" and "rb oc' = e1"
    and "viewerApplied oc' =
        Some (Fighter.x (p1 s0), Fighter.x (p2 s0), anim (p1 s0), anim (p2 s0))"
    using loopIter_result [OF assms(1), of tk local s0 e1] sim
    by (auto simp add: nx e1_def)
  then show ?thesis
    using assms h1 by (auto simp add: e1_def setLocalInput_keeps getLatest_def)
qed

theorem loop_stalls_at_wrap_witness:
  "\<exists>oc'. loopIter mirrorTick 8
       ((initOrch mirrorApi [] 0)\<lparr>rb := Rollback_new (seed0\<lparr>frame := 65535\<rparr>) () Player1\<rparr>) =
       Some (Inr oc') \<and>
     latest (rb oc') = 65535 \<and> getLatest (rb oc') = Inr (seed0\<lparr>frame := 65535\<rparr>)"
  using loop_stalls_at_wrap
    [where oc = "(initOrch mirrorApi [] 0)\<lparr>rb := Rollback_new (seed0\<lparr>frame := 65535\<rparr>) () Player1\<rparr>"
       and ?s0.0 = "seed0\<lparr>frame := 65535\<rparr>" and tk = mirrorTick and local = 8]
  by (simp add: Rollback_new_def histLen_def) blast

subsection \<open>The gate of the simulation loop\<close>

lemma simulateTo_next:
  assumes "hist e (latest e mod histLen) = Some s0"
    and "frame s0 = latest e"
    and "latest e < 65535"
  shows "simulateTo tk e (latest e + 1) = Some (Inr (simulateBody tk s0 e))"
  using simulateTo_iter [OF assms(1), of 1 "latest e + 1" tk] assms by simp

lemma simulateBody_next:
  assumes "frame s0 < 65535"
  shows "frame (fst (simulateBody tk s0 e)) = frame s0 + 1"
    and "latest (snd (simulateBody tk s0 e)) = frame s0 + 1"
    and "getLatest (snd (simulateBody tk s0 e)) = Inr (fst (simulateBody tk s0 e))"
  using assms
  by (simp_all add: simulateBody_frame simulateBody_latest simulateBody_hist and_ffff_succ
      getLatest_def commit_def)

lemma loopWhile_closed:
  "\<not> running oc \<Longrightarrow>
   loopWhile tk local oc = Some (Inr (if TICK \<le> acc oc then oc\<lparr>acc := 0\<rparr> else oc))"
  by simp

lemma loopIter_open:
  assumes "hist (rb oc) (latest (rb oc) mod histLen) = Some s0"
    and "frame s0 = latest (rb oc)"
    and "latest (rb oc) < 65535"
  shows "\<exists>oc1 s1. loopIter tk local oc = Some (Inr oc1) \<and>
     latest (rb oc1) = latest (rb oc) + 1 \<and>
     getLatest (rb oc1) = Inr s1 \<and> frame s1 = latest (rb oc) + 1 \<and>
     running oc1 = running oc \<and> acc oc1 = acc oc"
proof -
  define nxt where "nxt = and_ffff (int (frame s0) + 1)"
  define e1 where "e1 = setLocalInput (rb oc) nxt local"
  have nx: "nxt = latest e1 + 1"
    using assms by (simp add: nxt_def e1_def and_ffff_succ setLocalInput_keeps)
  have h1: "hist e1 (latest e1 mod histLen) = Some s0"
    and f1: "frame s0 = latest e1" and l1: "latest e1 < 65535"
    using assms by (simp_all add: e1_def setLocalInput_keeps)
  have sim: "simulateTo tk e1 nxt = Some (Inr (fst (simulateBody tk s0 e1), snd (simulateBody tk s0 e1)))"
    using simulateTo_next [OF h1 f1 l1, of tk] by (simp add: nx)
  obtain oc1 where a: "loopIter tk local oc = Some (Inr oc1)"
    and b: "rb oc1 = snd (simulateBody tk s0 e1)"
    and c: "running oc1 = running oc" "acc oc1 = acc oc"
    using loopIter_result [OF assms(1) sim [unfolded e1_def nxt_def]]
    unfolding e1_def nxt_def by blast
  have "frame s0 < 65535" using f1 l1 by simp
  note nb = simulateBody_next [OF this, of tk e1]
  show ?thesis
    using a b c nb f1 assms by (auto simp add: e1_def setLocalInput_keeps)
qed

text \<open>
  The gate is the conjunction of the three flags. On the assets channel exactly the
  messages whose first byte is the \<open>GameStart\<close> opcode (\<open>0x22\<close>, sent with no
  payload) take the branch that sets \<open>gameStarted\<close>, and that branch and the local
  game-start handler change neither of the other two flags nor the engine.
\<close>
lemma gate_flags:
  "running oc = (gameStarted oc \<and> hasAssetsLoaded oc \<and> hasScriptLoaded oc)"
  "encGameStart = [0x22]"
  "assetsBranch buf = GameStartBranch \<longleftrightarrow> buf \<noteq> [] \<and> hd buf = 0x22"
  "gameStarted (assets_onGameStart oc)"
  "hasAssetsLoaded (assets_onGameStart oc) = hasAssetsLoaded oc"
  "hasScriptLoaded (assets_onGameStart oc) = hasScriptLoaded oc"
  "rb (assets_onGameStart oc) = rb oc"
  "gameStarted (btnGameStart_armed api txt oc)"
  "hasAssetsLoaded (btnGameStart_armed api txt oc) = hasAssetsLoaded oc"
proof -
  show "running oc = (gameStarted oc \<and> hasAssetsLoaded oc \<and> hasScriptLoaded oc)"
    by (simp add: running_def)
  show "encGameStart = [0x22]"
    by (simp add: encGameStart_def setUint8_def MSG_GameStart_def)
  have "unat b = 34 \<longleftrightarrow> b = 0x22" for b :: byte
  proof
    assume a: "unat b = 34"
    have "b = word_of_nat (unat b)" by simp
    then show "b = 0x22" unfolding a by simp
  next
    assume "b = 0x22"
    then show "unat b = 34" by simp
  qed
  then show "assetsBranch buf = GameStartBranch \<longleftrightarrow> buf \<noteq> [] \<and> hd buf = 0x22"
    by (cases buf)
      (simp_all add: assetsBranch_def Let_def MSG_GameStart_def MSG_Manifest_def
        MSG_NeedChunks_def MSG_Chunk_def MSG_ScriptPush_def)
  show "gameStarted (assets_onGameStart oc)"
    "hasAssetsLoaded (assets_onGameStart oc) = hasAssetsLoaded oc"
    "hasScriptLoaded (assets_onGameStart oc) = hasScriptLoaded oc"
    "rb (assets_onGameStart oc) = rb oc"
    by (simp_all add: assets_onGameStart_def)
  show "gameStarted (btnGameStart_armed api txt oc)"
    "hasAssetsLoaded (btnGameStart_armed api txt oc) = hasAssetsLoaded oc"
    by (simp_all add: btnGameStart_armed_def Let_def resetRollbackWithScript_def)
qed

text \<open>
  While the gate is closed, \<open>loop\<close> only resets the accumulator when a tick is due and
  records the time: the engine and everything else are unchanged.
\<close>
lemma loop_closed_gate:
  "\<not> running oc \<Longrightarrow>
   loop tk now local oc =
     Some (Inr (oc\<lparr>acc := (if TICK \<le> acc oc + (now - lastNow oc) / 1000 then 0
                             else acc oc + (now - lastNow oc) / 1000),
                    lastNow := now\<rparr>))"
  by (simp add: loop_def Let_def running_def)

text \<open>
  With the gate open, one tick due and the frame counter below its last value, \<open>loop\<close>
  commits exactly the next frame, the state of that frame being one step of the state
  of the latest frame, and takes one tick off the accumulator.
\<close>
lemma loop_open_gate:
  assumes "running oc"
    and "hist (rb oc) (latest (rb oc) mod histLen) = Some s0"
    and "frame s0 = latest (rb oc)"
    and "latest (rb oc) < 65535"
    and "TICK \<le> acc oc + (now - lastNow oc) / 1000"
    and "acc oc + (now - lastNow oc) / 1000 < 2 * TICK"
  shows "\<exists>oc1. loop tk now local oc = Some (Inr oc1) \<and>
     rb oc1 = snd (simulateBody tk s0 (setLocalInput (rb oc) (latest (rb oc) + 1) local)) \<and>
     latest (rb oc1) = latest (rb oc) + 1 \<and>
     getLatest (rb oc1) =
       Inr (fst (simulateBody tk s0 (setLocalInput (rb oc) (latest (rb oc) + 1) local))) \<and>
     acc oc1 = acc oc + (now - lastNow oc) / 1000 - TICK \<and> lastNow oc1 = now"
proof -
  define oc0 where "oc0 = oc\<lparr>acc := acc oc + (now - lastNow oc) / 1000, lastNow := now\<rparr>"
  define e1 where "e1 = setLocalInput (rb oc) (latest (rb oc) + 1) local"
  have r0: "rb oc0 = rb oc" "running oc0" "acc oc0 = acc oc + (now - lastNow oc) / 1000"
    "lastNow oc0 = now" "liveOpen oc0 = liveOpen oc"
    using assms(1) by (simp_all add: oc0_def running_def)
  have nx: "and_ffff (int (frame s0) + 1) = latest (rb oc) + 1"
    using assms by (simp add: and_ffff_succ)
  have h1: "hist e1 (latest e1 mod histLen) = Some s0"
    and f1: "frame s0 = latest e1" and l1: "latest e1 < 65535"
    using assms by (simp_all add: e1_def setLocalInput_keeps)
  have sim: "simulateTo tk e1 (latest (rb oc) + 1) =
      Some (Inr (fst (simulateBody tk s0 e1), snd (simulateBody tk s0 e1)))"
    using simulateTo_next [OF h1 f1 l1, of tk] by (simp add: e1_def setLocalInput_keeps)
  have h0: "hist (rb oc0) (latest (rb oc0) mod histLen) = Some s0"
    using assms(2) by (simp add: r0)
  obtain oc1 where a: "loopIter tk local oc0 = Some (Inr oc1)"
    and b: "rb oc1 = snd (simulateBody tk s0 e1)"
    and c: "running oc1 = running oc0" "acc oc1 = acc oc0"
    and d: "lastNow oc1 = lastNow oc0"
    using loopIter_result [OF h0, of tk local "fst (simulateBody tk s0 e1)"
        "snd (simulateBody tk s0 e1)"] sim
    unfolding nx r0 e1_def [symmetric] by blast
  have "frame s0 < 65535" using f1 l1 by simp
  note nb = simulateBody_next [OF this, of tk e1]
  have stop: "\<not> TICK \<le> acc oc0 - TICK"
    using assms(6) by (simp add: r0)
  have "loopWhile tk local oc0 = loopWhile tk local (oc1\<lparr>acc := acc oc0 - TICK\<rparr>)"
    using assms(5) r0 a by (subst loopWhile.simps) simp
  also have "\<dots> = Some (Inr (oc1\<lparr>acc := acc oc0 - TICK\<rparr>))"
    using stop by (subst loopWhile.simps) simp
  finally have "loop tk now local oc = Some (Inr (oc1\<lparr>acc := acc oc0 - TICK\<rparr>))"
    by (simp add: loop_def Let_def oc0_def)
  then show ?thesis
    using b d nb f1 r0 by (auto simp add: e1_def setLocalInput_keeps)
qed

subsection \<open>A running peer at the wrap\<close>

text \<open>A pass of the loop body when the latest committed frame is 65535.\<close>
lemma loopIter_stall:
  assumes "hist (rb oc) (latest (rb oc) mod histLen) = Some s0"
    and "frame s0 = 65535"
    and "latest (rb oc) = 65535"
  shows "\<exists>oc'. loopIter tk local oc = Some (Inr oc') \<and>
     rb oc' = setLocalInput (rb oc) 0 local \<and>
     viewerApplied oc' =
       Some (Fighter.x (p1 s0), Fighter.x (p2 s0), anim (p1 s0), anim (p2 s0)) \<and>
     running oc' = running oc \<and> acc oc' = acc oc \<and> lastNow oc' = lastNow oc"
proof -
  have nx: "and_ffff (int (frame s0) + 1) = 0"
    using assms by (simp add: and_ffff_mod)
  define e1 where "e1 = setLocalInput (rb oc) 0 local"
  have h1: "hist e1 (latest e1 mod histLen) = Some s0"
    using assms by (simp add: e1_def setLocalInput_keeps)
  have sim: "simulateTo tk e1 0 = Some (Inr (s0, e1))"
    using h1 by (simp add: simulateTo_def simulateLoop_done)
  show ?thesis
    using loopIter_result [OF assms(1), of tk local s0 e1] sim
    by (auto simp add: nx e1_def)
qed

text \<open>Every tick that is due stalls in the same way.\<close>
lemma loopWhile_stall:
  "running oc \<Longrightarrow> hist (rb oc) (latest (rb oc) mod histLen) = Some s0 \<Longrightarrow>
   frame s0 = 65535 \<Longrightarrow> latest (rb oc) = 65535 \<Longrightarrow>
   \<exists>oc'. loopWhile tk local oc = Some (Inr oc') \<and> running oc' \<and>
     hist (rb oc') = hist (rb oc) \<and> latest (rb oc') = 65535 \<and>
     vm1 (rb oc') = vm1 (rb oc) \<and> vm2 (rb oc') = vm2 (rb oc) \<and>
     acc oc' < TICK \<and> lastNow oc' = lastNow oc \<and>
     (TICK \<le> acc oc \<longrightarrow>
        viewerApplied oc' =
          Some (Fighter.x (p1 s0), Fighter.x (p2 s0), anim (p1 s0), anim (p2 s0)))"
proof (induction tk local oc rule: loopWhile.induct)
  case (1 tk local oc)
  show ?case
  proof (cases "TICK \<le> acc oc")
    case False
    then show ?thesis
      using "1.prems" by (subst loopWhile.simps) simp
  next
    case True
    obtain oc1 where a: "loopIter tk local oc = Some (Inr oc1)"
      and b: "rb oc1 = setLocalInput (rb oc) 0 local"
      and v: "viewerApplied oc1 =
        Some (Fighter.x (p1 s0), Fighter.x (p2 s0), anim (p1 s0), anim (p2 s0))"
      and c: "running oc1 = running oc" "acc oc1 = acc oc" "lastNow oc1 = lastNow oc"
      using loopIter_stall [OF "1.prems"(2,3,4), of tk local] by blast
    define oc2 where "oc2 = oc1\<lparr>acc := acc oc - TICK\<rparr>"
    have r2: "rb oc2 = setLocalInput (rb oc) 0 local" "running oc2"
      "viewerApplied oc2 = viewerApplied oc1" "lastNow oc2 = lastNow oc"
      using b c "1.prems"(1) by (simp_all add: oc2_def running_def)
    have h2: "hist (rb oc2) (latest (rb oc2) mod histLen) = Some s0"
      and l2: "latest (rb oc2) = 65535"
      using "1.prems" by (simp_all add: r2 setLocalInput_keeps)
    have step: "loopWhile tk local oc = loopWhile tk local oc2"
      using True "1.prems"(1) a by (subst loopWhile.simps) (simp add: oc2_def)
    obtain oc' where i: "loopWhile tk local oc2 = Some (Inr oc')" and j: "running oc'"
      and k: "hist (rb oc') = hist (rb oc2)" "latest (rb oc') = 65535"
        "vm1 (rb oc') = vm1 (rb oc2)" "vm2 (rb oc') = vm2 (rb oc2)"
        "acc oc' < TICK" "lastNow oc' = lastNow oc2"
      and w: "TICK \<le> acc oc2 \<longrightarrow> viewerApplied oc' =
          Some (Fighter.x (p1 s0), Fighter.x (p2 s0), anim (p1 s0), anim (p2 s0))"
      using "1.IH" [OF True _ a refl, folded oc2_def, OF _ r2(2) h2 "1.prems"(3) l2]
        "1.prems"(1)
      by auto
    have stay: "\<not> TICK \<le> acc oc2 \<Longrightarrow> oc' = oc2"
      using i by (subst (asm) loopWhile.simps) simp
    have view: "viewerApplied oc' =
        Some (Fighter.x (p1 s0), Fighter.x (p2 s0), anim (p1 s0), anim (p2 s0))"
      using w stay v r2(3) by (cases "TICK \<le> acc oc2") simp_all
    show ?thesis
      using step i j k view by (simp add: r2 setLocalInput_keeps)
  qed
qed

text \<open>
  C9, evaluated on the code. A peer is running (all three flags are set), its latest
  committed frame is 65535 and a tick is due. \<open>loop\<close> passes the gate and runs the loop
  body for every tick that is due (the accumulator ends below one tick and the viewer is
  handed a state), but no simulation step is executed: the history, the latest frame and
  both VMs are what they were, the state handed to the viewer is that of frame 65535, and
  the peer is still running with the latest frame 65535, so the same happens at every
  later call.
\<close>
theorem running_peer_stalls_at_wrap:
  assumes "running oc"
    and "hist (rb oc) (latest (rb oc) mod histLen) = Some s0"
    and "frame s0 = 65535"
    and "latest (rb oc) = 65535"
    and "TICK \<le> acc oc + (now - lastNow oc) / 1000"
  shows "\<exists>oc'. loop tk now local oc = Some (Inr oc') \<and> running oc' \<and>
     hist (rb oc') = hist (rb oc) \<and> latest (rb oc') = 65535 \<and>
     vm1 (rb oc') = vm1 (rb oc) \<and> vm2 (rb oc') = vm2 (rb oc) \<and>
     getLatest (rb oc') = Inr s0 \<and>
     viewerApplied oc' =
       Some (Fighter.x (p1 s0), Fighter.x (p2 s0), anim (p1 s0), anim (p2 s0)) \<and>
     acc oc' < TICK \<and> lastNow oc' = now"
proof -
  define oc0 where "oc0 = oc\<lparr>acc := acc oc + (now - lastNow oc) / 1000, lastNow := now\<rparr>"
  have r0: "rb oc0 = rb oc" "running oc0" "acc oc0 = acc oc + (now - lastNow oc) / 1000"
    "lastNow oc0 = now"
    using assms(1) by (simp_all add: oc0_def running_def)
  have h0: "hist (rb oc0) (latest (rb oc0) mod histLen) = Some s0"
    and l0: "latest (rb oc0) = 65535"
    using assms by (simp_all add: r0)
  have t0: "TICK \<le> acc oc0"
    using assms(5) by (simp add: r0)
  obtain oc' where "loopWhile tk local oc0 = Some (Inr oc')" and "running oc'"
    and "hist (rb oc') = hist (rb oc0)" and l: "latest (rb oc') = 65535"
    and "vm1 (rb oc') = vm1 (rb oc0)" and "vm2 (rb oc') = vm2 (rb oc0)"
    and "acc oc' < TICK" and "lastNow oc' = lastNow oc0"
    and "viewerApplied oc' =
      Some (Fighter.x (p1 s0), Fighter.x (p2 s0), anim (p1 s0), anim (p2 s0))"
    using loopWhile_stall [OF r0(2) h0 assms(3) l0, of tk local] t0 by blast
  moreover have "loop tk now local oc = loopWhile tk local oc0"
    by (simp add: loop_def Let_def oc0_def)
  moreover have "getLatest (rb oc') = Inr s0"
    using calculation(3) l assms(2,4) by (simp add: getLatest_def r0)
  ultimately show ?thesis
    by (simp add: r0)
qed

theorem running_peer_stalls_at_wrap_witness:
  "running ((initOrch mirrorApi [] 0)
      \<lparr>gameStarted := True, hasAssetsLoaded := True, hasScriptLoaded := True,
       rb := Rollback_new (seed0\<lparr>frame := 65535\<rparr>) () Player1\<rparr>) \<and>
   (\<exists>oc'. loop mirrorTick 50 8
       ((initOrch mirrorApi [] 0)
          \<lparr>gameStarted := True, hasAssetsLoaded := True, hasScriptLoaded := True,
           rb := Rollback_new (seed0\<lparr>frame := 65535\<rparr>) () Player1\<rparr>) = Some (Inr oc') \<and>
      running oc' \<and> latest (rb oc') = 65535 \<and>
      getLatest (rb oc') = Inr (seed0\<lparr>frame := 65535\<rparr>) \<and>
      hist (rb oc') = [65535 mod 64 \<mapsto> seed0\<lparr>frame := 65535\<rparr>] \<and>
      viewerApplied oc' = Some (- 65536, 65536, 0, 0) \<and> acc oc' < 1 / 60)"
proof -
  let ?oc = "(initOrch mirrorApi [] 0)
      \<lparr>gameStarted := True, hasAssetsLoaded := True, hasScriptLoaded := True,
       rb := Rollback_new (seed0\<lparr>frame := 65535\<rparr>) () Player1\<rparr>"
  have a: "running ?oc"
    by (simp add: running_def)
  have b: "hist (rb ?oc) (latest (rb ?oc) mod histLen) = Some (seed0\<lparr>frame := 65535\<rparr>)"
    "latest (rb ?oc) = 65535"
    "hist (rb ?oc) = [65535 mod 64 \<mapsto> seed0\<lparr>frame := 65535\<rparr>]"
    by (simp_all add: Rollback_new_def histLen_def)
  have c: "TICK \<le> acc ?oc + (50 - lastNow ?oc) / 1000"
    by (simp add: initOrch_def TICK_def)
  from running_peer_stalls_at_wrap [OF a b(1) _ b(2) c, of mirrorTick 8]
  show ?thesis
    using a b(3) by (simp add: seed0_def TICK_def) blast
qed

subsection \<open>A script that does not compile\<close>

lemma makeRollback_fresh:
  "hist (makeRollback api oc) = [0 \<mapsto> seed0]"
  "latest (makeRollback api oc) = 0"
  "in1 (makeRollback api oc) = u16_new"
  "in2 (makeRollback api oc) = u16_new"
  "vm1 (makeRollback api oc) = freshVM api (vmSrc oc)"
  "vm2 (makeRollback api oc) = freshVM api (vmSrc oc)"
  by (simp_all add: makeRollback_def Rollback_new_def seed0_def)

text \<open>
  C7 (as amended). Each of the three places that apply a script source (the Run Local
  button, the Game Start button and the \<open>ScriptPush\<close> branch of the assets channel)
  replaces the engine before it looks at the result of \<open>loadSource\<close>, so after a failed
  load as after a successful one the engine is a freshly seeded one: frame 0, only the
  seed in the history, empty input rings, and VMs built for the source just applied.
  In each place \<open>hasScriptLoaded\<close> becomes the result of \<open>loadSource\<close>; a failed load
  therefore closes the gate of the loop, and \<open>loop\<close> leaves the fresh engine as it is.
  After a failed load the Run Local button and
  the \<open>ScriptPush\<close> branch put the error on the status element; the Game Start button
  puts its game-start text there and sends the script and \<open>GameStart\<close> to the peer when
  the assets channel is open.
\<close>
theorem failed_load_resets_engine:
  "hist (makeRollback api (oc\<lparr>vmSrc := txt\<rparr>)) = [0 \<mapsto> seed0] \<and>
   latest (makeRollback api (oc\<lparr>vmSrc := txt\<rparr>)) = 0 \<and>
   in1 (makeRollback api (oc\<lparr>vmSrc := txt\<rparr>)) = u16_new \<and>
   in2 (makeRollback api (oc\<lparr>vmSrc := txt\<rparr>)) = u16_new \<and>
   vm1 (makeRollback api (oc\<lparr>vmSrc := txt\<rparr>)) = freshVM api txt \<and>
   vm2 (makeRollback api (oc\<lparr>vmSrc := txt\<rparr>)) = freshVM api txt \<and>
   rb (btnRunLocal_onclick api txt oc) = makeRollback api (oc\<lparr>vmSrc := txt\<rparr>) \<and>
   hasScriptLoaded (btnRunLocal_onclick api txt oc) = loadSource api txt \<and>
   rb (btnGameStart_armed api txt oc) = makeRollback api (oc\<lparr>vmSrc := txt\<rparr>) \<and>
   hasScriptLoaded (btnGameStart_armed api txt oc) = loadSource api txt \<and>
   (\<not> loadSource api txt \<longrightarrow>
      \<not> running (btnRunLocal_onclick api txt oc) \<and>
      statusText (btnRunLocal_onclick api txt oc) =
        Status (if getLastError api txt \<noteq> []
                then lit ''script compile error: '' @ getLastError api txt
                else lit ''script compile error'') \<and>
      \<not> running (btnGameStart_armed api txt oc) \<and>
      statusText (btnGameStart_armed api txt oc) =
        Status (if assetsOpen oc then lit ''game start armed'' else lit ''game start (local)'') \<and>
      assetsSent (btnGameStart_armed api txt oc) =
        (if assetsOpen oc
         then assetsSent oc @ [encScriptPush (lit ''logic.rhai'') (utf8_encode txt), encGameStart]
         else assetsSent oc) \<and>
      (\<exists>oc2. loop tk now local (btnRunLocal_onclick api txt oc) = Some (Inr oc2) \<and>
         rb oc2 = makeRollback api (oc\<lparr>vmSrc := txt\<rparr>)) \<and>
      (\<exists>oc2. loop tk now local (btnGameStart_armed api txt oc) = Some (Inr oc2) \<and>
         rb oc2 = makeRollback api (oc\<lparr>vmSrc := txt\<rparr>))) \<and>
   (decScriptPush buf = Inr msg \<longrightarrow>
      (\<exists>oc'. assets_onScriptPush api buf oc = Inr oc' \<and>
         rb oc' = makeRollback api (oc\<lparr>vmSrc := utf8_decode (script_bytes msg)\<rparr>) \<and>
         hasScriptLoaded oc' = loadSource api (utf8_decode (script_bytes msg)) \<and>
         (\<not> loadSource api (utf8_decode (script_bytes msg)) \<longrightarrow>
            \<not> running oc' \<and>
            statusText oc' =
              Status (if getLastError api (utf8_decode (script_bytes msg)) \<noteq> []
                      then lit ''script compile error: '' @
                        getLastError api (utf8_decode (script_bytes msg))
                      else lit ''script compile error: '' @ script_name msg) \<and>
            (\<exists>oc2. loop tk now local oc' = Some (Inr oc2) \<and> rb oc2 = rb oc'))))"
proof -
  have fresh: "hist (makeRollback api (oc\<lparr>vmSrc := txt\<rparr>)) = [0 \<mapsto> seed0]"
    "latest (makeRollback api (oc\<lparr>vmSrc := txt\<rparr>)) = 0"
    "in1 (makeRollback api (oc\<lparr>vmSrc := txt\<rparr>)) = u16_new"
    "in2 (makeRollback api (oc\<lparr>vmSrc := txt\<rparr>)) = u16_new"
    "vm1 (makeRollback api (oc\<lparr>vmSrc := txt\<rparr>)) = freshVM api txt"
    "vm2 (makeRollback api (oc\<lparr>vmSrc := txt\<rparr>)) = freshVM api txt"
    by (simp_all add: makeRollback_fresh)
  have run: "rb (btnRunLocal_onclick api txt oc) = makeRollback api (oc\<lparr>vmSrc := txt\<rparr>)"
    "hasScriptLoaded (btnRunLocal_onclick api txt oc) = loadSource api txt"
    by (simp_all add: btnRunLocal_onclick_def resetRollbackWithScript_def Let_def)
  have start: "rb (btnGameStart_armed api txt oc) = makeRollback api (oc\<lparr>vmSrc := txt\<rparr>)"
    "hasScriptLoaded (btnGameStart_armed api txt oc) = loadSource api txt"
    by (simp_all add: btnGameStart_armed_def resetRollbackWithScript_def Let_def)
  have failed: "\<not> loadSource api txt \<longrightarrow>
      \<not> running (btnRunLocal_onclick api txt oc) \<and>
      statusText (btnRunLocal_onclick api txt oc) =
        Status (if getLastError api txt \<noteq> []
                then lit ''script compile error: '' @ getLastError api txt
                else lit ''script compile error'') \<and>
      \<not> running (btnGameStart_armed api txt oc) \<and>
      statusText (btnGameStart_armed api txt oc) =
        Status (if assetsOpen oc then lit ''game start armed'' else lit ''game start (local)'') \<and>
      assetsSent (btnGameStart_armed api txt oc) =
        (if assetsOpen oc
         then assetsSent oc @ [encScriptPush (lit ''logic.rhai'') (utf8_encode txt), encGameStart]
         else assetsSent oc) \<and>
      (\<exists>oc2. loop tk now local (btnRunLocal_onclick api txt oc) = Some (Inr oc2) \<and>
         rb oc2 = makeRollback api (oc\<lparr>vmSrc := txt\<rparr>)) \<and>
      (\<exists>oc2. loop tk now local (btnGameStart_armed api txt oc) = Some (Inr oc2) \<and>
         rb oc2 = makeRollback api (oc\<lparr>vmSrc := txt\<rparr>))"
  proof
    assume f: "\<not> loadSource api txt"
    have nr: "\<not> running (btnRunLocal_onclick api txt oc)"
      "\<not> running (btnGameStart_armed api txt oc)"
      using f by (simp_all add: running_def run start)
    show "\<not> running (btnRunLocal_onclick api txt oc) \<and>
      statusText (btnRunLocal_onclick api txt oc) =
        Status (if getLastError api txt \<noteq> []
                then lit ''script compile error: '' @ getLastError api txt
                else lit ''script compile error'') \<and>
      \<not> running (btnGameStart_armed api txt oc) \<and>
      statusText (btnGameStart_armed api txt oc) =
        Status (if assetsOpen oc then lit ''game start armed'' else lit ''game start (local)'') \<and>
      assetsSent (btnGameStart_armed api txt oc) =
        (if assetsOpen oc
         then assetsSent oc @ [encScriptPush (lit ''logic.rhai'') (utf8_encode txt), encGameStart]
         else assetsSent oc) \<and>
      (\<exists>oc2. loop tk now local (btnRunLocal_onclick api txt oc) = Some (Inr oc2) \<and>
         rb oc2 = makeRollback api (oc\<lparr>vmSrc := txt\<rparr>)) \<and>
      (\<exists>oc2. loop tk now local (btnGameStart_armed api txt oc) = Some (Inr oc2) \<and>
         rb oc2 = makeRollback api (oc\<lparr>vmSrc := txt\<rparr>))"
      using f nr loop_closed_gate [OF nr(1), of tk now local]
        loop_closed_gate [OF nr(2), of tk now local] run(1) start(1)
      by (simp add: btnRunLocal_onclick_def btnGameStart_armed_def resetRollbackWithScript_def
          Let_def)
  qed
  have push: "decScriptPush buf = Inr msg \<longrightarrow>
      (\<exists>oc'. assets_onScriptPush api buf oc = Inr oc' \<and>
         rb oc' = makeRollback api (oc\<lparr>vmSrc := utf8_decode (script_bytes msg)\<rparr>) \<and>
         hasScriptLoaded oc' = loadSource api (utf8_decode (script_bytes msg)) \<and>
         (\<not> loadSource api (utf8_decode (script_bytes msg)) \<longrightarrow>
            \<not> running oc' \<and>
            statusText oc' =
              Status (if getLastError api (utf8_decode (script_bytes msg)) \<noteq> []
                      then lit ''script compile error: '' @
                        getLastError api (utf8_decode (script_bytes msg))
                      else lit ''script compile error: '' @ script_name msg) \<and>
            (\<exists>oc2. loop tk now local oc' = Some (Inr oc2) \<and> rb oc2 = rb oc')))"
  proof
    assume d: "decScriptPush buf = Inr msg"
    obtain oc' where p: "assets_onScriptPush api buf oc = Inr oc'"
      using d by (simp add: assets_onScriptPush_def Let_def)
    have q: "rb oc' = makeRollback api (oc\<lparr>vmSrc := utf8_decode (script_bytes msg)\<rparr>)"
      "hasScriptLoaded oc' = loadSource api (utf8_decode (script_bytes msg))"
      "\<not> loadSource api (utf8_decode (script_bytes msg)) \<Longrightarrow>
        statusText oc' =
          Status (if getLastError api (utf8_decode (script_bytes msg)) \<noteq> []
                  then lit ''script compile error: '' @
                    getLastError api (utf8_decode (script_bytes msg))
                  else lit ''script compile error: '' @ script_name msg)"
      using d p
      by (auto simp add: assets_onScriptPush_def resetRollbackWithScript_def Let_def)
    have r: "\<not> running oc'" if "\<not> loadSource api (utf8_decode (script_bytes msg))"
      using that q(2) by (simp add: running_def)
    have l: "\<exists>oc2. loop tk now local oc' = Some (Inr oc2) \<and> rb oc2 = rb oc'"
      if "\<not> loadSource api (utf8_decode (script_bytes msg))"
      using loop_closed_gate [OF r [OF that], of tk now local] by simp
    show "\<exists>oc'. assets_onScriptPush api buf oc = Inr oc' \<and>
         rb oc' = makeRollback api (oc\<lparr>vmSrc := utf8_decode (script_bytes msg)\<rparr>) \<and>
         hasScriptLoaded oc' = loadSource api (utf8_decode (script_bytes msg)) \<and>
         (\<not> loadSource api (utf8_decode (script_bytes msg)) \<longrightarrow>
            \<not> running oc' \<and>
            statusText oc' =
              Status (if getLastError api (utf8_decode (script_bytes msg)) \<noteq> []
                      then lit ''script compile error: '' @
                        getLastError api (utf8_decode (script_bytes msg))
                      else lit ''script compile error: '' @ script_name msg) \<and>
            (\<exists>oc2. loop tk now local oc' = Some (Inr oc2) \<and> rb oc2 = rb oc'))"
      using p q r l by (intro exI [of _ oc']) simp
  qed
  from fresh run start failed push show ?thesis
    by blast
qed

theorem failed_load_resets_engine_witness:
  "\<not> loadSource failApi (lit ''x'') \<and>
   latest (rb (btnRunLocal_onclick failApi (lit ''x'')
     ((initOrch failApi [] 0)\<lparr>rb := setLocalInput (Rollback_new seed0 () Player1) 1 8\<rparr>))) = 0 \<and>
   in1 (rb (btnRunLocal_onclick failApi (lit ''x'')
     ((initOrch failApi [] 0)\<lparr>rb := setLocalInput (Rollback_new seed0 () Player1) 1 8\<rparr>))) 1 = 0 \<and>
   statusText (btnRunLocal_onclick failApi (lit ''x'')
     ((initOrch failApi [] 0)\<lparr>rb := setLocalInput (Rollback_new seed0 () Player1) 1 8\<rparr>)) =
     Status (lit ''script compile error: syntax error'') \<and>
   latest (rb (btnGameStart_armed failApi (lit ''x'')
     ((initOrch failApi [] 0)\<lparr>rb := setLocalInput (Rollback_new seed0 () Player1) 1 8\<rparr>))) = 0 \<and>
   in1 (rb (btnGameStart_armed failApi (lit ''x'')
     ((initOrch failApi [] 0)\<lparr>rb := setLocalInput (Rollback_new seed0 () Player1) 1 8\<rparr>))) 1 = 0 \<and>
   \<not> hasScriptLoaded (btnGameStart_armed failApi (lit ''x'')
     ((initOrch failApi [] 0)\<lparr>rb := setLocalInput (Rollback_new seed0 () Player1) 1 8\<rparr>)) \<and>
   statusText (btnGameStart_armed failApi (lit ''x'')
     ((initOrch failApi [] 0)\<lparr>rb := setLocalInput (Rollback_new seed0 () Player1) 1 8\<rparr>)) =
     Status (lit ''game start (local)'') \<and>
   (\<exists>oc'. assets_onScriptPush failApi [0x20, 1, 97, 1, 0, 0, 0, 120]
        ((initOrch failApi [] 0)\<lparr>rb := setLocalInput (Rollback_new seed0 () Player1) 1 8\<rparr>) =
        Inr oc' \<and>
      latest (rb oc') = 0 \<and> in1 (rb oc') 1 = 0 \<and> \<not> hasScriptLoaded oc' \<and>
      statusText oc' = Status (lit ''script compile error: syntax error''))"
proof -
  let ?oc = "(initOrch failApi [] 0)\<lparr>rb := setLocalInput (Rollback_new seed0 () Player1) 1 8\<rparr>"
  let ?buf = "[0x20, 1, 97, 1, 0, 0, 0, 120] :: byte list"
  let ?msg = "\<lparr>script_name = utf8_decode [97], script_bytes = [120]\<rparr>"
  have f: "\<not> loadSource failApi src" for src
    by (simp add: failApi_def)
  have d: "decScriptPush ?buf = Inr ?msg"
    by (simp add: decScriptPush_def getUint8_def getUint32_def subarray_def)
  have e: "getLastError failApi src = lit ''syntax error''" "lit ''syntax error'' \<noteq> []" for src
    by (simp_all add: failApi_def lit_def)
  have g: "\<not> assetsOpen ?oc"
    by (simp add: initOrch_def)
  note inst = failed_load_resets_engine
    [where api = failApi and ?txt = "lit ''x''" and oc = "?oc" and buf = "?buf" and msg = "?msg"]
  from inst f d obtain oc' where "assets_onScriptPush failApi ?buf ?oc = Inr oc'"
    and "rb oc' = makeRollback failApi (?oc\<lparr>vmSrc := utf8_decode (script_bytes ?msg)\<rparr>)"
    and "hasScriptLoaded oc' = loadSource failApi (utf8_decode (script_bytes ?msg))"
    and "statusText oc' =
      Status (if getLastError failApi (utf8_decode (script_bytes ?msg)) \<noteq> []
              then lit ''script compile error: '' @
                getLastError failApi (utf8_decode (script_bytes ?msg))
              else lit ''script compile error: '' @ script_name ?msg)"
    by blast
  moreover from inst f have "rb (btnRunLocal_onclick failApi (lit ''x'') ?oc) =
      makeRollback failApi (?oc\<lparr>vmSrc := lit ''x''\<rparr>)"
    and "statusText (btnRunLocal_onclick failApi (lit ''x'') ?oc) =
      Status (if getLastError failApi (lit ''x'') \<noteq> []
              then lit ''script compile error: '' @ getLastError failApi (lit ''x'')
              else lit ''script compile error'')"
    and "rb (btnGameStart_armed failApi (lit ''x'') ?oc) =
      makeRollback failApi (?oc\<lparr>vmSrc := lit ''x''\<rparr>)"
    and "hasScriptLoaded (btnGameStart_armed failApi (lit ''x'') ?oc) =
      loadSource failApi (lit ''x'')"
    and "statusText (btnGameStart_armed failApi (lit ''x'') ?oc) =
      Status (if assetsOpen ?oc then lit ''game start armed'' else lit ''game start (local)'')"
    by blast+
  ultimately show ?thesis
    using f g by (simp add: makeRollback_fresh u16_new_def e) (simp add: lit_def)
qed

text \<open>
  C7 as stated fails: a running peer that has committed frame 1 and then loads a source
  that does not compile is left with an engine at frame 0.
\<close>
theorem failed_load_counterexample:
  "\<exists>oc1. loopIter mirrorTick 8
       ((initOrch failApi [] 0)
          \<lparr>gameStarted := True, hasAssetsLoaded := True, hasScriptLoaded := True\<rparr>) =
       Some (Inr oc1) \<and>
     latest (rb oc1) = 1 \<and>
     \<not> loadSource failApi (lit ''x'') \<and>
     latest (rb (btnRunLocal_onclick failApi (lit ''x'') oc1)) = 0 \<and>
     rb (btnRunLocal_onclick failApi (lit ''x'') oc1) \<noteq> rb oc1"
proof -
  let ?run = "(initOrch failApi [] 0)
      \<lparr>gameStarted := True, hasAssetsLoaded := True, hasScriptLoaded := True\<rparr>"
  have "hist (rb ?run) (latest (rb ?run) mod histLen) = Some seed0"
    and "frame seed0 = latest (rb ?run)" and "latest (rb ?run) < 65535"
    by (simp_all add: initOrch_def Rollback_new_def seed0_def)
  from loopIter_open [OF this, of mirrorTick 8]
  obtain oc1 where a: "loopIter mirrorTick 8 ?run = Some (Inr oc1)"
    and b: "latest (rb oc1) = latest (rb ?run) + 1"
    by blast
  have c: "latest (rb ?run) = 0"
    by (simp add: initOrch_def Rollback_new_def seed0_def)
  have d: "latest (rb (btnRunLocal_onclick failApi (lit ''x'') oc1)) = 0"
    by (simp add: btnRunLocal_onclick_def resetRollbackWithScript_def Let_def
        makeRollback_fresh failApi_def)
  have "rb (btnRunLocal_onclick failApi (lit ''x'') oc1) \<noteq> rb oc1"
    using b c d by auto
  with a b c d show ?thesis
    by (auto simp add: failApi_def)
qed

section \<open>Properties of the wire codecs\<close>


subsection \<open>The decoder on the output of the encoder\<close>

lemma unat_toByte: "v < 256 \<Longrightarrow> unat (toByte v) = v"
  by (simp add: toByte_def unat_of_nat)

lemma cont_byte: "unat (toByte (128 + r mod 64)) = 128 + r mod 64"
  "(128 + r mod 64) mod 64 = r mod 64"
  "128 \<le> 128 + r mod 64" "128 + r mod 64 \<le> 191"
proof -
  have "r mod 64 < 64" by simp
  then show "unat (toByte (128 + r mod 64)) = 128 + r mod 64"
    by (intro unat_toByte) linarith
  show "(128 + r mod 64) mod 64 = r mod 64"
    using mod_add_left_eq [of 128 64 "r mod 64"] by simp
  show "128 \<le> 128 + r mod 64" by simp
  show "128 + r mod 64 \<le> 191" using \<open>r mod 64 < 64\<close> by linarith
qed

lemma run_lead:
  "unat b = v \<Longrightarrow> utf8_lead v = ([], st) \<Longrightarrow> utf8_run Idle (b # bs) = utf8_run st bs"
  by simp

lemma run_more:
  "unat b = v \<Longrightarrow> lo \<le> v \<Longrightarrow> v \<le> up \<Longrightarrow> seen + 1 \<noteq> need \<Longrightarrow>
   utf8_run (Pending cp need seen lo up) (b # bs) =
     utf8_run (Pending (cp * 64 + v mod 64) need (seen + 1) 0x80 0xBF) bs"
  by (simp add: Let_def)

lemma run_last:
  "unat b = v \<Longrightarrow> lo \<le> v \<Longrightarrow> v \<le> up \<Longrightarrow> seen + 1 = need \<Longrightarrow>
   utf8_run (Pending cp need seen lo up) (b # bs) = (cp * 64 + v mod 64) # utf8_run Idle bs"
  by (auto simp add: Let_def)

lemma split64: "(n div 64) * 64 + n mod 64 = (n::nat)"
  by simp

lemma run1:
  assumes "c < 0x80"
  shows "utf8_run Idle (utf8_bytes c @ bs) = c # utf8_run Idle bs"
  using assms by (simp add: utf8_bytes_def utf8_lead_def unat_toByte)

lemma run2:
  assumes "0x80 \<le> c" "c < 0x800"
  shows "utf8_run Idle (utf8_bytes c @ bs) = c # utf8_run Idle bs"
proof -
  define q where "q = c div 64"
  have q: "q < 32" "2 \<le> q" using assms by (simp_all add: q_def)
  have bytes: "utf8_bytes c = [toByte (192 + q), toByte (128 + c mod 64)]"
    using assms by (simp add: utf8_bytes_def q_def)
  have a: "unat (toByte (192 + q)) = 192 + q"
    using q by (intro unat_toByte) linarith
  have m: "(192 + q) mod 32 = q"
    using q mod_add_left_eq [of 192 32 q] by simp
  have l: "utf8_lead (192 + q) = ([], Pending q 1 0 0x80 0xBF)"
    using q by (simp add: utf8_lead_def m)
  have s1: "utf8_run Idle (toByte (192 + q) # X) = utf8_run (Pending q 1 0 0x80 0xBF) X" for X
    by (rule run_lead [OF a l])
  have s2: "utf8_run (Pending q 1 0 0x80 0xBF) (toByte (128 + c mod 64) # X) =
      (q * 64 + (128 + c mod 64) mod 64) # utf8_run Idle X" for X
    by (rule run_last [OF cont_byte(1)]) (simp_all add: cont_byte)
  have v: "q * 64 + (128 + c mod 64) mod 64 = c"
    by (simp only: cont_byte(2) q_def split64)
  show ?thesis
    by (simp only: bytes append.simps s1 s2 v)
qed

lemma run3:
  assumes "0x800 \<le> c" "c < 0x10000" "\<not> (0xD800 \<le> c \<and> c \<le> 0xDFFF)"
  shows "utf8_run Idle (utf8_bytes c @ bs) = c # utf8_run Idle bs"
proof -
  define q where "q = c div 4096"
  define r where "r = c div 64"
  define lo :: nat where "lo = (if 224 + q = 0xE0 then 0xA0 else 0x80)"
  define up :: nat where "up = (if 224 + q = 0xED then 0x9F else 0xBF)"
  have q: "q < 16" using assms by (simp add: q_def)
  have qr: "r div 64 = q" by (simp add: q_def r_def div_mult2_eq [symmetric])
  have rq: "q * 64 + r mod 64 = r" using qr mult_div_mod_eq [of 64 r] by simp
  have bytes: "utf8_bytes c = [toByte (224 + q), toByte (128 + r mod 64), toByte (128 + c mod 64)]"
    using assms by (simp add: utf8_bytes_def q_def r_def)
  have a: "unat (toByte (224 + q)) = 224 + q"
    using q by (intro unat_toByte) linarith
  have m: "(224 + q) mod 16 = q"
    using q mod_add_left_eq [of 224 16 q] by simp
  have l: "utf8_lead (224 + q) = ([], Pending q 2 0 lo up)"
    using q by (simp add: utf8_lead_def m lo_def up_def)
  have lo: "lo \<le> 128 + r mod 64"
  proof (cases "q = 0")
    case True
    then have "r < 64" using qr by (simp add: div_eq_0_iff)
    moreover have "32 \<le> r" using assms by (simp add: r_def)
    ultimately show ?thesis by (simp add: lo_def)
  next
    case False
    then show ?thesis by (simp add: lo_def)
  qed
  have up: "128 + r mod 64 \<le> up"
  proof (cases "q = 13")
    case True
    have "r < 864" using assms True by (simp add: r_def q_def) linarith
    then have "r mod 64 < 32" using rq True by linarith
    then show ?thesis using True by (simp add: up_def)
  next
    case False
    have "r mod 64 < 64" by simp
    then show ?thesis using False by (simp add: up_def) 
  qed
  have s1: "utf8_run Idle (toByte (224 + q) # X) = utf8_run (Pending q 2 0 lo up) X" for X
    by (rule run_lead [OF a l])
  have s2: "utf8_run (Pending q 2 0 lo up) (toByte (128 + r mod 64) # X) =
      utf8_run (Pending (q * 64 + (128 + r mod 64) mod 64) 2 (0 + 1) 0x80 0xBF) X" for X
    by (rule run_more [OF cont_byte(1) lo up]) simp
  have s3: "utf8_run (Pending r 2 (0 + 1) 0x80 0xBF) (toByte (128 + c mod 64) # X) =
      (r * 64 + (128 + c mod 64) mod 64) # utf8_run Idle X" for X
    by (rule run_last [OF cont_byte(1)]) (simp_all add: cont_byte)
  have v: "r * 64 + c mod 64 = c"
    by (simp only: r_def split64)
  show ?thesis
    by (simp only: bytes append.simps s1 s2 cont_byte(2) rq s3 v)
qed

lemma run4:
  assumes "0x10000 \<le> c" "c < 0x110000"
  shows "utf8_run Idle (utf8_bytes c @ bs) = c # utf8_run Idle bs"
proof -
  define q where "q = c div 262144"
  define r where "r = c div 4096"
  define t where "t = c div 64"
  define lo :: nat where "lo = (if 240 + q = 0xF0 then 0x90 else 0x80)"
  define up :: nat where "up = (if 240 + q = 0xF4 then 0x8F else 0xBF)"
  have q: "q < 5" using assms by (simp add: q_def)
  have qr: "r div 64 = q" by (simp add: q_def r_def div_mult2_eq [symmetric])
  have rt: "t div 64 = r" by (simp add: r_def t_def div_mult2_eq [symmetric])
  have rq: "q * 64 + r mod 64 = r" using qr mult_div_mod_eq [of 64 r] by simp
  have tr: "r * 64 + t mod 64 = t" using rt mult_div_mod_eq [of 64 t] by simp
  have bytes: "utf8_bytes c =
      [toByte (240 + q), toByte (128 + r mod 64), toByte (128 + t mod 64), toByte (128 + c mod 64)]"
    using assms by (simp add: utf8_bytes_def q_def r_def t_def)
  have a: "unat (toByte (240 + q)) = 240 + q"
    using q by (intro unat_toByte) linarith
  have m: "(240 + q) mod 8 = q"
    using q mod_add_left_eq [of 240 8 q] by simp
  have l: "utf8_lead (240 + q) = ([], Pending q 3 0 lo up)"
    using q by (simp add: utf8_lead_def m lo_def up_def)
  have lo: "lo \<le> 128 + r mod 64"
  proof (cases "q = 0")
    case True
    then have "r < 64" using qr by (simp add: div_eq_0_iff)
    moreover have "16 \<le> r" using assms by (simp add: r_def)
    ultimately show ?thesis by (simp add: lo_def)
  next
    case False
    then show ?thesis by (simp add: lo_def)
  qed
  have up: "128 + r mod 64 \<le> up"
  proof (cases "q = 4")
    case True
    have "r < 272" using assms by (simp add: r_def) 
    then have "r mod 64 < 16" using rq True by linarith
    then show ?thesis using True by (simp add: up_def)
  next
    case False
    have "r mod 64 < 64" by simp
    then show ?thesis using False by (simp add: up_def)
  qed
  have s1: "utf8_run Idle (toByte (240 + q) # X) = utf8_run (Pending q 3 0 lo up) X" for X
    by (rule run_lead [OF a l])
  have s2: "utf8_run (Pending q 3 0 lo up) (toByte (128 + r mod 64) # X) =
      utf8_run (Pending (q * 64 + (128 + r mod 64) mod 64) 3 (0 + 1) 0x80 0xBF) X" for X
    by (rule run_more [OF cont_byte(1) lo up]) simp
  have s3: "utf8_run (Pending r 3 (0 + 1) 0x80 0xBF) (toByte (128 + t mod 64) # X) =
      utf8_run (Pending (r * 64 + (128 + t mod 64) mod 64) 3 (0 + 1 + 1) 0x80 0xBF) X" for X
    by (rule run_more [OF cont_byte(1)]) (simp_all add: cont_byte)
  have s4: "utf8_run (Pending t 3 (0 + 1 + 1) 0x80 0xBF) (toByte (128 + c mod 64) # X) =
      (t * 64 + (128 + c mod 64) mod 64) # utf8_run Idle X" for X
    by (rule run_last [OF cont_byte(1)]) (simp_all add: cont_byte)
  have v: "t * 64 + c mod 64 = c"
    by (simp only: t_def split64)
  show ?thesis
    by (simp only: bytes append.simps s1 s2 cont_byte(2) rq s3 tr s4 v)
qed

lemma run_scalar:
  assumes "isScalar c"
  shows "utf8_run Idle (utf8_bytes c @ bs) = c # utf8_run Idle bs"
proof -
  consider "c < 0x80" | "0x80 \<le> c" "c < 0x800" | "0x800 \<le> c" "c < 0x10000" | "0x10000 \<le> c"
    by linarith
  then show ?thesis
  proof cases
    case 1 then show ?thesis by (rule run1)
  next
    case 2 then show ?thesis by (rule run2)
  next
    case 3 then show ?thesis using assms by (intro run3) (simp_all add: isScalar_def)
  next
    case 4 then show ?thesis using assms by (intro run4) (simp_all add: isScalar_def)
  qed
qed

lemma run_scalars:
  "\<forall>c \<in> set cs. isScalar c \<Longrightarrow> utf8_run Idle (concat (map utf8_bytes cs)) = cs"
  by (induction cs) (simp_all add: run_scalar del: utf8_run.simps, simp)

lemma unat16_less: "unat (c :: 16 word) < 65536"
  using unsigned_less [of c, where 'a = nat] by simp


lemma unitScalar_isScalar: "isScalar (unitScalar c)"
proof -
  have "unat c < 65536" by (rule unat16_less)
  then show ?thesis
    by (auto simp add: unitScalar_def isScalar_def isLeadSurrogate_def isTrailSurrogate_def)
qed

lemma pair_value:
  assumes "isLeadSurrogate c" "isTrailSurrogate d"
  shows "0x10000 \<le> 0x10000 + (unat c - 0xD800) * 1024 + (unat d - 0xDC00)"
    and "0x10000 + (unat c - 0xD800) * 1024 + (unat d - 0xDC00) < 0x110000"
    and "fromScalar (0x10000 + (unat c - 0xD800) * 1024 + (unat d - 0xDC00)) = [c, d]"
proof -
  define a where "a = unat c - 0xD800"
  define b where "b = unat d - 0xDC00"
  have a: "a < 1024" "unat c = 0xD800 + a"
    using assms(1) unfolding a_def isLeadSurrogate_def by linarith+
  have b: "b < 1024" "unat d = 0xDC00 + b"
    using assms(2) unfolding b_def isTrailSurrogate_def by linarith+
  show "0x10000 \<le> 0x10000 + (unat c - 0xD800) * 1024 + (unat d - 0xDC00)"
    by simp
  show "0x10000 + (unat c - 0xD800) * 1024 + (unat d - 0xDC00) < 0x110000"
    using a(1) b(1) unfolding a_def [symmetric] b_def [symmetric] by linarith
  have dv: "(a * 1024 + b) div 1024 = a" and md: "(a * 1024 + b) mod 1024 = b"
    using b(1) by simp_all
  have "(word_of_nat (unat c) :: 16 word) = c" "(word_of_nat (unat d) :: 16 word) = d"
    by simp_all
  then have hi: "(word_of_nat (0xD800 + a) :: 16 word) = c"
    and lo: "(word_of_nat (0xDC00 + b) :: 16 word) = d"
    unfolding a(2) b(2) .
  have "fromScalar (0x10000 + a * 1024 + b) =
      [word_of_nat (0xD800 + a), word_of_nat (0xDC00 + b)]"
    unfolding fromScalar_def using dv md by (simp add: add.assoc del: of_nat_add)
  then show "fromScalar (0x10000 + (unat c - 0xD800) * 1024 + (unat d - 0xDC00)) = [c, d]"
    unfolding a_def [symmetric] b_def [symmetric] hi lo .
qed

lemma toScalars_isScalar: "\<forall>c \<in> set (toScalars str). isScalar c"
proof (induction str rule: toScalars.induct)
  case 1
  then show ?case by simp
next
  case (2 c)
  then show ?case by (simp add: unitScalar_isScalar)
next
  case (3 c d rest)
  show ?case
  proof (cases "isLeadSurrogate c \<and> isTrailSurrogate d")
    case True
    then have "isScalar (0x10000 + (unat c - 0xD800) * 1024 + (unat d - 0xDC00))"
      using pair_value(1,2) [of c d] by (simp add: isScalar_def)
    then show ?thesis using True "3.IH"(1) by simp
  next
    case False
    then show ?thesis using "3.IH"(2) by (auto simp add: unitScalar_isScalar)
  qed
qed

lemma unit_value:
  assumes "\<not> isLeadSurrogate c" "\<not> isTrailSurrogate c"
  shows "fromScalar (unitScalar c) = [c]"
proof -
  have "unat c < 65536" by (rule unat16_less)
  then show ?thesis
    using assms by (simp add: fromScalar_def unitScalar_def)
qed

lemma fromScalar_toScalars:
  "wellFormed str \<Longrightarrow> concat (map fromScalar (toScalars str)) = str"
proof (induction str rule: toScalars.induct)
  case 1
  then show ?case by simp
next
  case (2 c)
  then show ?case by (simp add: unit_value)
next
  case (3 c d rest)
  show ?case
  proof (cases "isLeadSurrogate c")
    case True
    then have t: "isTrailSurrogate d" and w: "wellFormed rest"
      using "3.prems" by simp_all
    show ?thesis
      using True t w "3.IH"(1) pair_value(3) [OF True t] by simp
  next
    case False
    then have t: "\<not> isTrailSurrogate c" and w: "wellFormed (d # rest)"
      using "3.prems" by simp_all
    show ?thesis
      using False t w "3.IH"(2) unit_value [OF False t] by simp
  qed
qed




text \<open>A string that begins with U+FEFF comes back without it.\<close>
lemma utf8_roundtrip_bom:
  assumes "wellFormed str"
  shows "utf8_decode (utf8_encode (0xFEFF # str)) = str"
proof -
  have n: "\<not> isLeadSurrogate (0xFEFF :: 16 word)" "unitScalar (0xFEFF :: 16 word) = 0xFEFF"
    by (simp_all add: isLeadSurrogate_def unitScalar_def isTrailSurrogate_def)
  have t: "toScalars (0xFEFF # str) = 0xFEFF # toScalars str"
    using n by (cases str) simp_all
  have "isScalar 0xFEFF"
    by (simp add: isScalar_def)
  then have "utf8_run Idle (utf8_bytes 0xFEFF @ concat (map utf8_bytes (toScalars str))) =
      0xFEFF # toScalars str"
    using run_scalar [of "0xFEFF" "concat (map utf8_bytes (toScalars str))"]
      run_scalars [OF toScalars_isScalar [of str]]
    by simp
  then show ?thesis
    using assms by (simp add: utf8_decode_def utf8_encode_def t stripBOM_def
        fromScalar_toScalars del: toScalars.simps)
qed

subsection \<open>Fields and messages\<close>

























section \<open>Rollback against the run with the input in place\<close>

lemma iterBody_sim_rings:
  "in1 (snd (iterBody (simulateBody tk) n s e)) = in1 e \<and>
   in2 (snd (iterBody (simulateBody tk) n s e)) = in2 e \<and>
   localPlayerNumber (snd (iterBody (simulateBody tk) n s e)) = localPlayerNumber e \<and>
   collisionData (snd (iterBody (simulateBody tk) n s e)) = collisionData e"
  by (induction n arbitrary: s e) (simp_all add: split_beta simulateBody_rings)

lemma iterBody_roll_rings:
  "in1 (snd (iterBody (rollbackBody tk) n s e)) = in1 e \<and>
   in2 (snd (iterBody (rollbackBody tk) n s e)) = in2 e \<and>
   localPlayerNumber (snd (iterBody (rollbackBody tk) n s e)) = localPlayerNumber e \<and>
   collisionData (snd (iterBody (rollbackBody tk) n s e)) = collisionData e \<and>
   latest (snd (iterBody (rollbackBody tk) n s e)) = latest e"
  by (induction n arbitrary: s e) (simp_all add: split_beta rollbackBody_rings)

lemma iterBody_sim_hist:
  "hist (snd (iterBody (simulateBody tk) n s e)) =
     foldl commit (hist e) (trajStates (simulateBody tk) n s e)"
  by (induction n arbitrary: s e) (simp_all add: split_beta simulateBody_hist)

lemma iterBody_roll_hist:
  "hist (snd (iterBody (rollbackBody tk) n s e)) =
     foldl commit (hist e) (trajStates (rollbackBody tk) n s e)"
  by (induction n arbitrary: s e) (simp_all add: split_beta rollbackBody_hist)

lemma simulateBody_getLatest:
  "getLatest (snd (simulateBody tk s e)) = Inr (fst (simulateBody tk s e))"
  by (simp add: getLatest_def simulateBody_latest simulateBody_hist commit_def)

lemma iterBody_sim_getLatest:
  "0 < n \<Longrightarrow>
   getLatest (snd (iterBody (simulateBody tk) n s e)) = Inr (fst (iterBody (simulateBody tk) n s e))"
proof (induction n arbitrary: s e)
  case 0
  then show ?case by simp
next
  case (Suc n)
  show ?case
  proof (cases n)
    case 0
    then show ?thesis by (simp add: split_beta simulateBody_getLatest)
  next
    case (Suc k)
    then show ?thesis using Suc.IH by (simp add: split_beta)
  qed
qed

lemma iterBody_sim_latest:
  "0 < n \<Longrightarrow>
   latest (snd (iterBody (simulateBody tk) n s e)) = frame (fst (iterBody (simulateBody tk) n s e))"
proof (induction n arbitrary: s e)
  case 0
  then show ?case by simp
next
  case (Suc n)
  show ?case
  proof (cases n)
    case 0
    then show ?thesis by (simp add: split_beta simulateBody_latest)
  next
    case (Suc k)
    then show ?thesis using Suc.IH by (simp add: split_beta)
  qed
qed

lemma iterBody_sim_frame:
  "frame s + n \<le> 65535 \<Longrightarrow> frame (fst (iterBody (simulateBody tk) n s e)) = frame s + n"
  by (induction n arbitrary: s e) (simp_all add: split_beta simulateBody_frame and_ffff_succ)

lemma traj_sim_frame_bounds:
  "frame s + n \<le> 65535 \<Longrightarrow> t \<in> set (trajStates (simulateBody tk) n s e) \<Longrightarrow>
   frame s < frame t \<and> frame t \<le> frame s + n"
proof (induction n arbitrary: s e)
  case 0
  then show ?case by simp
next
  case (Suc n)
  have fr: "frame (fst (simulateBody tk s e)) = frame s + 1"
    using Suc.prems by (simp add: simulateBody_frame and_ffff_succ)
  from Suc.prems(2) consider "t = fst (simulateBody tk s e)"
    | "t \<in> set (trajStates (simulateBody tk) n (fst (simulateBody tk s e)) (snd (simulateBody tk s e)))"
    by (auto simp add: split_beta)
  then show ?case
  proof cases
    case 1
    then show ?thesis using fr by simp
  next
    case 2
    have "frame (fst (simulateBody tk s e)) < frame t \<and>
        frame t \<le> frame (fst (simulateBody tk s e)) + n"
      using Suc.prems(1) fr 2 by (intro Suc.IH) simp_all
    then show ?thesis using fr by simp
  qed
qed

lemma traj_sim_frames_same:
  "frame s = frame s' \<Longrightarrow> frame s + n \<le> 65535 \<Longrightarrow>
   map frame (trajStates (simulateBody tk) n s e) =
   map frame (trajStates (simulateBody tk') n s' e')"
proof (induction n arbitrary: s e s' e')
  case 0
  then show ?case by simp
next
  case (Suc n)
  have fr: "frame (fst (simulateBody tk s e)) = frame (fst (simulateBody tk' s' e'))"
    using Suc.prems by (simp add: simulateBody_frame)
  have fr1: "frame (fst (simulateBody tk s e)) = frame s + 1"
    using Suc.prems by (simp add: simulateBody_frame and_ffff_succ)
  have "map frame (trajStates (simulateBody tk) n (fst (simulateBody tk s e)) (snd (simulateBody tk s e))) =
      map frame (trajStates (simulateBody tk') n (fst (simulateBody tk' s' e')) (snd (simulateBody tk' s' e')))"
    using Suc.prems fr fr1 by (intro Suc.IH) simp_all
  then show ?case
    by (simp add: split_beta fr)
qed

text \<open>Committing a list of states.\<close>

lemma foldl_commit_other:
  "\<forall>t \<in> set tr. frame t mod histLen \<noteq> i \<Longrightarrow> foldl commit h tr i = h i"
  by (induction tr arbitrary: h) (simp_all add: commit_def)

lemma dom_commit: "dom (commit h t) = insert (frame t mod histLen) (dom h)"
  by (simp add: commit_def)

lemma foldl_commit_overwrite:
  "map frame trA = map frame trB \<Longrightarrow>
   foldl commit (foldl commit h trA) trB = foldl commit h trB"
proof -
  have add: "foldl commit h tr = h ++ foldl commit Map.empty tr" for h tr
  proof (induction tr arbitrary: h)
    case Nil
    then show ?case by simp
  next
    case (Cons t tr)
    have "foldl commit (commit h t) tr = commit h t ++ foldl commit Map.empty tr"
      by (rule Cons.IH)
    moreover have "foldl commit (commit Map.empty t) tr = commit Map.empty t ++ foldl commit Map.empty tr"
      by (rule Cons.IH)
    moreover have "commit h t = h ++ commit Map.empty t"
      by (simp add: commit_def)
    ultimately show ?case by simp
  qed
  have dom: "dom (foldl commit Map.empty tr) = (\<lambda>t. frame t mod histLen) ` set tr" for tr
  proof (induction tr rule: rev_induct)
    case Nil
    then show ?case by simp
  next
    case (snoc t tr)
    then show ?case by (simp add: dom_commit)
  qed
  assume m: "map frame trA = map frame trB"
  have "set (map frame trA) = set (map frame trB)"
    using m by simp
  then have "frame ` set trA = frame ` set trB"
    by simp
  then have "(\<lambda>k. k mod histLen) ` frame ` set trA = (\<lambda>k. k mod histLen) ` frame ` set trB"
    by simp
  then have "(\<lambda>t. frame t mod histLen) ` set trA = (\<lambda>t. frame t mod histLen) ` set trB"
    by (simp add: image_image)
  then have sub: "dom (foldl commit Map.empty trA) \<subseteq> dom (foldl commit Map.empty trB)"
    by (simp add: dom)
  have "(h ++ foldl commit Map.empty trA) ++ foldl commit Map.empty trB =
      h ++ foldl commit Map.empty trB"
  proof (rule ext)
    fix i
    show "((h ++ foldl commit Map.empty trA) ++ foldl commit Map.empty trB) i =
        (h ++ foldl commit Map.empty trB) i"
      using sub by (auto simp add: map_add_def split: option.splits)
  qed
  then show ?thesis
    using add [of "foldl commit h trA" trB] add [of h trA] add [of h trB] by simp
qed


lemma slot_distinct:
  assumes "0 < k" "k \<le> 63"
  shows "(a + k) mod 64 \<noteq> (a::nat) mod 64"
proof
  assume "(a + k) mod 64 = a mod 64"
  then have "64 dvd (a + k) - a"
    by (simp add: mod_eq_dvd_iff_nat)
  then have "64 dvd k" by simp
  then have "64 \<le> k" using assms(1) by (rule dvd_imp_le)
  then show False using assms(2) by simp
qed

lemma step_scopeFree:
  assumes "scopeFree tk"
  shows "fst (step tk cd s i1 i2 v1 v2) = fst (step tk cd s i1 i2 w1 w2)"
proof -
  have a: "fst (tk v1 (frame s + 1) i1) = fst (tk w1 (frame s + 1) i1)"
    and b: "fst (tk v2 (frame s + 1) i2) = fst (tk w2 (frame s + 1) i2)"
    using assms by (auto simp add: scopeFree_def)
  show ?thesis
    using a b by (simp add: step_def Let_def split_beta)
qed

lemma fst_simulateBody:
  "fst (simulateBody tk s e) =
    fst (step tk (collisionData e) s (in1 e (and_ffff (int (frame s) + 1)))
      (in2 e (and_ffff (int (frame s) + 1))) (vm1 e) (vm2 e))"
  by (simp add: simulateBody_inputs Let_def split_beta)

lemma fst_rollbackBody:
  "fst (rollbackBody tk s e) =
    fst (step tk (collisionData e) s (in1 e (and_ffff (int (frame s) + 1)))
      (in2 e (and_ffff (int (frame s) + 1))) (vm1 e) (vm2 e))"
  by (simp add: rollbackBody_inputs Let_def split_beta)

lemma body_scopeFree:
  assumes "scopeFree tk" "in1 eA = in1 eB" "in2 eA = in2 eB" "collisionData eA = collisionData eB"
  shows "fst (simulateBody tk s eA) = fst (rollbackBody tk s eB)"
  using assms step_scopeFree [OF assms(1)]
  by (simp add: fst_simulateBody fst_rollbackBody)

lemma traj_scopeFree:
  assumes "scopeFree tk"
  shows "in1 eA = in1 eB \<Longrightarrow> in2 eA = in2 eB \<Longrightarrow> collisionData eA = collisionData eB \<Longrightarrow>
    trajStates (simulateBody tk) n s eA = trajStates (rollbackBody tk) n s eB"
proof (induction n arbitrary: s eA eB)
  case 0
  then show ?case by simp
next
  case (Suc n)
  have b: "fst (simulateBody tk s eA) = fst (rollbackBody tk s eB)"
    using assms Suc.prems by (rule body_scopeFree)
  have "trajStates (simulateBody tk) n (fst (simulateBody tk s eA)) (snd (simulateBody tk s eA)) =
      trajStates (rollbackBody tk) n (fst (simulateBody tk s eA)) (snd (rollbackBody tk s eB))"
    using Suc.prems by (intro Suc.IH) (simp_all add: simulateBody_rings rollbackBody_rings)
  then show ?case
    by (simp add: split_beta b)
qed

text \<open>
  C1 (as amended). Let the engine be at the point where frame \<open>f\<close> is the next frame to
  simulate, and let the script's commands be a function of the frame and the input mask
  alone. Run the engine forward to a frame \<open>T\<close> with \<open>f \<le> T \<le> f + 62\<close> (so that the
  snapshot of frame \<open>f - 1\<close> is still in the ring) and \<open>T \<le> 65535\<close>, then store the
  remote input for \<open>f\<close> and call \<open>rollbackFrom(f)\<close>. The history, the latest frame and
  the input rings are then those of the run in which the input was stored before the
  forward run; in particular the latest state is the same. The VMs are not restored by
  a rollback, which is why the script must not depend on its scope.
\<close>
theorem rollback_matches_in_order_run:
  assumes sf: "scopeFree tk"
    and slot: "hist e (latest e mod histLen) = Some s0"
    and fr: "frame s0 = latest e"
    and f: "f = latest e + 1"
    and T: "f \<le> T" "T \<le> latest e + 63" "T \<le> 65535"
  shows "\<exists>sA eA eA' sB eB.
     simulateTo tk e T = Some (Inr (sA, eA)) \<and>
     rollbackFrom tk (setRemoteInput eA f m) f = Some (Inr eA') \<and>
     simulateTo tk (setRemoteInput e f m) T = Some (Inr (sB, eB)) \<and>
     hist eA' = hist eB \<and> latest eA' = latest eB \<and>
     in1 eA' = in1 eB \<and> in2 eA' = in2 eB \<and>
     getLatest eA' = Inr sB \<and> frame sB = T"
proof -
  define n where "n = T - latest e"
  have n: "frame s0 + n = T" "0 < n" "n \<le> 63"
    using fr f T by (simp_all add: n_def)
  text \<open>The mispredicted forward run.\<close>
  define rA where "rA = iterBody (simulateBody tk) n s0 e"
  define trA where "trA = trajStates (simulateBody tk) n s0 e"
  have simA: "simulateTo tk e T = Some (Inr (fst rA, snd rA))"
    using simulateTo_iter [OF slot n(1) T(3), of tk] by (simp add: rA_def)
  have histA: "hist (snd rA) = foldl commit (hist e) trA"
    by (simp add: rA_def trA_def iterBody_sim_hist)
  have latestA: "latest (snd rA) = T"
    using n T by (simp add: rA_def iterBody_sim_latest iterBody_sim_frame)
  text \<open>The late input, and the rollback.\<close>
  define eL where "eL = setRemoteInput (snd rA) f m"
  define eB0 where "eB0 = setRemoteInput e f m"
  have lpn: "localPlayerNumber (snd rA) = localPlayerNumber e"
    and r1: "in1 (snd rA) = in1 e" and r2: "in2 (snd rA) = in2 e"
    and cdA: "collisionData (snd rA) = collisionData e"
    by (simp_all add: rA_def iterBody_sim_rings)
  have rings: "in1 eB0 = in1 eL" "in2 eB0 = in2 eL" "collisionData eB0 = collisionData eL"
    by (simp_all add: eL_def eB0_def setRemoteInput_def lpn r1 r2 cdA)
  have untouched: "\<forall>t \<in> set trA. frame t mod histLen \<noteq> latest e mod histLen"
  proof
    fix t assume "t \<in> set trA"
    then have "frame s0 < frame t \<and> frame t \<le> frame s0 + n"
      using n T unfolding trA_def by (intro traj_sim_frame_bounds) simp_all
    then have k: "frame t = latest e + (frame t - latest e)" "0 < frame t - latest e"
        "frame t - latest e \<le> 63"
      using fr n by linarith+
    show "frame t mod histLen \<noteq> latest e mod histLen"
      using slot_distinct [OF k(2) k(3), of "latest e"] k(1) by (simp add: histLen_def)
  qed
  have resume: "and_ffff (int f - 1) = latest e"
    using f T by (simp add: and_ffff_mod nat_eq_iff)
  have slotL: "hist eL (and_ffff (int f - 1) mod histLen) = Some s0"
    using slot foldl_commit_other [OF untouched, of "hist e"]
    by (simp add: resume eL_def setRemoteInput_keeps histA)
  have latestL: "latest eL = T"
    by (simp add: eL_def setRemoteInput_keeps latestA)
  define rR where "rR = iterBody (rollbackBody tk) n s0 eL"
  define trR where "trR = trajStates (rollbackBody tk) n s0 eL"
  have roll: "rollbackFrom tk eL f = Some (Inr (snd rR))"
    using rollbackFrom_iter [OF slotL, of n tk] n T by (simp add: latestL rR_def)
  have histR: "hist (snd rR) = foldl commit (foldl commit (hist e) trA) trR"
    by (simp add: rR_def trR_def iterBody_roll_hist eL_def setRemoteInput_keeps histA)
  text \<open>The run with the input in place before frame \<open>f\<close>.\<close>
  define rB where "rB = iterBody (simulateBody tk) n s0 eB0"
  define trB where "trB = trajStates (simulateBody tk) n s0 eB0"
  have slotB: "hist eB0 (latest eB0 mod histLen) = Some s0"
    using slot by (simp add: eB0_def setRemoteInput_keeps)
  have simB: "simulateTo tk eB0 T = Some (Inr (fst rB, snd rB))"
    using simulateTo_iter [OF slotB n(1) T(3), of tk] by (simp add: rB_def)
  have histB: "hist (snd rB) = foldl commit (hist e) trB"
    by (simp add: rB_def trB_def iterBody_sim_hist eB0_def setRemoteInput_keeps)
  have same: "trB = trR"
    unfolding trB_def trR_def using sf rings by (rule traj_scopeFree)
  have frames: "map frame trA = map frame trB"
    unfolding trA_def trB_def using n T by (intro traj_sim_frames_same) simp_all
  have h: "hist (snd rR) = hist (snd rB)"
    using foldl_commit_overwrite [OF frames, of "hist e"] by (simp add: histR histB same)
  have l: "latest (snd rR) = latest (snd rB)"
    using n T by (simp add: rR_def rB_def iterBody_roll_rings latestL iterBody_sim_latest
        iterBody_sim_frame)
  have i: "in1 (snd rR) = in1 (snd rB)" "in2 (snd rR) = in2 (snd rB)"
    using rings by (simp_all add: rR_def rB_def iterBody_roll_rings iterBody_sim_rings)
  have gB: "getLatest (snd rB) = Inr (fst rB)"
    using n by (simp add: rB_def iterBody_sim_getLatest)
  have g: "getLatest (snd rR) = Inr (fst rB)"
    using gB h l by (simp add: getLatest_def)
  have fB: "frame (fst rB) = T"
    using n T by (simp add: rB_def iterBody_sim_frame)
  show ?thesis
    using simA roll simB h l i g fB unfolding eL_def eB0_def by blast
qed


theorem rollback_matches_in_order_run_witness:
  "\<exists>sA eA eA' sB eB.
     simulateTo mirrorTick (Rollback_new seed0 () Player1) 2 = Some (Inr (sA, eA)) \<and>
     rollbackFrom mirrorTick (setRemoteInput eA 1 8) 1 = Some (Inr eA') \<and>
     simulateTo mirrorTick (setRemoteInput (Rollback_new seed0 () Player1) 1 8) 2 =
       Some (Inr (sB, eB)) \<and>
     hist eA' = hist eB \<and> latest eA' = latest eB \<and>
     in1 eA' = in1 eB \<and> in2 eA' = in2 eB \<and>
     getLatest eA' = Inr sB \<and> frame sB = 2"
proof -
  have "scopeFree mirrorTick"
    by (simp add: scopeFree_def mirrorTick_def)
  moreover have "hist (Rollback_new seed0 () Player1)
      (latest (Rollback_new seed0 () Player1) mod histLen) = Some seed0"
    and "frame seed0 = latest (Rollback_new seed0 () Player1)"
    and "1 = latest (Rollback_new seed0 () Player1) + 1"
    and "(2::nat) \<le> latest (Rollback_new seed0 () Player1) + 63"
    by (simp_all add: Rollback_new_def seed0_def)
  ultimately show ?thesis
    using rollback_matches_in_order_run
      [where tk = mirrorTick and e = "Rollback_new seed0 () Player1" and ?s0.0 = seed0
         and f = 1 and T = 2 and m = 8]
    by simp
qed

text \<open>
  C1 as stated fails for a script with scope. \<open>firstTick\<close> walks right on the first tick
  of its VM and stops afterwards. Frame 1 is simulated, the remote input for frame 1
  arrives, and the rollback re-simulates frame 1 with VMs that have already ticked once:
  P1 ends at \<open>-65536\<close>, where the run with the input in place ends at \<open>-49152\<close>.
\<close>
theorem rollback_with_scope_counterexample:
  "\<exists>sA eA eA' sB eB.
     simulateTo firstTick (Rollback_new seed0 0 Player1) 1 = Some (Inr (sA, eA)) \<and>
     rollbackFrom firstTick (setRemoteInput eA 1 8) 1 = Some (Inr eA') \<and>
     simulateTo firstTick (setRemoteInput (Rollback_new seed0 0 Player1) 1 8) 1 =
       Some (Inr (sB, eB)) \<and>
     latest eA' = 1 \<and> latest eB = 1 \<and>
     map_option (\<lambda>t. Fighter.x (p1 t)) (hist eA' 1) = Some (- 65536) \<and>
     map_option (\<lambda>t. Fighter.x (p1 t)) (hist eB 1) = Some (- 49152)"
proof -
  let ?e0 = "Rollback_new seed0 (0::nat) Player1"
  define rA where "rA = iterBody (simulateBody firstTick) 1 seed0 ?e0"
  define eL where "eL = setRemoteInput (snd rA) 1 8"
  define rR where "rR = iterBody (rollbackBody firstTick) 1 seed0 eL"
  define rB where "rB = iterBody (simulateBody firstTick) 1 seed0 (setRemoteInput ?e0 1 8)"
  have h0: "hist ?e0 (latest ?e0 mod histLen) = Some seed0"
    by (simp add: Rollback_new_def seed0_def)
  have simA: "simulateTo firstTick ?e0 1 = Some (Inr (fst rA, snd rA))"
    using simulateTo_iter [OF h0, of 1 1 firstTick] by (simp add: rA_def seed0_def)
  have hL: "hist eL (and_ffff (int 1 - 1) mod histLen) = Some seed0"
    by (simp add: eL_def rA_def iterBody_1 run_simps firstTick_def)
  have lL: "latest eL = 1"
    by (simp add: eL_def rA_def iterBody_1 run_simps firstTick_def)
  have roll: "rollbackFrom firstTick eL 1 = Some (Inr (snd rR))"
    using rollbackFrom_iter [OF hL, of 1 firstTick] lL by (simp add: rR_def seed0_def)
  have hB: "hist (setRemoteInput ?e0 1 8) (latest (setRemoteInput ?e0 1 8) mod histLen) = Some seed0"
    by (simp add: setRemoteInput_keeps h0)
  have simB: "simulateTo firstTick (setRemoteInput ?e0 1 8) 1 = Some (Inr (fst rB, snd rB))"
    using simulateTo_iter [OF hB, of 1 1 firstTick] by (simp add: rB_def seed0_def)
  have xA: "map_option (\<lambda>t. Fighter.x (p1 t)) (hist (snd rR) 1) = Some (- 65536)"
    by (simp add: rR_def eL_def rA_def iterBody_1 run_simps firstTick_def)
  have xB: "map_option (\<lambda>t. Fighter.x (p1 t)) (hist (snd rB) 1) = Some (- 49152)"
    by (simp add: rB_def iterBody_1 run_simps firstTick_def)
  have lA: "latest (snd rR) = 1"
    using lL by (simp add: rR_def rollbackBody_rings)
  have lB: "latest (snd rB) = 1"
    by (simp add: rB_def iterBody_1 run_simps firstTick_def)
  show ?thesis
    using simA roll simB xA xB lA lB unfolding eL_def by blast
qed

section \<open>A remote input that is too late\<close>

lemma iterBody_snoc:
  "iterBody body (Suc n) s e = (case iterBody body n s e of (s', e') \<Rightarrow> body s' e')"
  by (induction n arbitrary: s e) (simp_all add: split_beta)

lemma late_body:
  assumes "vm1 e < 64" "vm2 e < 64" "k < 65535" "collisionData e = Map.empty"
  shows "fst (simulateBody lateTick (seed0\<lparr>frame := k\<rparr>) e) = seed0\<lparr>frame := k + 1\<rparr>"
    and "vm1 (snd (simulateBody lateTick (seed0\<lparr>frame := k\<rparr>) e)) = vm1 e + 1"
    and "vm2 (snd (simulateBody lateTick (seed0\<lparr>frame := k\<rparr>) e)) = vm2 e + 1"
  using assms
  by (simp_all add: simulateBody_inputs step_empty_cd Let_def split_beta lateTick_def
      movePlayer_def seed0_def toInt32_small and_ffff_succ)

lemma late_iter:
  "n \<le> 64 \<Longrightarrow>
   fst (iterBody (simulateBody lateTick) n seed0 (Rollback_new seed0 0 Player1)) =
     seed0\<lparr>frame := n\<rparr> \<and>
   vm1 (snd (iterBody (simulateBody lateTick) n seed0 (Rollback_new seed0 0 Player1))) = n \<and>
   vm2 (snd (iterBody (simulateBody lateTick) n seed0 (Rollback_new seed0 0 Player1))) = n"
proof (induction n)
  case 0
  then show ?case by (simp add: Rollback_new_def seed0_def)
next
  case (Suc n)
  let ?r = "iterBody (simulateBody lateTick) n seed0 (Rollback_new seed0 0 Player1)"
  have ih: "fst ?r = seed0\<lparr>frame := n\<rparr>" "vm1 (snd ?r) = n" "vm2 (snd ?r) = n"
    using Suc by simp_all
  have cd: "collisionData (snd ?r) = Map.empty"
    by (simp add: iterBody_sim_rings Rollback_new_def)
  have b: "vm1 (snd ?r) < 64" "vm2 (snd ?r) < 64" "n < 65535"
    using Suc.prems ih by simp_all
  note lb = late_body [OF b cd]
  show ?case
    using lb ih by (simp add: iterBody_snoc split_beta del: iterBody.simps)
qed


text \<open>
  The engine seeded at frame 0 and advanced to frame 64 under \<open>lateTick\<close>: the ring is
  full, slot 63 holds frame 63 and slot 0 holds frame 64, and both VMs have ticked 64
  times.
\<close>
lemma late_run:
  "\<exists>e64. simulateTo lateTick (Rollback_new seed0 0 Player1) 64 =
       Some (Inr (seed0\<lparr>frame := 64\<rparr>, e64)) \<and>
     latest e64 = 64 \<and> vm1 e64 = 64 \<and> vm2 e64 = 64 \<and> collisionData e64 = Map.empty \<and>
     hist e64 63 = Some (seed0\<lparr>frame := 63\<rparr>) \<and>
     hist e64 0 = Some (seed0\<lparr>frame := 64\<rparr>)"
proof -
  let ?e0 = "Rollback_new seed0 (0::nat) Player1"
  define r63 where "r63 = iterBody (simulateBody lateTick) 63 seed0 ?e0"
  define r64 where "r64 = iterBody (simulateBody lateTick) 64 seed0 ?e0"
  have s64: "r64 = simulateBody lateTick (fst r63) (snd r63)"
    using iterBody_snoc [of "simulateBody lateTick" 63 seed0 ?e0]
    by (simp add: r64_def r63_def split_beta del: iterBody.simps)
  define r62 where "r62 = iterBody (simulateBody lateTick) 62 seed0 ?e0"
  have s63: "r63 = simulateBody lateTick (fst r62) (snd r62)"
    using iterBody_snoc [of "simulateBody lateTick" 62 seed0 ?e0]
    by (simp add: r63_def r62_def split_beta del: iterBody.simps)
  have f63: "fst r63 = seed0\<lparr>frame := 63\<rparr>" and v63: "vm1 (snd r63) = 63" "vm2 (snd r63) = 63"
    using late_iter [of 63] by (simp_all add: r63_def)
  have f64: "fst r64 = seed0\<lparr>frame := 64\<rparr>" and v64: "vm1 (snd r64) = 64" "vm2 (snd r64) = 64"
    using late_iter [of 64] by (simp_all add: r64_def)
  have h0: "hist ?e0 (latest ?e0 mod histLen) = Some seed0"
    by (simp add: Rollback_new_def seed0_def)
  have sim: "simulateTo lateTick ?e0 64 = Some (Inr (fst r64, snd r64))"
    using simulateTo_iter [OF h0, of 64 64 lateTick] by (simp add: r64_def seed0_def)
  have l64: "latest (snd r64) = 64"
    by (simp add: s64 simulateBody_latest f64 [unfolded s64])
  have hist64: "hist (snd r64) = commit (commit (hist (snd r62)) (fst r63)) (fst r64)"
    using simulateBody_hist [of lateTick "fst r63" "snd r63"]
      simulateBody_hist [of lateTick "fst r62" "snd r62"]
    by (simp add: s64 [symmetric] s63 [symmetric])
  have slot63: "hist (snd r64) 63 = Some (seed0\<lparr>frame := 63\<rparr>)"
    by (simp add: hist64 commit_def f63 f64 histLen_def)
  have slot0: "hist (snd r64) 0 = Some (seed0\<lparr>frame := 64\<rparr>)"
    by (simp add: hist64 commit_def f63 f64 histLen_def)
  have cd: "collisionData (snd r64) = Map.empty"
    by (simp add: r64_def iterBody_sim_rings Rollback_new_def)
  show ?thesis
    using sim l64 v64 cd slot63 slot0 by (simp add: f64)
qed

text \<open>The rollback for frame 0 on that engine: one pass of the loop from frame 63.\<close>
lemma late_rollback_pass:
  assumes "latest e64 = 64" "vm1 e64 = 64" "vm2 e64 = 64" "collisionData e64 = Map.empty"
  shows "map_option (\<lambda>t. Fighter.x (p1 t))
      (hist (snd (rollbackBody lateTick (seed0\<lparr>frame := 63\<rparr>) (setRemoteInput e64 0 8))) 0) =
      Some (- 49152)"
    and "vm1 (snd (rollbackBody lateTick (seed0\<lparr>frame := 63\<rparr>) (setRemoteInput e64 0 8))) = 65"
  using assms
  by (simp_all add: rollbackBody_inputs step_empty_cd Let_def split_beta lateTick_def
      movePlayer_def seed0_def toInt32_small and_ffff_mod walk_value histLen_def
      setRemoteInput_keeps)

text \<open>
  C6 as stated fails in both of its parts. An engine seeded at frame 100 has one slot
  written; the input for frame 10 is 90 frames late, and \<open>rollbackFrom(10)\<close> reads the
  empty slot 9 and throws. An engine seeded at frame 0 and advanced to frame 64 under
  \<open>lateTick\<close> (a script that starts to walk after 64 ticks of its VM) gets the input
  for frame 0, 64 frames late: \<open>rollbackFrom(0)\<close> resumes from slot 63, which holds
  frame 63, re-simulates frame 64 with VMs that have ticked 64 times, and overwrites
  the committed state of frame 64.
\<close>
theorem too_late_rollback_counterexample:
  "rollbackFrom mirrorTick
     (setRemoteInput (Rollback_new (seed0\<lparr>frame := 100\<rparr>) () Player1) 10 8) 10 =
     Some (Inl TypeError) \<and>
   (\<exists>s e64 e'.
      simulateTo lateTick (Rollback_new seed0 0 Player1) 64 = Some (Inr (s, e64)) \<and>
      latest e64 = 64 \<and>
      rollbackFrom lateTick (setRemoteInput e64 0 8) 0 = Some (Inr e') \<and>
      map_option (\<lambda>t. Fighter.x (p1 t)) (hist e64 0) = Some (- 65536) \<and>
      map_option (\<lambda>t. Fighter.x (p1 t)) (hist e' 0) = Some (- 49152))"
proof -
  have crash: "rollbackFrom mirrorTick
     (setRemoteInput (Rollback_new (seed0\<lparr>frame := 100\<rparr>) () Player1) 10 8) 10 =
     Some (Inl TypeError)"
    by (simp add: rollbackFrom_def setRemoteInput_keeps Rollback_new_def and_ffff_mod
        histLen_def)
  obtain e64 where sim: "simulateTo lateTick (Rollback_new seed0 0 Player1) 64 =
      Some (Inr (seed0\<lparr>frame := 64\<rparr>, e64))"
    and l64: "latest e64 = 64" and v64: "vm1 e64 = 64" "vm2 e64 = 64"
    and cd: "collisionData e64 = Map.empty"
    and slot63: "hist e64 63 = Some (seed0\<lparr>frame := 63\<rparr>)"
    and slot0: "hist e64 0 = Some (seed0\<lparr>frame := 64\<rparr>)"
    using late_run by blast
  define eL where "eL = setRemoteInput e64 0 8"
  have hL: "hist eL (and_ffff (int 0 - 1) mod histLen) = Some (seed0\<lparr>frame := 63\<rparr>)"
    using slot63 by (simp add: eL_def setRemoteInput_keeps and_ffff_mod histLen_def)
  have lL: "latest eL = 64"
    by (simp add: eL_def setRemoteInput_keeps l64)
  have roll: "rollbackFrom lateTick eL 0 =
      Some (Inr (snd (rollbackBody lateTick (seed0\<lparr>frame := 63\<rparr>) eL)))"
    using rollbackFrom_iter [OF hL, of 1 lateTick] lL by simp
  have after: "map_option (\<lambda>t. Fighter.x (p1 t))
      (hist (snd (rollbackBody lateTick (seed0\<lparr>frame := 63\<rparr>) eL)) 0) = Some (- 49152)"
    unfolding eL_def by (rule late_rollback_pass(1) [OF l64 v64 cd])
  have before: "map_option (\<lambda>t. Fighter.x (p1 t)) (hist e64 0) = Some (- 65536)"
    by (simp add: slot0 seed0_def)
  show ?thesis
    using crash sim l64 roll after before unfolding eL_def by blast
qed


lemma traj_roll_frame_bounds:
  "frame s + n \<le> 65535 \<Longrightarrow> t \<in> set (trajStates (rollbackBody tk) n s e) \<Longrightarrow>
   frame s < frame t \<and> frame t \<le> frame s + n"
proof (induction n arbitrary: s e)
  case 0
  then show ?case by simp
next
  case (Suc n)
  have fr: "frame (fst (rollbackBody tk s e)) = frame s + 1"
    using Suc.prems by (simp add: rollbackBody_frame and_ffff_succ)
  from Suc.prems(2) consider "t = fst (rollbackBody tk s e)"
    | "t \<in> set (trajStates (rollbackBody tk) n (fst (rollbackBody tk s e)) (snd (rollbackBody tk s e)))"
    by (auto simp add: split_beta)
  then show ?case
  proof cases
    case 1
    then show ?thesis using fr by simp
  next
    case 2
    have "frame (fst (rollbackBody tk s e)) < frame t \<and>
        frame t \<le> frame (fst (rollbackBody tk s e)) + n"
      using Suc.prems(1) fr 2 by (intro Suc.IH) simp_all
    then show ?thesis using fr by simp
  qed
qed

lemma iterBody_roll_frame:
  "frame s + n \<le> 65535 \<Longrightarrow> frame (fst (iterBody (rollbackBody tk) n s e)) = frame s + n"
  by (induction n arbitrary: s e) (simp_all add: split_beta rollbackBody_frame and_ffff_succ)

lemma iterBody_roll_last:
  assumes "0 < n"
  shows "hist (snd (iterBody (rollbackBody tk) n s e))
      (frame (fst (iterBody (rollbackBody tk) n s e)) mod histLen) =
    Some (fst (iterBody (rollbackBody tk) n s e))"
proof -
  obtain k where n: "n = Suc k"
    using assms by (cases n) simp_all
  show ?thesis
    unfolding n iterBody_snoc
    by (simp add: split_beta rollbackBody_hist commit_def del: iterBody.simps)
qed

text \<open>
  C6 (as amended). \<open>rollbackFrom\<close> has no test for an input that is too late: after
  \<open>setRemoteInput(f, m)\<close> it resumes from whatever the slot of frame \<open>f - 1\<close> holds.
  If that slot is empty the call throws a TypeError. If it holds a snapshot \<open>g\<close>, of
  whatever frame, the call returns the engine after one pass of the loop body (a step
  with the inputs now in the rings, on both VMs, committed to the history) for every
  frame after \<open>g\<close>'s up to the latest, starting from \<open>g\<close>; when \<open>g\<close> is before the
  latest frame, the state of the latest frame is then the last state so computed. The
  latest frame and the input rings are as \<open>setRemoteInput\<close> left them; a history slot
  can change only if it is the slot of a frame after \<open>g\<close>'s and up to the latest; and
  when \<open>g\<close> is not before the latest frame, the history and both VMs are untouched.
\<close>
theorem rollbackFrom_has_no_guard:
  "(hist e (and_ffff (int f - 1) mod histLen) = None \<longrightarrow>
      rollbackFrom tk (setRemoteInput e f m) f = Some (Inl TypeError)) \<and>
   (hist e (and_ffff (int f - 1) mod histLen) = Some g \<and> latest e \<le> 65535 \<longrightarrow>
      rollbackFrom tk (setRemoteInput e f m) f =
        Some (Inr (snd (iterBody (rollbackBody tk) (latest e - frame g) g
                          (setRemoteInput e f m)))) \<and>
      (\<exists>e'. rollbackFrom tk (setRemoteInput e f m) f = Some (Inr e') \<and>
         latest e' = latest e \<and>
         in1 e' = in1 (setRemoteInput e f m) \<and> in2 e' = in2 (setRemoteInput e f m) \<and>
         (\<forall>i. (\<forall>k. frame g < k \<and> k \<le> latest e \<longrightarrow> k mod histLen \<noteq> i) \<longrightarrow>
              hist e' i = hist e i) \<and>
         (frame g < latest e \<longrightarrow>
            getLatest e' =
              Inr (fst (iterBody (rollbackBody tk) (latest e - frame g) g
                          (setRemoteInput e f m)))) \<and>
         (latest e \<le> frame g \<longrightarrow> hist e' = hist e \<and> vm1 e' = vm1 e \<and> vm2 e' = vm2 e)))"
proof (intro conjI impI)
  assume "hist e (and_ffff (int f - 1) mod histLen) = None"
  then show "rollbackFrom tk (setRemoteInput e f m) f = Some (Inl TypeError)"
    by (simp add: rollbackFrom_def setRemoteInput_keeps)
next
  assume a: "hist e (and_ffff (int f - 1) mod histLen) = Some g \<and> latest e \<le> 65535"
  define eL where "eL = setRemoteInput e f m"
  define n where "n = latest e - frame g"
  define r where "r = iterBody (rollbackBody tk) n g eL"
  have hL: "hist eL (and_ffff (int f - 1) mod histLen) = Some g"
    and lL: "latest eL = latest e" and hh: "hist eL = hist e"
    and vL: "vm1 eL = vm1 e" "vm2 eL = vm2 e"
    using a by (simp_all add: eL_def setRemoteInput_keeps)
  have roll: "rollbackFrom tk eL f = Some (Inr (snd r))"
  proof (cases "frame g < latest e")
    case False
    then have "n = 0" by (simp add: n_def)
    then show ?thesis
      using hL False by (simp add: rollbackFrom_def rollbackLoop_done lL r_def)
  next
    case True
    then have "frame g + n = latest eL" "latest eL \<le> 65535"
      using a by (simp_all add: n_def lL)
    then show ?thesis
      using rollbackFrom_iter [OF hL, of n tk] by (simp add: r_def)
  qed
  then show "rollbackFrom tk (setRemoteInput e f m) f =
      Some (Inr (snd (iterBody (rollbackBody tk) (latest e - frame g) g
                        (setRemoteInput e f m))))"
    by (simp add: eL_def r_def n_def)
  have keep: "latest (snd r) = latest e" "in1 (snd r) = in1 eL" "in2 (snd r) = in2 eL"
    by (simp_all add: r_def iterBody_roll_rings lL)
  have hr: "hist (snd r) = foldl commit (hist e) (trajStates (rollbackBody tk) n g eL)"
    by (simp add: r_def iterBody_roll_hist hh)
  have other: "hist (snd r) i = hist e i"
    if i: "\<forall>k. frame g < k \<and> k \<le> latest e \<longrightarrow> k mod histLen \<noteq> i" for i
  proof -
    have "\<forall>t \<in> set (trajStates (rollbackBody tk) n g eL). frame t mod histLen \<noteq> i"
    proof
      fix t assume t: "t \<in> set (trajStates (rollbackBody tk) n g eL)"
      have "0 < n" using t by (cases n) simp_all
      then have "frame g + n \<le> 65535" "frame g + n = latest e"
        using a by (simp_all add: n_def)
      then have "frame g < frame t \<and> frame t \<le> latest e"
        using traj_roll_frame_bounds [OF _ t] by simp
      then show "frame t mod histLen \<noteq> i"
        using i by simp
    qed
    then show ?thesis
      by (simp add: hr foldl_commit_other)
  qed
  have last: "getLatest (snd r) = Inr (fst r)" if lt: "frame g < latest e"
  proof -
    have n: "0 < n" "frame g + n \<le> 65535" "frame g + n = latest e"
      using lt a by (simp_all add: n_def)
    have "frame (fst r) = latest e"
      using iterBody_roll_frame [OF n(2), of tk eL] n(3) by (simp add: r_def)
    then show ?thesis
      using iterBody_roll_last [OF n(1), of tk g eL]
      by (simp add: getLatest_def keep r_def [symmetric])
  qed
  have same: "hist (snd r) = hist e \<and> vm1 (snd r) = vm1 e \<and> vm2 (snd r) = vm2 e"
    if "latest e \<le> frame g"
  proof -
    have "n = 0" using that by (simp add: n_def)
    then show ?thesis by (simp add: r_def hh vL)
  qed
  show "\<exists>e'. rollbackFrom tk (setRemoteInput e f m) f = Some (Inr e') \<and>
         latest e' = latest e \<and>
         in1 e' = in1 (setRemoteInput e f m) \<and> in2 e' = in2 (setRemoteInput e f m) \<and>
         (\<forall>i. (\<forall>k. frame g < k \<and> k \<le> latest e \<longrightarrow> k mod histLen \<noteq> i) \<longrightarrow>
              hist e' i = hist e i) \<and>
         (frame g < latest e \<longrightarrow>
            getLatest e' =
              Inr (fst (iterBody (rollbackBody tk) (latest e - frame g) g
                          (setRemoteInput e f m)))) \<and>
         (latest e \<le> frame g \<longrightarrow> hist e' = hist e \<and> vm1 e' = vm1 e \<and> vm2 e' = vm2 e)"
    using roll keep other last same
    unfolding eL_def [symmetric] n_def [symmetric] r_def [symmetric]
    by (intro exI [of _ "snd r"]) simp
qed

text \<open>
  Three calls. On an engine seeded at frame 100 the input for frame 10 meets an empty
  slot. On an engine advanced to frame 1 the input for frame 1 makes the rollback run the
  step of frame 1 again from the snapshot of frame 0: player 2 now walks. On the
  engine advanced to frame 64 under \<open>lateTick\<close> the input for frame 0 is 64 frames
  late; slot 63 holds frame 63, and the rollback runs the step of frame 64 again,
  ticking both VMs a 65th time and replacing the committed state of frame 64.
\<close>
theorem rollbackFrom_has_no_guard_witness:
  "rollbackFrom mirrorTick
     (setRemoteInput (Rollback_new (seed0\<lparr>frame := 100\<rparr>) () Player1) 10 8) 10 =
     Some (Inl TypeError) \<and>
   (\<exists>s e1 e'.
      simulateTo mirrorTick (Rollback_new seed0 () Player1) 1 = Some (Inr (s, e1)) \<and>
      latest e1 = 1 \<and> map_option (\<lambda>t. vx (p2 t)) (hist e1 1) = Some 0 \<and>
      rollbackFrom mirrorTick (setRemoteInput e1 1 8) 1 = Some (Inr e') \<and>
      latest e' = 1 \<and> map_option (\<lambda>t. vx (p2 t)) (hist e' 1) = Some 16384 \<and>
      map_option (\<lambda>t. vx (p2 t)) (case getLatest e' of Inr t \<Rightarrow> Some t | Inl _ \<Rightarrow> None) =
        Some 16384) \<and>
   (\<exists>e64 e'.
      simulateTo lateTick (Rollback_new seed0 0 Player1) 64 =
        Some (Inr (seed0\<lparr>frame := 64\<rparr>, e64)) \<and>
      latest e64 = 64 \<and> map_option frame (hist e64 63) = Some 63 \<and> vm1 e64 = 64 \<and>
      map_option (\<lambda>t. Fighter.x (p1 t)) (hist e64 0) = Some (- 65536) \<and>
      rollbackFrom lateTick (setRemoteInput e64 0 8) 0 = Some (Inr e') \<and>
      latest e' = 64 \<and> vm1 e' = 65 \<and>
      map_option (\<lambda>t. Fighter.x (p1 t)) (hist e' 0) = Some (- 49152))"
proof -
  have a: "hist (Rollback_new (seed0\<lparr>frame := 100\<rparr>) () Player1)
      (and_ffff (int 10 - 1) mod histLen) = None"
    by (simp add: Rollback_new_def and_ffff_mod histLen_def)
  from rollbackFrom_has_no_guard
    [where e = "Rollback_new (seed0\<lparr>frame := 100\<rparr>) () Player1" and f = 10 and m = 8
       and tk = mirrorTick] a
  have 1: "rollbackFrom mirrorTick
     (setRemoteInput (Rollback_new (seed0\<lparr>frame := 100\<rparr>) () Player1) 10 8) 10 =
     Some (Inl TypeError)"
    by blast
  let ?e0 = "Rollback_new seed0 () Player1"
  define r1 where "r1 = simulateBody mirrorTick seed0 ?e0"
  have h0: "hist ?e0 (latest ?e0 mod histLen) = Some seed0"
    by (simp add: Rollback_new_def seed0_def)
  have sim1: "simulateTo mirrorTick ?e0 1 = Some (Inr (fst r1, snd r1))"
    using simulateTo_iter [OF h0, of 1 1 mirrorTick] by (simp add: r1_def seed0_def)
  have l1: "latest (snd r1) = 1"
    by (simp add: r1_def run_simps mirrorTick_masks)
  have b1: "map_option (\<lambda>t. vx (p2 t)) (hist (snd r1) 1) = Some 0"
    by (simp add: r1_def run_simps mirrorTick_masks)
  have g1: "hist (snd r1) (and_ffff (int 1 - 1) mod histLen) = Some seed0 \<and>
      latest (snd r1) \<le> 65535"
    by (simp add: r1_def run_simps mirrorTick_masks)
  have f0: "frame seed0 = 0"
    by (simp add: seed0_def)
  define q1 where "q1 = rollbackBody mirrorTick seed0 (setRemoteInput (snd r1) 1 8)"
  from rollbackFrom_has_no_guard
    [where e = "snd r1" and f = 1 and m = 8 and g = seed0 and tk = mirrorTick] g1
  have roll1: "rollbackFrom mirrorTick (setRemoteInput (snd r1) 1 8) 1 = Some (Inr (snd q1))"
    and last1: "getLatest (snd q1) = Inr (fst q1)"
    by (auto simp add: l1 f0 q1_def)
  have c1: "latest (snd q1) = 1"
    "map_option (\<lambda>t. vx (p2 t)) (hist (snd q1) 1) = Some 16384"
    "vx (p2 (fst q1)) = 16384"
    by (simp_all add: q1_def r1_def run_simps mirrorTick_masks)
  have 2: "\<exists>s e1 e'.
      simulateTo mirrorTick ?e0 1 = Some (Inr (s, e1)) \<and>
      latest e1 = 1 \<and> map_option (\<lambda>t. vx (p2 t)) (hist e1 1) = Some 0 \<and>
      rollbackFrom mirrorTick (setRemoteInput e1 1 8) 1 = Some (Inr e') \<and>
      latest e' = 1 \<and> map_option (\<lambda>t. vx (p2 t)) (hist e' 1) = Some 16384 \<and>
      map_option (\<lambda>t. vx (p2 t)) (case getLatest e' of Inr t \<Rightarrow> Some t | Inl _ \<Rightarrow> None) =
        Some 16384"
    using sim1 l1 b1 roll1 c1 last1
    by (intro exI [of _ "fst r1"] exI [of _ "snd r1"] exI [of _ "snd q1"]) simp
  obtain e64 where sim: "simulateTo lateTick (Rollback_new seed0 0 Player1) 64 =
      Some (Inr (seed0\<lparr>frame := 64\<rparr>, e64))"
    and l64: "latest e64 = 64" and v64: "vm1 e64 = 64" "vm2 e64 = 64"
    and cd: "collisionData e64 = Map.empty"
    and slot63: "hist e64 63 = Some (seed0\<lparr>frame := 63\<rparr>)"
    and slot0: "hist e64 0 = Some (seed0\<lparr>frame := 64\<rparr>)"
    using late_run by blast
  have g64: "hist e64 (and_ffff (int 0 - 1) mod histLen) = Some (seed0\<lparr>frame := 63\<rparr>) \<and>
      latest e64 \<le> 65535"
    using slot63 l64 by (simp add: and_ffff_mod histLen_def)
  define q64 where "q64 = rollbackBody lateTick (seed0\<lparr>frame := 63\<rparr>) (setRemoteInput e64 0 8)"
  from rollbackFrom_has_no_guard
    [where e = e64 and f = 0 and m = 8 and g = "seed0\<lparr>frame := 63\<rparr>" and tk = lateTick] g64
  have roll64: "rollbackFrom lateTick (setRemoteInput e64 0 8) 0 = Some (Inr (snd q64))"
    by (simp add: l64 q64_def)
  have "latest (snd q64) = 64"
    using iterBody_roll_rings [of lateTick 1 "seed0\<lparr>frame := 63\<rparr>" "setRemoteInput e64 0 8"]
    by (simp add: q64_def l64 setRemoteInput_keeps)
  then have 3: "\<exists>e64 e'.
      simulateTo lateTick (Rollback_new seed0 0 Player1) 64 =
        Some (Inr (seed0\<lparr>frame := 64\<rparr>, e64)) \<and>
      latest e64 = 64 \<and> map_option frame (hist e64 63) = Some 63 \<and> vm1 e64 = 64 \<and>
      map_option (\<lambda>t. Fighter.x (p1 t)) (hist e64 0) = Some (- 65536) \<and>
      rollbackFrom lateTick (setRemoteInput e64 0 8) 0 = Some (Inr e') \<and>
      latest e' = 64 \<and> vm1 e' = 65 \<and>
      map_option (\<lambda>t. Fighter.x (p1 t)) (hist e' 0) = Some (- 49152)"
    using sim l64 v64 slot63 slot0 roll64 late_rollback_pass [OF l64 v64 cd]
    by (intro exI [of _ e64] exI [of _ "snd q64"]) (simp add: q64_def seed0_def)
  from 1 2 3 show ?thesis by blast
qed

section \<open>The state that simulateTo returns\<close>

subsection \<open>Copies and assignments in the store\<close>

lemma deref_clone:
  "deref (snd (structuredClone h a)) (fst (structuredClone h a)) = deref h a"
  by (simp add: structuredClone_def deref_def Let_def split_beta)

lemma clone_layout:
  "nextFree (snd (structuredClone h a)) = nextFree h + 3"
  "fst (structuredClone h a) = nextFree h + 2"
  "snd (stateObjs (snd (structuredClone h a)) (nextFree h + 2)) =
     (nextFree h,
      if snd (snd (stateObjs h a)) = fst (snd (stateObjs h a)) then nextFree h
      else nextFree h + 1)"
  "b < nextFree h \<Longrightarrow> stateObjs (snd (structuredClone h a)) b = stateObjs h b"
  by (simp_all add: structuredClone_def Let_def split_beta)

lemma mutate_layout:
  "nextFree (mutate h sa s') = nextFree h"
  "snd (stateObjs (mutate h sa s') b) = snd (stateObjs h b)"
  by (simp_all add: mutate_def split_beta)

lemma deref_clone_below:
  assumes "b < nextFree h" "fst (snd (stateObjs h b)) < nextFree h"
    "snd (snd (stateObjs h b)) < nextFree h"
  shows "deref (snd (structuredClone h a)) b = deref h b"
  using assms by (simp add: structuredClone_def deref_def Let_def split_beta)

lemma deref_mutate_clone_below:
  assumes "b < nextFree h" "fst (snd (stateObjs h b)) < nextFree h"
    "snd (snd (stateObjs h b)) < nextFree h"
  shows "deref (mutate (snd (structuredClone h a)) (fst (structuredClone h a)) s') b = deref h b"
  using assms by (simp add: structuredClone_def deref_def mutate_def Let_def split_beta)

lemma deref_mutate_self:
  assumes "fst (snd (stateObjs h sa)) \<noteq> snd (snd (stateObjs h sa))"
  shows "deref (mutate h sa s') sa = s'"
  using assms by (simp add: mutate_def deref_def split_beta)

lemma deref_mutate_other:
  assumes "b \<noteq> sa"
    and "fst (snd (stateObjs h b)) \<noteq> fst (snd (stateObjs h sa))"
    and "fst (snd (stateObjs h b)) \<noteq> snd (snd (stateObjs h sa))"
    and "snd (snd (stateObjs h b)) \<noteq> fst (snd (stateObjs h sa))"
    and "snd (snd (stateObjs h b)) \<noteq> snd (snd (stateObjs h sa))"
  shows "deref (mutate h sa s') b = deref h b"
  using assms by (simp add: mutate_def deref_def split_beta)

lemma simulateLoopRef_done:
  "\<not> frame (deref h sa) < target \<Longrightarrow> simulateLoopRef tk target sa h er = Some (h, er)"
  by (subst simulateLoopRef.simps) simp

text \<open>The constructor on the store builds the engine of the constructor on values.\<close>
lemma RollbackRef_new_ok:
  "committedBelow (fst (RollbackRef_new h seedState fresh lpn))
     (snd (RollbackRef_new h seedState fresh lpn)) \<and>
   engineOf (fst (RollbackRef_new h seedState fresh lpn))
     (snd (RollbackRef_new h seedState fresh lpn)) =
     Rollback_new (deref h seedState) fresh lpn"
  by (auto simp add: RollbackRef_new_def committedBelow_def engineOf_def Rollback_new_def
      structuredClone_def deref_def Let_def split_beta fun_eq_iff)

subsection \<open>One pass of the loop on the store\<close>

text \<open>
  One pass of the loop body on the store is one pass on the engine by value, and the
  working state stays apart from the snapshots it commits.
\<close>
lemma simulateBodyRef_refines:
  assumes cb: "committedBelow h er" and wa: "workingApart h sa er"
  shows "deref (fst (simulateBodyRef tk sa h er)) sa = fst (simulateBody tk (deref h sa) (engineOf h er))"
    and "engineOf (fst (simulateBodyRef tk sa h er)) (snd (simulateBodyRef tk sa h er)) =
      snd (simulateBody tk (deref h sa) (engineOf h er))"
    and "committedBelow (fst (simulateBodyRef tk sa h er)) (snd (simulateBodyRef tk sa h er))"
    and "workingApart (fst (simulateBodyRef tk sa h er)) sa (snd (simulateBodyRef tk sa h er))"
proof -
  define nxt where "nxt = and_ffff (int (frame (deref h sa)) + 1)"
  define st where "st = step tk (collisionData er) (deref h sa) (input1 er nxt) (input2 er nxt)
      (vm1 er) (vm2 er)"
  define h1 where "h1 = mutate h sa (fst st)"
  define h2 where "h2 = snd (structuredClone h1 sa)"
  define c where "c = fst (structuredClone h1 sa)"
  have wa': "fst (snd (stateObjs h sa)) \<noteq> snd (snd (stateObjs h sa))"
    "sa < nextFree h" "fst (snd (stateObjs h sa)) < nextFree h"
    "snd (snd (stateObjs h sa)) < nextFree h"
    using wa by (simp_all add: workingApart_def split_beta)
  have apart: "b \<noteq> sa \<and> fst (snd (stateObjs h b)) \<noteq> fst (snd (stateObjs h sa)) \<and>
      fst (snd (stateObjs h b)) \<noteq> snd (snd (stateObjs h sa)) \<and>
      snd (snd (stateObjs h b)) \<noteq> fst (snd (stateObjs h sa)) \<and>
      snd (snd (stateObjs h b)) \<noteq> snd (snd (stateObjs h sa))"
    if "hist er i = Some b" for i b
    using wa that by (simp add: workingApart_def split_beta)
  have below: "b < nextFree h \<and> fst (snd (stateObjs h b)) < nextFree h \<and>
      snd (snd (stateObjs h b)) < nextFree h"
    if "hist er i = Some b" for i b
    using cb that by (simp add: committedBelow_def)
  have d1: "deref h1 sa = fst st"
    using wa' by (simp add: h1_def deref_mutate_self)
  have res: "simulateBodyRef tk sa h er =
      (h2, er\<lparr>vm1 := fst (snd st), vm2 := snd (snd st), latest := frame (fst st),
               hist := (hist er)(frame (fst st) mod histLen \<mapsto> c)\<rparr>)"
    by (simp add: simulateBodyRef_def stepRef_def Let_def split_beta nxt_def [symmetric]
        st_def [symmetric] h1_def [symmetric] d1 h2_def c_def deref_clone)
  have d2: "deref h2 sa = fst st"
    using wa' d1 deref_clone_below [of sa h1 sa]
    by (simp add: h2_def h1_def mutate_layout)
  have dc: "deref h2 c = fst st"
    using d1 by (simp add: h2_def c_def deref_clone)
  have old1: "deref h1 b = deref h b" if "hist er i = Some b" for i b
    using apart [OF that] by (simp add: h1_def deref_mutate_other)
  have old2: "deref h2 b = deref h b" if "hist er i = Some b" for i b
    using below [OF that] old1 [OF that] deref_clone_below [of b h1 sa]
    by (simp add: h2_def h1_def mutate_layout)
  have body: "simulateBody tk (deref h sa) (engineOf h er) =
      (fst st, (engineOf h er)\<lparr>vm1 := fst (snd st), vm2 := snd (snd st), latest := frame (fst st),
         hist := (hist (engineOf h er))(frame (fst st) mod histLen \<mapsto> fst st)\<rparr>)"
    by (simp add: simulateBody_def Let_def split_beta st_def nxt_def input1_def input2_def
        engineOf_def)
  show "deref (fst (simulateBodyRef tk sa h er)) sa =
      fst (simulateBody tk (deref h sa) (engineOf h er))"
    by (simp add: res body d2)
  show "engineOf (fst (simulateBodyRef tk sa h er)) (snd (simulateBodyRef tk sa h er)) =
      snd (simulateBody tk (deref h sa) (engineOf h er))"
  proof -
    have mo: "map_option (deref h2) (hist er i) = map_option (deref h) (hist er i)" for i
      using old2 [of i] by (cases "hist er i") simp_all
    show ?thesis
      unfolding res body using dc
      by (auto simp add: engineOf_def fun_eq_iff mo)
  qed
  have nf2: "nextFree h2 = nextFree h + 3" and cval: "c = nextFree h + 2"
    by (simp_all add: h2_def c_def h1_def clone_layout mutate_layout)
  have lay_c: "snd (stateObjs h2 c) = (nextFree h, nextFree h + 1)"
    using clone_layout(3) [of h1 sa] wa'(1)
    by (simp add: h2_def cval h1_def mutate_layout)
  have lay_old: "snd (stateObjs h2 b) = snd (stateObjs h b)" if "b < nextFree h" for b
    using that clone_layout(4) [of b h1 sa] by (simp add: h2_def h1_def mutate_layout)
  have cb_new: "b < nextFree h2 \<and> fst (snd (stateObjs h2 b)) < nextFree h2 \<and>
      snd (snd (stateObjs h2 b)) < nextFree h2"
    if "((hist er)(frame (fst st) mod histLen \<mapsto> c)) i = Some b" for i b
  proof (cases "i = frame (fst st) mod histLen")
    case True
    then have "b = c" using that by simp
    then show ?thesis by (simp add: lay_c nf2) (simp add: cval)
  next
    case False
    then have hb: "hist er i = Some b" using that by simp
    show ?thesis
      using below [OF hb] lay_old [of b] by (simp add: nf2)
  qed
  show "committedBelow (fst (simulateBodyRef tk sa h er)) (snd (simulateBodyRef tk sa h er))"
    unfolding res committedBelow_def using cb_new by simp
  have lay_sa: "snd (stateObjs h2 sa) = snd (stateObjs h sa)"
    using lay_old [of sa] wa' by simp
  have wa_new: "b \<noteq> sa \<and> fst (snd (stateObjs h2 b)) \<noteq> fst (snd (stateObjs h2 sa)) \<and>
      fst (snd (stateObjs h2 b)) \<noteq> snd (snd (stateObjs h2 sa)) \<and>
      snd (snd (stateObjs h2 b)) \<noteq> fst (snd (stateObjs h2 sa)) \<and>
      snd (snd (stateObjs h2 b)) \<noteq> snd (snd (stateObjs h2 sa))"
    if "((hist er)(frame (fst st) mod histLen \<mapsto> c)) i = Some b" for i b
  proof (cases "i = frame (fst st) mod histLen")
    case True
    then have "b = c" using that by simp
    then show ?thesis using wa' by (simp add: lay_c lay_sa) (simp add: cval)
  next
    case False
    then have hb: "hist er i = Some b" using that by simp
    show ?thesis
      using below [OF hb] apart [OF hb] lay_old [of b] by (simp add: lay_sa)
  qed
  show "workingApart (fst (simulateBodyRef tk sa h er)) sa (snd (simulateBodyRef tk sa h er))"
    unfolding res workingApart_def using wa_new wa' by (simp add: split_beta lay_sa nf2)
qed

subsection \<open>A target that is not ahead: the copy\<close>

text \<open>
  C10. Let the slot of the latest frame refer to a state object whose frame is the latest
  frame, let every object of a committed snapshot be an allocated one, and let the target
  be not greater than the latest frame. Then \<open>simulateTo\<close> returns, and it runs no pass
  of its loop: no VM is ticked, and the engine (the history slots, both input rings, the
  latest frame and both VMs) is the one it was called on, with every snapshot holding the
  value it held. The state it returns is a new object with the value of the snapshot of
  the latest frame; this is the result of \<open>simulateTo\<close> on values. Whatever is assigned
  to the returned object and to its fighters afterwards, the engine and the value of every
  snapshot stay what they were, so every later operation of the engine sees the same
  engine.
\<close>
theorem simulateTo_returns_fresh_copy:
  assumes "hist er (latest er mod histLen) = Some a"
    and "frame (deref h a) = latest er"
    and "target \<le> latest er"
    and "committedBelow h er"
  shows "\<exists>r h'. simulateToRef tk h er target = Some (Inr (r, h', er)) \<and>
     deref h' r = deref h a \<and>
     simulateTo tk (engineOf h er) target = Some (Inr (deref h' r, engineOf h er)) \<and>
     engineOf h' er = engineOf h er \<and>
     committedBelow h' er \<and>
     (\<forall>i. hist er i \<noteq> Some r) \<and>
     (\<forall>s'. engineOf (mutate h' r s') er = engineOf h er \<and>
        committedBelow (mutate h' r s') er \<and>
        (fst (snd (stateObjs h a)) \<noteq> snd (snd (stateObjs h a)) \<longrightarrow>
           deref (mutate h' r s') r = s'))"
proof -
  define r where "r = fst (structuredClone h a)"
  define h' where "h' = snd (structuredClone h a)"
  have below: "b < nextFree h \<and> fst (snd (stateObjs h b)) < nextFree h \<and>
      snd (snd (stateObjs h b)) < nextFree h"
    if "hist er i = Some b" for i b
    using assms(4) that by (simp add: committedBelow_def)
  have d: "deref h' r = deref h a"
    by (simp add: r_def h'_def deref_clone)
  have run: "simulateToRef tk h er target = Some (Inr (r, h', er))"
    using assms d by (simp add: simulateToRef_def split_beta simulateLoopRef_done
        r_def [symmetric] h'_def [symmetric])
  have old: "deref h' b = deref h b \<and> deref (mutate h' r s') b = deref h b"
    if "hist er i = Some b" for i b s'
    using below [OF that] deref_clone_below [of b h a] deref_mutate_clone_below [of b h a s']
    by (simp add: r_def h'_def)
  have mo1: "map_option (deref h') (hist er i) = map_option (deref h) (hist er i)" for i
    using old [of i] by (cases "hist er i") simp_all
  have mo2: "map_option (deref (mutate h' r s')) (hist er i) = map_option (deref h) (hist er i)"
    for i s'
    using old [of i] by (cases "hist er i") simp_all
  have e1: "engineOf h' er = engineOf h er"
    by (simp add: engineOf_def mo1)
  have e2: "engineOf (mutate h' r s') er = engineOf h er" for s'
    by (simp add: engineOf_def mo2)
  have m: "deref (mutate h' r s') r = s'"
    if "fst (snd (stateObjs h a)) \<noteq> snd (snd (stateObjs h a))" for s'
    using that
    by (simp add: r_def h'_def structuredClone_def mutate_def deref_def Let_def split_beta)
  have v: "simulateTo tk (engineOf h er) target = Some (Inr (deref h' r, engineOf h er))"
    using assms d by (simp add: simulateTo_def engineOf_def simulateLoop_done)
  have lay: "nextFree h' = nextFree h + 3"
    "\<And>b. b < nextFree h \<Longrightarrow> snd (stateObjs h' b) = snd (stateObjs h b)"
    by (simp_all add: h'_def clone_layout)
  have c1: "committedBelow h' er"
    unfolding committedBelow_def
  proof (intro allI impI)
    fix i b
    assume hb: "hist er i = Some b"
    show "b < nextFree h' \<and> fst (snd (stateObjs h' b)) < nextFree h' \<and>
        snd (snd (stateObjs h' b)) < nextFree h'"
      using below [OF hb] lay(2) [of b] by (simp add: lay(1))
  qed
  have c2: "committedBelow (mutate h' r s') er" for s'
    using c1 by (simp add: committedBelow_def mutate_layout)
  have fresh: "hist er i \<noteq> Some r" for i
    using below [of i r] by (auto simp add: r_def clone_layout)
  show ?thesis
    using run d v e1 e2 m c1 c2 fresh by blast
qed

theorem simulateTo_returns_fresh_copy_witness:
  "\<exists>r h'. simulateToRef mirrorTick (fst (RollbackRef_new seedHeap 2 () Player1))
       (snd (RollbackRef_new seedHeap 2 () Player1)) 0 =
     Some (Inr (r, h', snd (RollbackRef_new seedHeap 2 () Player1))) \<and>
     deref h' r = seed0 \<and>
     (\<forall>s'. deref (mutate h' r s') r = s' \<and>
        engineOf (mutate h' r s') (snd (RollbackRef_new seedHeap 2 () Player1)) =
        Rollback_new seed0 () Player1)"
proof -
  let ?h = "fst (RollbackRef_new seedHeap 2 () Player1 :: Heap \<times> unit RollbackRef)"
  let ?er = "snd (RollbackRef_new seedHeap 2 () Player1 :: Heap \<times> unit RollbackRef)"
  have s: "deref seedHeap 2 = seed0"
    by (simp add: deref_def seedHeap_def seed0_def)
  have a: "hist ?er (latest ?er mod histLen) = Some 5"
    by (simp add: RollbackRef_new_def structuredClone_def Let_def seedHeap_def split_beta)
  have b: "deref ?h 5 = seed0"
    using deref_clone [of seedHeap 2] s
    by (simp add: RollbackRef_new_def split_beta) (simp add: structuredClone_def Let_def seedHeap_def)
  have c: "latest ?er = 0"
    by (simp add: RollbackRef_new_def split_beta s) (simp add: seed0_def)
  have d: "committedBelow ?h ?er" and e: "engineOf ?h ?er = Rollback_new seed0 () Player1"
    using RollbackRef_new_ok [of seedHeap 2 "()" Player1] s by simp_all
  have f: "fst (snd (stateObjs ?h 5)) \<noteq> snd (snd (stateObjs ?h 5))"
    by (simp add: RollbackRef_new_def structuredClone_def Let_def seedHeap_def split_beta)
  have g: "frame seed0 = 0"
    by (simp add: seed0_def)
  from simulateTo_returns_fresh_copy
    [where h = "?h" and er = "?er" and a = 5 and target = 0 and tk = mirrorTick] a b c d e f g
  have "\<exists>r h'. simulateToRef mirrorTick ?h ?er 0 = Some (Inr (r, h', ?er)) \<and>
      deref h' r = seed0 \<and>
      (\<forall>s'. engineOf (mutate h' r s') ?er = Rollback_new seed0 () Player1 \<and>
         deref (mutate h' r s') r = s')"
    by (simp; blast)
  then show ?thesis
    by blast
qed

end
